(* ===== verification/Esip_Prelude.thy ===== *)
theory Esip_Prelude
  imports Main "HOL-Library.Word" "HOL-Library.Monad_Syntax"
begin

unbundle bit_operations_syntax

text \<open>
  Shared vocabulary of the development: the machine types of the C program, the
  status codes of \<^verbatim>\<open>src/inc/eserror.h\<close>, the decimal rendering done by \<^verbatim>\<open>printf\<close>,
  the network byte order of a port, and the collections of rewrite rules that the
  component theories extend.

  A C function is a HOL function that threads the process state explicitly and
  returns an \<open>option\<close>: \<open>None\<close> is undefined behaviour of the C program (a wild or
  dangling pointer, a double \<^verbatim>\<open>free\<close>, an index out of an array's range) or, for the
  loops defined by \<^theory_text>\<open>partial_function\<close>, a run that does not end. \<open>Some\<close> of a
  result therefore says that the C code returns, and is well defined up to there.
\<close>

section \<open>Machine types\<close>

type_synonym ptr = nat            \<comment> \<open>the address of a live or dead block\<close>
type_synonym cptr = "ptr option"  \<comment> \<open>a C pointer: \<open>None\<close> is the null pointer\<close>
type_synonym byte = "8 word"
type_synonym u16 = "16 word"
type_synonym u32 = "32 word"
type_synonym u64 = "64 word"

section \<open>Status codes\<close>

type_synonym es_status = int

definition ES_OK :: es_status where [simp]: "ES_OK = 0"
definition ES_ERROR_UNKNOWN :: es_status where [simp]: "ES_ERROR_UNKNOWN = - 1"
definition ES_ERROR_OUTOFRESOURCES :: es_status where [simp]: "ES_ERROR_OUTOFRESOURCES = - 2"
definition ES_ERROR_BADPARAM :: es_status where [simp]: "ES_ERROR_BADPARAM = - 3"
definition ES_ERROR_NULLPTR :: es_status where [simp]: "ES_ERROR_NULLPTR = - 4"
definition ES_ERROR_OUTOFRANGE :: es_status where [simp]: "ES_ERROR_OUTOFRANGE = - 5"
definition ES_ERROR_DESTRUCTED :: es_status where [simp]: "ES_ERROR_DESTRUCTED = - 6"
definition ES_ERROR_NOTSUPPORTED :: es_status where [simp]: "ES_ERROR_NOTSUPPORTED = - 7"
definition ES_ERROR_UNINITIALIZED :: es_status where [simp]: "ES_ERROR_UNINITIALIZED = - 8"
definition ES_ERROR_TRY_AGAIN :: es_status where [simp]: "ES_ERROR_TRY_AGAIN = - 9"
definition ES_ERROR_ILLEGAL_ACTION :: es_status where [simp]: "ES_ERROR_ILLEGAL_ACTION = - 10"
definition ES_ERROR_NETWORK_PROBLEM :: es_status where [simp]: "ES_ERROR_NETWORK_PROBLEM = - 11"
definition ES_ERROR_INVALID_HANDLE :: es_status where [simp]: "ES_ERROR_INVALID_HANDLE = - 12"
definition ES_ERROR_NOT_FOUND :: es_status where [simp]: "ES_ERROR_NOT_FOUND = - 13"
definition ES_ERROR_INSUFFICIENT_BUFFER :: es_status where [simp]: "ES_ERROR_INSUFFICIENT_BUFFER = - 14"

text \<open>The code the OSip library returns on success, by its documentation.\<close>

definition OSIP_SUCCESS :: int where [simp]: "OSIP_SUCCESS = 0"

section \<open>Rule collections\<close>

named_theorems state_simps
  \<open>how the primitive state changes act on the fields of the process state\<close>
named_theorems step_simps
  \<open>evaluation of one primitive step inside a run\<close>
named_theorems keep_rules
  \<open>operations that keep a well-formedness predicate of the state\<close>

section \<open>Runs in the option monad\<close>

lemma bind_if [step_simps]:
  "Option.bind (if b then x else y) f = (if b then Option.bind x f else Option.bind y f)"
  by simp

lemma bind_case_option [step_simps]:
  "Option.bind (case m of None \<Rightarrow> x | Some a \<Rightarrow> y a) f =
     (case m of None \<Rightarrow> Option.bind x f | Some a \<Rightarrow> Option.bind (y a) f)"
  by (cases m) simp_all

text \<open>
  Elimination rules that take a run apart along the path it took: after
  \<open>elim run_elims\<close> there is one subgoal per path, with one fact per step and per test.
\<close>

lemma bind_SomeE:
  assumes "Option.bind m f = Some r"
  obtains a where "m = Some a" and "f a = Some r"
  using assms by (cases m) auto

lemma case_prod_SomeE:
  assumes "(case p of (a, b) \<Rightarrow> f a b) = Some r"
  obtains a b where "p = (a, b)" and "f a b = Some r"
  using assms by (cases p) auto

lemma case_prod_app_SomeE:
  assumes "(case p of (a, b) \<Rightarrow> f a b) x = Some r"
  obtains a b where "p = (a, b)" and "f a b x = Some r"
  using assms by (cases p) auto

lemma if_SomeE:
  assumes "(if b then x else y) = Some r"
  obtains (yes) "b" "x = Some r" | (no) "\<not> b" "y = Some r"
  using assms by (cases b) auto

lemma case_option_SomeE:
  assumes "(case m of None \<Rightarrow> x | Some a \<Rightarrow> y a) = Some r"
  obtains (null) "m = None" "x = Some r" | (some) a where "m = Some a" "y a = Some r"
  using assms by (cases m) auto

lemma let_SomeE:
  assumes "(let x = a in f x) = Some r"
  obtains "f a = Some r"
  using assms by simp

lemmas run_elims = let_SomeE bind_SomeE case_prod_SomeE case_prod_app_SomeE if_SomeE case_option_SomeE

text \<open>
  And introduction rules that reduce the definedness of a run to the definedness of
  its steps, each in the context of the steps and tests before it.
\<close>

lemma bind_definedI:
  assumes "m \<noteq> None" and "\<And>a. m = Some a \<Longrightarrow> f a \<noteq> None"
  shows "Option.bind m f \<noteq> None"
  using assms by (cases m) auto

lemma case_prod_definedI:
  assumes "\<And>a b. p = (a, b) \<Longrightarrow> f a b \<noteq> None"
  shows "(case p of (a, b) \<Rightarrow> f a b) \<noteq> None"
  using assms by (cases p) auto

lemma case_prod_app_definedI:
  assumes "\<And>a b. p = (a, b) \<Longrightarrow> f a b x \<noteq> None"
  shows "(case p of (a, b) \<Rightarrow> f a b) x \<noteq> None"
  using assms by (cases p) auto

lemma if_definedI:
  assumes "b \<Longrightarrow> x \<noteq> None" and "\<not> b \<Longrightarrow> y \<noteq> None"
  shows "(if b then x else y) \<noteq> None"
  using assms by simp

lemma case_option_definedI:
  assumes "m = None \<Longrightarrow> x \<noteq> None" and "\<And>a. m = Some a \<Longrightarrow> y a \<noteq> None"
  shows "(case m of None \<Rightarrow> x | Some a \<Rightarrow> y a) \<noteq> None"
  using assms by (cases m) auto

lemma let_definedI: "f a \<noteq> None \<Longrightarrow> (let x = a in f x) \<noteq> None"
  by simp

lemma Some_definedI: "Some x \<noteq> None"
  by simp

lemmas run_intros = let_definedI bind_definedI case_prod_definedI case_prod_app_definedI
  if_definedI case_option_definedI Some_definedI

section \<open>Decimal rendering\<close>

text \<open>The conversions \<^verbatim>\<open>%d\<close> of \<^verbatim>\<open>fprintf\<close> and \<^verbatim>\<open>snprintf\<close>.\<close>

definition digit :: "nat \<Rightarrow> char" where
  "digit n = char_of (48 + n)"

fun dec_nat :: "nat \<Rightarrow> string" where
  "dec_nat n = (if n < 10 then [digit n] else dec_nat (n div 10) @ [digit (n mod 10)])"

declare dec_nat.simps [simp del]

definition dec_int :: "int \<Rightarrow> string" where
  "dec_int i = (if i < 0 then CHR ''-'' # dec_nat (nat (- i)) else dec_nat (nat i))"

lemma dec_nat_nonempty [simp]: "dec_nat n \<noteq> []"
  by (subst dec_nat.simps) simp

lemma length_dec_nat: "n < 10 ^ Suc k \<Longrightarrow> length (dec_nat n) \<le> Suc k"
proof (induction k arbitrary: n)
  case 0
  then show ?case by (subst dec_nat.simps) simp
next
  case (Suc k)
  show ?case
  proof (cases "n < 10")
    case True
    then show ?thesis by (subst dec_nat.simps) simp
  next
    case False
    from Suc.prems have "n div 10 < 10 ^ Suc k"
      by (simp add: div_less_iff_less_mult mult.commute)
    from Suc.IH [OF this] False show ?thesis
      by (simp add: dec_nat.simps [of n])
  qed
qed

definition digit_val :: "char \<Rightarrow> nat" where
  "digit_val c = of_char c - 48"

definition dec_val :: "string \<Rightarrow> nat" where
  "dec_val s = foldl (\<lambda>v c. 10 * v + digit_val c) 0 s"

lemma digit_val_digit: "n < 10 \<Longrightarrow> digit_val (digit n) = n"
  by (simp add: digit_val_def digit_def)

lemma dec_val_dec_nat: "dec_val (dec_nat n) = n"
proof (induction n rule: dec_nat.induct)
  case (1 n)
  show ?case
  proof (cases "n < 10")
    case True
    then show ?thesis by (simp add: dec_nat.simps [of n] dec_val_def digit_val_digit)
  next
    case False
    with 1 have "dec_val (dec_nat (n div 10)) = n div 10" by simp
    with False show ?thesis
      by (simp add: dec_nat.simps [of n] dec_val_def digit_val_digit)
  qed
qed

lemma dec_nat_inject: "dec_nat m = dec_nat n \<longleftrightarrow> m = n"
  by (metis dec_val_dec_nat)

section \<open>Network byte order\<close>

text \<open>
  \<^verbatim>\<open>htons\<close> yields the two bytes of the port in the order in which they lie in
  memory, the most significant one first, whatever the host's own order is. The
  C call converts its \<^verbatim>\<open>int\<close> argument to 16 bits first.
\<close>

definition htons :: "u16 \<Rightarrow> byte \<times> byte" where
  "htons x = (ucast (drop_bit 8 x), ucast x)"

definition ntohs :: "byte \<times> byte \<Rightarrow> u16" where
  "ntohs b = push_bit 8 (ucast (fst b)) OR ucast (snd b)"

lemma ntohs_htons [simp]: "ntohs (htons x) = x"
proof -
  have "bit (ntohs (htons x)) n \<longleftrightarrow> bit x n" if "n < 16" for n
    using that by (auto simp: ntohs_def htons_def bit_simps)
  then show ?thesis by (intro bit_word_eqI) simp
qed

end
