(* ===== verification/Esip_State.thy ===== *)
theory Esip_State
  imports Esip_Prelude
begin

text \<open>
  The state of the process: the C structs of every component as records, the heap
  that holds them, the descriptors the process has open, the text it has written,
  and the history of the calls it has made into code that is not part of the
  repository (the C library and the kernel, libevent, libosip2, libcli).

  That outside code is the parameter \<open>env\<close>: a record of functions that answer a
  call from the whole state of the process, its history included, so that any
  deterministic behaviour of the libraries and of the network is an \<open>env\<close>. What the
  program relies on is stated as named hypotheses about the \<open>env\<close> where it matters.
\<close>

section \<open>Names of functions and blocks\<close>

text \<open>Function pointers that the program stores or passes on.\<close>

datatype fn =
    F_es_transport_ev | F_es_transport_event_cb | F_es_transport_msg_cb
  | F_es_osip_loop | F_es_internal_send_msg_cb | F_es_internal_kill_transaction_cb
  | F_es_internal_transport_error_cb | F_es_internal_message_cb
  | F_es_evconnlistener_cb | F_es_accept_error_cb | F_es_start_cli_thread
  | F_es_cli_regular_callback | F_es_cli_timeout_callback
  | F_signal_cb | F_libevent_log_cb | F_user nat

datatype blk = B_log | B_transport | B_osip | B_msg | B_cli | B_thd

section \<open>The structs of the program\<close>

record es_log_s =                       \<comment> \<open>\<^verbatim>\<open>struct es_log_s\<close>\<close>
  l_module :: string
  l_level :: u32
  l_flags :: u32
  l_file :: cptr
  l_cb :: "fn option"
  l_cb_arg :: cptr

record es_transport_callbacks_s =       \<comment> \<open>\<^verbatim>\<open>struct es_transport_callbacks_s\<close>\<close>
  event_cb :: "fn option"
  msg_recv_cb :: "fn option"
  user_data :: cptr

record es_transport_s =                 \<comment> \<open>\<^verbatim>\<open>struct es_transport_s\<close>\<close>
  t_magic :: u32
  udp_socket :: int
  evudpsock :: cptr
  t_base :: cptr
  callbacks :: es_transport_callbacks_s

record es_osip_s =                      \<comment> \<open>\<^verbatim>\<open>struct es_osip_s\<close>; an \<^verbatim>\<open>osip_list_t\<close> is the row of its elements\<close>
  o_magic :: u32
  osip :: cptr
  transportCtx :: cptr
  o_base :: cptr
  pendingEv :: "ptr list"
  osipDialog :: "ptr list"

record es_msg_s =                       \<comment> \<open>\<^verbatim>\<open>struct es_msg_s\<close>\<close>
  m_magic :: u32
  omsg :: cptr

record es_cli_s =                       \<comment> \<open>\<^verbatim>\<open>struct es_cli_s\<close>\<close>
  c_magic :: u32
  c_base :: cptr
  listener :: cptr
  cliCtx :: cptr
  c_thread :: nat                       \<comment> \<open>an opaque \<^verbatim>\<open>pthread_t\<close> that no statement uses\<close>

record es_cli_thd_s =                   \<comment> \<open>\<^verbatim>\<open>struct _es_cli_thd_s\<close>\<close>
  thd_ctx :: cptr
  thd_fd :: int

text \<open>\<^verbatim>\<open>app_t\<close> lives on the stack of \<^verbatim>\<open>main\<close>: a member that no statement has
  assigned yet is \<open>None\<close>, an indeterminate value.\<close>

record app_s =                          \<comment> \<open>\<^verbatim>\<open>struct app_s\<close>\<close>
  a_cfg :: "cptr option"
  a_base :: "cptr option"
  a_evsig :: "cptr option"
  a_logger :: "cptr option"
  a_osipCtx :: "cptr option"
  a_cliCtx :: "cptr option"

section \<open>What the program sees of library objects\<close>

record event_s =                        \<comment> \<open>a libevent event, as \<^verbatim>\<open>event_new\<close> was asked to make it\<close>
  ev_base :: cptr
  ev_fd :: int
  ev_flags :: u16
  ev_fn :: fn
  ev_arg :: cptr

record listener_s =                     \<comment> \<open>an \<^verbatim>\<open>evconnlistener\<close>\<close>
  ls_fn :: fn
  ls_arg :: cptr
  ls_fd :: int
  ls_flags :: u32

datatype evt_kind =                     \<comment> \<open>\<^verbatim>\<open>osip_event_t.type\<close>, through the \<^verbatim>\<open>EVT_IS_RCV_*\<close> tests\<close>
    RCV_REQINVITE | RCV_REQACK | RCV_REQUEST
  | RCV_STATUS_1XX | RCV_STATUS_2XX | RCV_STATUS_3456XX | EVT_OTHER

record osip_event_s =
  evt_type :: evt_kind
  evt_sip :: cptr

record osip_message_s =                 \<comment> \<open>the members of \<^verbatim>\<open>osip_message_t\<close> the program touches\<close>
  m_from :: cptr
  m_to :: cptr
  m_cseq :: cptr
  m_call_id :: cptr
  m_vias :: "ptr list"

datatype trans_kind = IST | NIST

datatype hdr = Hdr_via | Hdr_from | Hdr_to | Hdr_cseq | Hdr_call_id

datatype cell =
    C_raw blk | C_log es_log_s | C_transport es_transport_s | C_osip es_osip_s
  | C_msg es_msg_s | C_cli es_cli_s | C_thd es_cli_thd_s | C_app app_s
  | C_event event_s | C_listener listener_s | C_evt osip_event_s
  | C_sip osip_message_s | C_tr trans_kind | C_dialog | C_osip_stack
  | C_hdr hdr | C_cli_def | C_ev_base | C_ev_cfg | C_text "byte list"

section \<open>Calls out of the program\<close>

record sockaddr_in =
  sin_family :: int
  sin_port :: "byte \<times> byte"
  sin_addr :: u32

datatype libc_call =
    L_malloc blk | L_free cptr | L_socket int | L_reuseaddr int int | L_ip_tos int u32
  | L_close int | L_bind int sockaddr_in | L_sendto int "byte list" sockaddr_in
  | L_recvfrom int nat | L_pthread_create fn cptr

datatype ev_call =
    Ev_new cptr int u16 fn cptr | Ev_priority_set cptr int | Ev_add cptr | Ev_del cptr
  | Ev_free cptr | Ev_active cptr u16 | Ev_nonblocking int | Ev_set_log_cb fn
  | Ev_config_new | Ev_config_avoid cptr string | Ev_config_free cptr
  | Ev_base_new cptr | Ev_base_priority_init cptr int | Ev_base_dispatch cptr
  | Ev_base_loopexit cptr | Ev_base_free cptr
  | Evl_new_bind cptr fn cptr u32 int sockaddr_in | Evl_enable cptr | Evl_disable cptr
  | Evl_set_error_cb cptr fn | Evl_get_fd cptr | Evl_free cptr | Ev_socket_error

datatype phase = Ict | Ist | Nict | Nist | Timer_Ict | Timer_Ist | Timer_Nict | Timer_Nist

datatype osip_call =
    O_init | O_release cptr | O_list_init | O_parse "byte list" u32 | O_tr_find cptr cptr
  | O_tr_init trans_kind cptr cptr | O_tr_set_out_socket cptr int | O_tr_free cptr
  | O_tr_set_instance cptr cptr | O_tr_get_instance cptr | O_tr_add_event cptr cptr
  | O_stop_retransmissions cptr cptr | O_dialog_match cptr cptr
  | O_dialog_init_as_uas cptr cptr | O_dialog_set_instance cptr cptr
  | O_dialog_update_route cptr cptr | O_execute phase cptr | O_new_outgoing cptr
  | O_message_to_str cptr | O_set_cb_send_message cptr fn
  | O_set_kill_cb cptr nat fn | O_set_transport_error_cb cptr nat fn
  | O_set_message_cb cptr nat fn

datatype msg_call =
    M_init | M_free cptr | M_set_version cptr string | M_set_max_forwards cptr string
  | M_set_status cptr int | M_set_reason cptr "string option" | M_hdr_init hdr
  | M_hdr_clone hdr cptr | M_to_get_tag cptr | M_to_set_tag cptr string | M_random
  | M_set_user_agent cptr string | M_set_organization cptr string
  | M_set_subject cptr string | M_set_server cptr string

datatype cli_call =
    Cli_init | Cli_set_banner cptr string | Cli_set_hostname cptr string
  | Cli_regular cptr fn | Cli_regular_interval cptr int | Cli_idle_timeout cptr int fn
  | Cli_loop cptr int | Cli_print cptr string | Cli_reprompt cptr | Cli_done cptr

text \<open>Calls of the libraries back into the program.\<close>

datatype msg_type =
    OSIP_IST_INVITE_RECEIVED | OSIP_IST_INVITE_RECEIVED_AGAIN | OSIP_IST_STATUS_2XX_SENT
  | OSIP_NIST_STATUS_2XX_SENT | OSIP_IST_ACK_RECEIVED | OSIP_IST_ACK_RECEIVED_AGAIN
  | OSIP_NIST_REGISTER_RECEIVED | OSIP_NIST_BYE_RECEIVED
  | OSIP_NIST_UNKNOWN_REQUEST_RECEIVED | OSIP_OTHER_MESSAGE int

datatype callback =
    Cb_send cptr cptr "string option" int int
  | Cb_kill int cptr
  | Cb_transport_error int cptr int
  | Cb_message msg_type cptr cptr

datatype fire = Fire_event ptr u16 | Fire_accept ptr int int | Fire_accept_error ptr | Run_thread ptr

datatype call =
    Libc libc_call | Lev ev_call | Osip osip_call | Omsg msg_call | Lcli cli_call
  | Enter_cb callback | Enter_fire fire

section \<open>The process\<close>

record world =
  heap :: "ptr \<rightharpoonup> cell"
  brk :: ptr                \<comment> \<open>the next address no block has had\<close>
  hist :: "call list"       \<comment> \<open>the calls made so far, the latest first\<close>
  fds :: "int set"          \<comment> \<open>open descriptors\<close>
  out :: "string list"      \<comment> \<open>what was written to \<^verbatim>\<open>stderr\<close>\<close>
  sout :: "string list"     \<comment> \<open>what was written to \<^verbatim>\<open>stdout\<close>\<close>
  dlog :: es_log_s          \<comment> \<open>the global \<^verbatim>\<open>es_log_default_handler\<close>\<close>

type_synonym 'a run = "('a \<times> world) option"

datatype test = T_request cptr | T_response_for cptr string | T_code cptr int

record env =
  e_int :: "world \<Rightarrow> call \<Rightarrow> int"             \<comment> \<open>the integer a call returns\<close>
  e_ok :: "world \<Rightarrow> call \<Rightarrow> bool"             \<comment> \<open>whether an allocating call returns a block\<close>
  e_ptr :: "world \<Rightarrow> call \<Rightarrow> cptr"            \<comment> \<open>the existing object a call returns\<close>
  e_parse :: "world \<Rightarrow> call \<Rightarrow> (evt_kind \<times> osip_message_s) option"
  e_bytes :: "world \<Rightarrow> call \<Rightarrow> byte list"     \<comment> \<open>the bytes a call delivers\<close>
  e_stack :: "world \<Rightarrow> nat \<Rightarrow> byte"           \<comment> \<open>what an uninitialised local array holds\<close>
  e_reason :: "int \<Rightarrow> string option"          \<comment> \<open>\<^verbatim>\<open>osip_message_get_reason\<close>\<close>
  e_test :: "world \<Rightarrow> test \<Rightarrow> bool"            \<comment> \<open>the \<^verbatim>\<open>MSG_*\<close> macros of libosip2\<close>
  e_text :: "string \<Rightarrow> nat \<Rightarrow> string"          \<comment> \<open>the formatted text of a trace, by its place\<close>
  e_inet_addr :: "string \<Rightarrow> u32"
  l_size :: "ptr list \<Rightarrow> int"                  \<comment> \<open>\<^verbatim>\<open>osip_list_size\<close>\<close>
  l_eol :: "ptr list \<Rightarrow> int \<Rightarrow> bool"           \<comment> \<open>\<^verbatim>\<open>osip_list_eol\<close>\<close>
  l_get :: "ptr list \<Rightarrow> int \<Rightarrow> cptr"           \<comment> \<open>\<^verbatim>\<open>osip_list_get\<close>\<close>
  l_remove :: "ptr list \<Rightarrow> int \<Rightarrow> ptr list"    \<comment> \<open>\<^verbatim>\<open>osip_list_remove\<close>\<close>
  l_add :: "world \<Rightarrow> ptr list \<Rightarrow> cptr \<Rightarrow> int \<Rightarrow> int \<times> ptr list"  \<comment> \<open>\<^verbatim>\<open>osip_list_add\<close>\<close>
  l_drain :: "ptr list \<Rightarrow> ptr list"           \<comment> \<open>what \<^verbatim>\<open>osip_list_special_free\<close> hands to its function\<close>
  e_orig :: "world \<Rightarrow> ptr \<Rightarrow> cptr"            \<comment> \<open>the member \<^verbatim>\<open>orig_request\<close> of a transaction\<close>
  e_freed :: "world \<Rightarrow> ptr \<Rightarrow> bool"           \<comment> \<open>the objects of its own libosip2 has released\<close>
  e_callbacks :: "world \<Rightarrow> call \<Rightarrow> nat"       \<comment> \<open>how often a call re-enters the program\<close>
  e_callback :: "world \<Rightarrow> callback"
  e_fire :: "world \<Rightarrow> fire"
  k_kill :: nat               \<comment> \<open>\<^verbatim>\<open>OSIP_KILL_CALLBACK_COUNT\<close>\<close>
  k_transport_error :: nat    \<comment> \<open>\<^verbatim>\<open>OSIP_TRANSPORT_ERROR_CALLBACK_COUNT\<close>\<close>
  k_message :: nat            \<comment> \<open>\<^verbatim>\<open>OSIP_MESSAGE_CALLBACK_COUNT\<close>\<close>

section \<open>Primitive changes of the state\<close>

definition did :: "call \<Rightarrow> world \<Rightarrow> world" where
  "did c w = w\<lparr>hist := c # hist w\<rparr>"

definition put :: "ptr \<Rightarrow> cell \<Rightarrow> world \<Rightarrow> world" where
  "put a c w = w\<lparr>heap := (heap w)(a \<mapsto> c)\<rparr>"

definition drop_cell :: "ptr \<Rightarrow> world \<Rightarrow> world" where
  "drop_cell a w = w\<lparr>heap := (heap w)(a := None)\<rparr>"

definition new_cell :: "cell \<Rightarrow> world \<Rightarrow> world" where
  "new_cell c w = w\<lparr>heap := (heap w)(brk w \<mapsto> c), brk := Suc (brk w)\<rparr>"

definition opened :: "int \<Rightarrow> world \<Rightarrow> world" where
  "opened fd w = w\<lparr>fds := insert fd (fds w)\<rparr>"

definition closed :: "int \<Rightarrow> world \<Rightarrow> world" where
  "closed fd w = w\<lparr>fds := fds w - {fd}\<rparr>"

definition wrote :: "string list \<Rightarrow> world \<Rightarrow> world" where
  "wrote s w = w\<lparr>out := out w @ s\<rparr>"

definition printed :: "string \<Rightarrow> world \<Rightarrow> world" where
  "printed s w = w\<lparr>sout := sout w @ [s]\<rparr>"

lemma heap_simps [simp, state_simps]:
  "heap (did c w) = heap w"
  "heap (put a x w) = (heap w)(a \<mapsto> x)"
  "heap (drop_cell a w) = (heap w)(a := None)"
  "heap (new_cell x w) = (heap w)(brk w \<mapsto> x)"
  "heap (opened fd w) = heap w"
  "heap (closed fd w) = heap w"
  "heap (wrote s w) = heap w"
  "heap (printed t w) = heap w"
  by (simp_all add: did_def put_def drop_cell_def new_cell_def opened_def closed_def
      wrote_def printed_def)

lemma brk_simps [simp, state_simps]:
  "brk (did c w) = brk w"
  "brk (put a x w) = brk w"
  "brk (drop_cell a w) = brk w"
  "brk (new_cell x w) = Suc (brk w)"
  "brk (opened fd w) = brk w"
  "brk (closed fd w) = brk w"
  "brk (wrote s w) = brk w"
  "brk (printed t w) = brk w"
  by (simp_all add: did_def put_def drop_cell_def new_cell_def opened_def closed_def
      wrote_def printed_def)

lemma hist_simps [simp, state_simps]:
  "hist (did c w) = c # hist w"
  "hist (put a x w) = hist w"
  "hist (drop_cell a w) = hist w"
  "hist (new_cell x w) = hist w"
  "hist (opened fd w) = hist w"
  "hist (closed fd w) = hist w"
  "hist (wrote s w) = hist w"
  "hist (printed t w) = hist w"
  by (simp_all add: did_def put_def drop_cell_def new_cell_def opened_def closed_def
      wrote_def printed_def)

lemma fds_simps [simp, state_simps]:
  "fds (did c w) = fds w"
  "fds (put a x w) = fds w"
  "fds (drop_cell a w) = fds w"
  "fds (new_cell x w) = fds w"
  "fds (opened fd w) = insert fd (fds w)"
  "fds (closed fd w) = fds w - {fd}"
  "fds (wrote s w) = fds w"
  "fds (printed t w) = fds w"
  by (simp_all add: did_def put_def drop_cell_def new_cell_def opened_def closed_def
      wrote_def printed_def)

lemma out_simps [simp, state_simps]:
  "out (did c w) = out w"
  "out (put a x w) = out w"
  "out (drop_cell a w) = out w"
  "out (new_cell x w) = out w"
  "out (opened fd w) = out w"
  "out (closed fd w) = out w"
  "out (wrote s w) = out w @ s"
  "out (printed t w) = out w"
  by (simp_all add: did_def put_def drop_cell_def new_cell_def opened_def closed_def
      wrote_def printed_def)

lemma sout_simps [simp, state_simps]:
  "sout (did c w) = sout w"
  "sout (put a x w) = sout w"
  "sout (drop_cell a w) = sout w"
  "sout (new_cell x w) = sout w"
  "sout (opened fd w) = sout w"
  "sout (closed fd w) = sout w"
  "sout (wrote s w) = sout w"
  "sout (printed t w) = sout w @ [t]"
  by (simp_all add: did_def put_def drop_cell_def new_cell_def opened_def closed_def
      wrote_def printed_def)

lemma dlog_simps [simp, state_simps]:
  "dlog (did c w) = dlog w"
  "dlog (put a x w) = dlog w"
  "dlog (drop_cell a w) = dlog w"
  "dlog (new_cell x w) = dlog w"
  "dlog (opened fd w) = dlog w"
  "dlog (closed fd w) = dlog w"
  "dlog (wrote s w) = dlog w"
  "dlog (printed t w) = dlog w"
  by (simp_all add: did_def put_def drop_cell_def new_cell_def opened_def closed_def
      wrote_def printed_def)

definition drop_cells :: "ptr list \<Rightarrow> world \<Rightarrow> world" where
  "drop_cells xs w = fold drop_cell xs w"

lemma drop_cells_simps [simp, state_simps]:
  "heap (drop_cells xs w) = (\<lambda>a. if a \<in> set xs then None else heap w a)"
  "brk (drop_cells xs w) = brk w"
  "hist (drop_cells xs w) = hist w"
  "fds (drop_cells xs w) = fds w"
  "out (drop_cells xs w) = out w"
  "sout (drop_cells xs w) = sout w"
  "dlog (drop_cells xs w) = dlog w"
  unfolding drop_cells_def by (induction xs arbitrary: w) (simp_all add: fun_eq_iff)

section \<open>Calls\<close>

definition ext_int :: "env \<Rightarrow> call \<Rightarrow> world \<Rightarrow> int run" where
  "ext_int E c w = Some (e_int E w c, did c w)"

definition ext_do :: "call \<Rightarrow> world \<Rightarrow> world option" where
  "ext_do c w = Some (did c w)"

definition ext_ptr :: "env \<Rightarrow> call \<Rightarrow> world \<Rightarrow> cptr run" where
  "ext_ptr E c w = Some (e_ptr E w c, did c w)"

text \<open>A call that returns a new block or null.\<close>

definition ext_new :: "env \<Rightarrow> call \<Rightarrow> cell \<Rightarrow> world \<Rightarrow> cptr run" where
  "ext_new E c x w =
     (if e_ok E w c then Some (Some (brk w), new_cell x (did c w)) else Some (None, did c w))"

text \<open>A call that returns a code and, with code 0, stores a new block through a
  pointer to a variable that is null before.\<close>

definition ext_new_st :: "env \<Rightarrow> call \<Rightarrow> cell \<Rightarrow> world \<Rightarrow> (int \<times> cptr) run" where
  "ext_new_st E c x w =
     (if e_int E w c = 0 then Some ((e_int E w c, Some (brk w)), new_cell x (did c w))
      else Some ((e_int E w c, None), did c w))"

definition malloc :: "env \<Rightarrow> blk \<Rightarrow> world \<Rightarrow> cptr run" where
  "malloc E b w = ext_new E (Libc (L_malloc b)) (C_raw b) w"

definition cfree :: "cptr \<Rightarrow> world \<Rightarrow> world option" where
  "cfree p w =
     (case p of
        None \<Rightarrow> Some (did (Libc (L_free p)) w)
      | Some a \<Rightarrow> (if heap w a = None then None
                   else Some (drop_cell a (did (Libc (L_free p)) w))))"

text \<open>\<^verbatim>\<open>socket\<close> answers -1 or a descriptor that is open from then on.\<close>

definition sys_socket :: "env \<Rightarrow> int \<Rightarrow> world \<Rightarrow> int run" where
  "sys_socket E ty w =
     (let c = Libc (L_socket ty); fd = e_int E w c
      in if fd < 0 then Some (- 1, did c w) else Some (fd, opened fd (did c w)))"

definition sys_close :: "int \<Rightarrow> world \<Rightarrow> world option" where
  "sys_close fd w = Some (closed fd (did (Libc (L_close fd)) w))"

text \<open>Releasing a library object through the library: the argument has to be live.\<close>

definition lib_free :: "(cell \<Rightarrow> bool) \<Rightarrow> call \<Rightarrow> cptr \<Rightarrow> world \<Rightarrow> world option" where
  "lib_free is c p w =
     (case p of
        None \<Rightarrow> None
      | Some a \<Rightarrow> (case heap w a of
                     None \<Rightarrow> None
                   | Some x \<Rightarrow> if is x then Some (drop_cell a (did c w)) else None))"

definition is_event :: "cell \<Rightarrow> bool" where
  "is_event x = (case x of C_event e \<Rightarrow> True | _ \<Rightarrow> False)"

definition live_event :: "cptr \<Rightarrow> world \<Rightarrow> bool" where
  "live_event p w = (case p of None \<Rightarrow> False
     | Some a \<Rightarrow> (case heap w a of None \<Rightarrow> False | Some x \<Rightarrow> is_event x))"

text \<open>libevent's functions on an event want one that \<^verbatim>\<open>event_new\<close> returned and that
  was not freed; on anything else the behaviour is undefined.\<close>

definition ev_new :: "env \<Rightarrow> event_s \<Rightarrow> world \<Rightarrow> cptr run" where
  "ev_new E e w =
     ext_new E (Lev (Ev_new (ev_base e) (ev_fd e) (ev_flags e) (ev_fn e) (ev_arg e))) (C_event e) w"

definition ev_priority_set :: "env \<Rightarrow> cptr \<Rightarrow> int \<Rightarrow> world \<Rightarrow> int run" where
  "ev_priority_set E p n w = (if live_event p w then ext_int E (Lev (Ev_priority_set p n)) w else None)"

definition ev_add :: "env \<Rightarrow> cptr \<Rightarrow> world \<Rightarrow> int run" where
  "ev_add E p w = (if live_event p w then ext_int E (Lev (Ev_add p)) w else None)"

definition ev_del :: "env \<Rightarrow> cptr \<Rightarrow> world \<Rightarrow> int run" where
  "ev_del E p w = (if live_event p w then ext_int E (Lev (Ev_del p)) w else None)"

definition ev_active :: "cptr \<Rightarrow> u16 \<Rightarrow> world \<Rightarrow> world option" where
  "ev_active p what w = (if live_event p w then ext_do (Lev (Ev_active p what)) w else None)"

definition ev_free :: "cptr \<Rightarrow> world \<Rightarrow> world option" where
  "ev_free p w = lib_free is_event (Lev (Ev_free p)) p w"

text \<open>libevent's flags.\<close>

definition EV_READ :: u16 where "EV_READ = 0x02"
definition EV_SIGNAL :: u16 where "EV_SIGNAL = 0x08"
definition EV_PERSIST :: u16 where "EV_PERSIST = 0x10"

lemma is_event_iff: "is_event x \<longleftrightarrow> (\<exists>e. x = C_event e)"
  by (cases x) (simp_all add: is_event_def)

lemma live_event_iff: "live_event p w \<longleftrightarrow> (\<exists>a e. p = Some a \<and> heap w a = Some (C_event e))"
  by (auto simp: live_event_def is_event_iff split: option.splits)

lemma live_event_simps [simp, state_simps]:
  "\<not> live_event None w"
  "live_event p (did c w) = live_event p w"
  "live_event p (opened fd w) = live_event p w"
  "live_event p (closed fd w) = live_event p w"
  "live_event p (wrote s w) = live_event p w"
  by (simp_all add: live_event_iff)

lemma live_event_new [simp]: "live_event (Some (brk w)) (new_cell (C_event e) w)"
  by (simp add: live_event_iff)

lemma live_event_put:
  assumes "heap w a = Some x" and "\<not> is_event x" and "\<not> is_event c"
  shows "live_event p (put a c w) = live_event p w"
  using assms by (cases p) (auto simp: live_event_def)

lemma ev_free_eval:
  "ev_free p w = (if live_event p w then Some (drop_cell (the p) (did (Lev (Ev_free p)) w)) else None)"
  by (cases p) (auto simp: ev_free_def lib_free_def live_event_def split: option.splits)

lemma malloc_eval [step_simps]:
  "malloc E b w = (if e_ok E w (Libc (L_malloc b))
     then Some (Some (brk w), new_cell (C_raw b) (did (Libc (L_malloc b)) w))
     else Some (None, did (Libc (L_malloc b)) w))"
  by (simp add: malloc_def ext_new_def)

lemma cfree_live: "heap w a = Some x \<Longrightarrow> cfree (Some a) w = Some (drop_cell a (did (Libc (L_free (Some a))) w))"
  by (simp add: cfree_def)

lemma call_simps [step_simps]:
  "ext_int E c w = Some (e_int E w c, did c w)"
  "ext_do c w = Some (did c w)"
  "ext_ptr E c w = Some (e_ptr E w c, did c w)"
  by (simp_all add: ext_int_def ext_do_def ext_ptr_def)

text \<open>
  The same facts as destruction rules: what a successful step says about the state
  after it. They name the answer of the outside instead of putting its term in.
\<close>

lemma ext_intD: "ext_int E c w = Some (r, w') \<Longrightarrow> w' = did c w"
  by (simp add: ext_int_def)

lemma ext_doD: "ext_do c w = Some w' \<Longrightarrow> w' = did c w"
  by (simp add: ext_do_def)

lemma ext_ptrD: "ext_ptr E c w = Some (r, w') \<Longrightarrow> w' = did c w"
  by (simp add: ext_ptr_def)

lemma ext_newD:
  "ext_new E c x w = Some (None, w') \<Longrightarrow> w' = did c w"
  "ext_new E c x w = Some (Some a, w') \<Longrightarrow> a = brk w \<and> w' = new_cell x (did c w)"
  by (auto simp: ext_new_def split: if_splits)

lemma ext_new_stD:
  "ext_new_st E c x w = Some ((r, p), w') \<Longrightarrow>
     (r = 0 \<and> p = Some (brk w) \<and> w' = new_cell x (did c w)) \<or> (r \<noteq> 0 \<and> p = None \<and> w' = did c w)"
  by (auto simp: ext_new_st_def split: if_splits)

lemma mallocD:
  "malloc E b w = Some (None, w') \<Longrightarrow> w' = did (Libc (L_malloc b)) w"
  "malloc E b w = Some (Some a, w') \<Longrightarrow> a = brk w \<and> w' = new_cell (C_raw b) (did (Libc (L_malloc b)) w)"
  by (auto simp: malloc_eval split: if_splits)

lemma cfreeD:
  "cfree (Some a) w = Some w' \<Longrightarrow> heap w a \<noteq> None \<and> w' = drop_cell a (did (Libc (L_free (Some a))) w)"
  by (auto simp: cfree_def split: if_splits)

lemma sys_socketD:
  "sys_socket E ty w = Some (fd, w') \<Longrightarrow>
     (fd = - 1 \<and> w' = did (Libc (L_socket ty)) w) \<or>
     (0 \<le> fd \<and> w' = opened fd (did (Libc (L_socket ty)) w))"
  by (auto simp: sys_socket_def Let_def split: if_splits)

lemma sys_closeD: "sys_close fd w = Some w' \<Longrightarrow> w' = closed fd (did (Libc (L_close fd)) w)"
  by (simp add: sys_close_def)

lemma ev_newD:
  "ev_new E e w = Some (None, w') \<Longrightarrow>
     w' = did (Lev (Ev_new (ev_base e) (ev_fd e) (ev_flags e) (ev_fn e) (ev_arg e))) w"
  "ev_new E e w = Some (Some a, w') \<Longrightarrow> a = brk w \<and>
     w' = new_cell (C_event e) (did (Lev (Ev_new (ev_base e) (ev_fd e) (ev_flags e) (ev_fn e) (ev_arg e))) w)"
  by (auto simp: ev_new_def dest: ext_newD)

lemma ev_opD:
  "ev_priority_set E p n w = Some (r, w') \<Longrightarrow> live_event p w \<and> w' = did (Lev (Ev_priority_set p n)) w"
  "ev_add E p w = Some (r, w') \<Longrightarrow> live_event p w \<and> w' = did (Lev (Ev_add p)) w"
  "ev_del E p w = Some (r, w') \<Longrightarrow> live_event p w \<and> w' = did (Lev (Ev_del p)) w"
  "ev_active p what w = Some w' \<Longrightarrow> live_event p w \<and> w' = did (Lev (Ev_active p what)) w"
  by (auto simp: ev_priority_set_def ev_add_def ev_del_def ev_active_def call_simps split: if_splits)

lemma ev_freeD:
  "ev_free p w = Some w' \<Longrightarrow> live_event p w \<and> w' = drop_cell (the p) (did (Lev (Ev_free p)) w)"
  by (simp add: ev_free_eval split: if_splits)

text \<open>Calls that always return.\<close>

lemma calls_defined [simp]:
  "ext_int E c w \<noteq> None" "ext_do c w \<noteq> None" "ext_ptr E c w \<noteq> None" "ext_new E c x w \<noteq> None"
  "ext_new_st E c x w \<noteq> None" "malloc E b w \<noteq> None" "ev_new E e w \<noteq> None"
  "sys_socket E ty w \<noteq> None" "sys_close fd w \<noteq> None"
  by (simp_all add: ext_int_def ext_do_def ext_ptr_def ext_new_def ext_new_st_def malloc_def ev_new_def
      sys_socket_def sys_close_def Let_def)

lemmas run_dests = ext_intD ext_doD ext_ptrD mallocD cfreeD sys_closeD ev_newD ev_opD ev_freeD

section \<open>Typed access to the heap\<close>

definition load :: "(cell \<Rightarrow> 'a option) \<Rightarrow> cptr \<Rightarrow> world \<Rightarrow> 'a option" where
  "load prj p w = (case p of None \<Rightarrow> None
     | Some a \<Rightarrow> (case heap w a of None \<Rightarrow> None | Some x \<Rightarrow> prj x))"

definition as_log :: "cell \<Rightarrow> es_log_s option" where
  "as_log c = (case c of C_log x \<Rightarrow> Some x | _ \<Rightarrow> None)"

definition as_transport :: "cell \<Rightarrow> es_transport_s option" where
  "as_transport c = (case c of C_transport x \<Rightarrow> Some x | _ \<Rightarrow> None)"

definition as_osip :: "cell \<Rightarrow> es_osip_s option" where
  "as_osip c = (case c of C_osip x \<Rightarrow> Some x | _ \<Rightarrow> None)"

definition as_msg :: "cell \<Rightarrow> es_msg_s option" where
  "as_msg c = (case c of C_msg x \<Rightarrow> Some x | _ \<Rightarrow> None)"

definition as_cli :: "cell \<Rightarrow> es_cli_s option" where
  "as_cli c = (case c of C_cli x \<Rightarrow> Some x | _ \<Rightarrow> None)"

definition as_thd :: "cell \<Rightarrow> es_cli_thd_s option" where
  "as_thd c = (case c of C_thd x \<Rightarrow> Some x | _ \<Rightarrow> None)"

definition as_app :: "cell \<Rightarrow> app_s option" where
  "as_app c = (case c of C_app x \<Rightarrow> Some x | _ \<Rightarrow> None)"

definition as_event :: "cell \<Rightarrow> event_s option" where
  "as_event c = (case c of C_event x \<Rightarrow> Some x | _ \<Rightarrow> None)"

definition as_listener :: "cell \<Rightarrow> listener_s option" where
  "as_listener c = (case c of C_listener x \<Rightarrow> Some x | _ \<Rightarrow> None)"

definition as_evt :: "cell \<Rightarrow> osip_event_s option" where
  "as_evt c = (case c of C_evt x \<Rightarrow> Some x | _ \<Rightarrow> None)"

definition as_sip :: "cell \<Rightarrow> osip_message_s option" where
  "as_sip c = (case c of C_sip x \<Rightarrow> Some x | _ \<Rightarrow> None)"

definition as_tr :: "cell \<Rightarrow> trans_kind option" where
  "as_tr c = (case c of C_tr x \<Rightarrow> Some x | _ \<Rightarrow> None)"

text \<open>
  The contract of a typed view of the heap, which every component uses for its own
  struct: a load reads what the last store through the same address wrote, other
  addresses and other kinds of change do not matter, and nothing is read through a
  null pointer or from a freed block.
\<close>

locale cell_view =
  fixes inj :: "'a \<Rightarrow> cell" and prj :: "cell \<Rightarrow> 'a option"
  assumes prj_inj: "prj (inj x) = Some x"
    and prj_raw: "prj (C_raw b) = None"
    and inj_prj: "prj c = Some x \<Longrightarrow> c = inj x"
begin

lemma load_iff: "load prj p w = Some x \<longleftrightarrow> (\<exists>a. p = Some a \<and> heap w a = Some (inj x))"
  by (auto simp: load_def prj_inj dest: inj_prj split: option.splits)

lemma load_heap: "heap w a = Some (inj x) \<Longrightarrow> load prj (Some a) w = Some x"
  by (simp add: load_iff)

lemma load_put_same: "load prj (Some a) (put a (inj x) w) = Some x"
  by (simp add: load_iff)

lemma load_put_other: "p \<noteq> Some a \<Longrightarrow> load prj p (put a c w) = load prj p w"
  by (cases p) (auto simp: load_def)

lemma load_dropped: "load prj (Some a) (drop_cell a w) = None"
  by (simp add: load_def)

lemma load_raw: "load prj (Some (brk w)) (new_cell (C_raw b) w) = None"
  by (simp add: load_def prj_raw)

end

lemma load_simps [simp, state_simps]:
  "load prj None w = None"
  "load prj p (did c w) = load prj p w"
  "load prj p (opened fd w) = load prj p w"
  "load prj p (closed fd w) = load prj p w"
  "load prj p (wrote s w) = load prj p w"
  "load prj p (printed t w) = load prj p w"
  by (cases p; simp add: load_def)+

interpretation log_cell: cell_view C_log as_log
  by unfold_locales (auto simp: as_log_def split: cell.splits)

interpretation transport_cell: cell_view C_transport as_transport
  by unfold_locales (auto simp: as_transport_def split: cell.splits)

interpretation osip_cell: cell_view C_osip as_osip
  by unfold_locales (auto simp: as_osip_def split: cell.splits)

interpretation msg_cell: cell_view C_msg as_msg
  by unfold_locales (auto simp: as_msg_def split: cell.splits)

interpretation cli_cell: cell_view C_cli as_cli
  by unfold_locales (auto simp: as_cli_def split: cell.splits)

interpretation thd_cell: cell_view C_thd as_thd
  by unfold_locales (auto simp: as_thd_def split: cell.splits)

interpretation app_cell: cell_view C_app as_app
  by unfold_locales (auto simp: as_app_def split: cell.splits)

interpretation event_cell: cell_view C_event as_event
  by unfold_locales (auto simp: as_event_def split: cell.splits)

interpretation listener_cell: cell_view C_listener as_listener
  by unfold_locales (auto simp: as_listener_def split: cell.splits)

interpretation evt_cell: cell_view C_evt as_evt
  by unfold_locales (auto simp: as_evt_def split: cell.splits)

interpretation sip_cell: cell_view C_sip as_sip
  by unfold_locales (auto simp: as_sip_def split: cell.splits)

interpretation tr_cell: cell_view C_tr as_tr
  by unfold_locales (auto simp: as_tr_def split: cell.splits)

section \<open>The allocator's invariant\<close>

definition heap_ok :: "world \<Rightarrow> bool" where
  "heap_ok w \<longleftrightarrow> (\<forall>a. brk w \<le> a \<longrightarrow> heap w a = None)"

lemma heap_ok_keep [keep_rules]:
  "heap_ok w \<Longrightarrow> heap_ok (did c w)"
  "heap_ok w \<Longrightarrow> heap_ok (drop_cell a w)"
  "heap_ok w \<Longrightarrow> heap_ok (drop_cells xs w)"
  "heap_ok w \<Longrightarrow> heap_ok (new_cell x w)"
  "heap_ok w \<Longrightarrow> heap_ok (opened fd w)"
  "heap_ok w \<Longrightarrow> heap_ok (closed fd w)"
  "heap_ok w \<Longrightarrow> heap_ok (wrote s w)"
  "heap_ok w \<Longrightarrow> heap_ok (printed t w)"
  "heap_ok w \<Longrightarrow> a < brk w \<Longrightarrow> heap_ok (put a x w)"
  by (auto simp: heap_ok_def)

lemma heap_ok_live: "heap_ok w \<Longrightarrow> heap w a = Some x \<Longrightarrow> a < brk w"
  by (auto simp: heap_ok_def not_le[symmetric])

lemma heap_ok_fresh: "heap_ok w \<Longrightarrow> heap w (brk w) = None"
  by (simp add: heap_ok_def)

text \<open>Two states that differ only in the text written to \<^verbatim>\<open>stderr\<close>.\<close>

definition same_but_trace :: "world \<Rightarrow> world \<Rightarrow> bool" where
  "same_but_trace w w' \<longleftrightarrow> (\<exists>s. w' = wrote s w)"

lemma wrote_wrote [simp, state_simps]: "wrote t (wrote s w) = wrote (s @ t) w"
  by (simp add: wrote_def)

lemma same_but_trace_refl [simp]: "same_but_trace w w"
  unfolding same_but_trace_def by (rule exI [of _ "[]"]) (simp add: wrote_def)

lemma same_but_trace_wrote [simp]: "same_but_trace w (wrote s w)"
  by (auto simp: same_but_trace_def)

lemma same_but_trace_trans: "same_but_trace u v \<Longrightarrow> same_but_trace v w \<Longrightarrow> same_but_trace u w"
  by (auto simp: same_but_trace_def)

section \<open>What the program relies on in an OSip list\<close>

text \<open>
  The documented behaviour of \<^verbatim>\<open>osip_list_t\<close>, as far as the program uses it: position 0
  is the front, -1 the end, \<^verbatim>\<open>osip_list_eol\<close> is true past the last element, a failed
  \<^verbatim>\<open>osip_list_add\<close> (a negative answer) leaves the list as it is,
  and \<^verbatim>\<open>osip_list_special_free\<close> applies its function to every element, from the front on.
\<close>

definition osip_list_laws :: "env \<Rightarrow> bool" where
  "osip_list_laws E \<longleftrightarrow>
     (\<forall>xs. l_size E xs = int (length xs)) \<and>
     (\<forall>xs i. l_eol E xs (int i) \<longleftrightarrow> length xs \<le> i) \<and>
     (\<forall>xs i. i < length xs \<longrightarrow> l_get E xs (int i) = Some (xs ! i)) \<and>
     (\<forall>xs. l_remove E xs 0 = tl xs) \<and> (\<forall>xs. l_drain E xs = xs) \<and>
     (\<forall>w xs a. snd (l_add E w xs (Some a) 0) =
        (if fst (l_add E w xs (Some a) 0) < 0 then xs else a # xs)) \<and>
     (\<forall>w xs a. snd (l_add E w xs (Some a) (- 1)) =
        (if fst (l_add E w xs (Some a) (- 1)) < 0 then xs else xs @ [a]))"

lemma osip_list_lawsD:
  assumes "osip_list_laws E"
  shows "l_size E xs = int (length xs)"
    and "l_eol E xs (int i) \<longleftrightarrow> length xs \<le> i"
    and "i < length xs \<Longrightarrow> l_get E xs (int i) = Some (xs ! i)"
    and "l_remove E xs 0 = tl xs"
    and "snd (l_add E w xs (Some a) 0) = (if fst (l_add E w xs (Some a) 0) < 0 then xs else a # xs)"
    and "snd (l_add E w xs (Some a) (- 1)) = (if fst (l_add E w xs (Some a) (- 1)) < 0 then xs else xs @ [a])"
    and "l_drain E xs = xs"
  using assms unfolding osip_list_laws_def by blast+

lemma l_add_frontD:
  "osip_list_laws E \<Longrightarrow> l_add E w xs (Some a) 0 = (n, ys) \<Longrightarrow> ys = (if n < 0 then xs else a # xs)"
  by (metis osip_list_lawsD(5) fst_conv snd_conv)

lemma l_add_endD:
  "osip_list_laws E \<Longrightarrow> l_add E w xs (Some a) (- 1) = (n, ys) \<Longrightarrow> ys = (if n < 0 then xs else xs @ [a])"
  by (metis osip_list_lawsD(6) fst_conv snd_conv)

section \<open>A concrete environment\<close>

text \<open>
  An environment in which every call succeeds, for the theorems that show that the
  hypotheses of a property can hold. Its lists are HOL lists. The witnesses change
  single answers of it.
\<close>

definition plain_int :: "world \<Rightarrow> call \<Rightarrow> int" where
  "plain_int w c = (case c of
       Libc (L_socket ty) \<Rightarrow> (if ty = 2 then 3 else 4)
     | Lev (Evl_new_bind b f a fl n s) \<Rightarrow> 5
     | _ \<Rightarrow> 0)"

definition plain_env :: env where
  "plain_env = \<lparr>e_int = plain_int, e_ok = (\<lambda>w c. True), e_ptr = (\<lambda>w c. None),
     e_parse = (\<lambda>w c. None), e_bytes = (\<lambda>w c. []), e_stack = (\<lambda>w n. 0),
     e_reason = (\<lambda>c. Some ''OK''), e_test = (\<lambda>w t. True), e_text = (\<lambda>f l. ''text''),
     e_inet_addr = (\<lambda>s. 0x7F000001), l_size = (\<lambda>xs. int (length xs)),
     l_eol = (\<lambda>xs i. int (length xs) \<le> i),
     l_get = (\<lambda>xs i. if 0 \<le> i \<and> i < int (length xs) then Some (xs ! nat i) else None),
     l_remove = (\<lambda>xs i. if i = 0 then tl xs else xs),
     l_add = (\<lambda>w xs p i. case p of None \<Rightarrow> (- 1, xs)
        | Some a \<Rightarrow> if i = 0 then (0, a # xs) else if i = - 1 then (0, xs @ [a]) else (- 1, xs)),
     l_drain = (\<lambda>xs. xs), e_orig = (\<lambda>w t. None), e_freed = (\<lambda>w a. False), e_callbacks = (\<lambda>w c. 0),
     e_callback = (\<lambda>w. Cb_kill 0 None), e_fire = (\<lambda>w. Run_thread 0),
     k_kill = 4, k_transport_error = 4, k_message = 37\<rparr>"

lemma plain_env_sel [simp]:
  "e_int plain_env = plain_int"
  "e_ok plain_env = (\<lambda>w c. True)"
  "e_ptr plain_env = (\<lambda>w c. None)"
  "e_parse plain_env = (\<lambda>w c. None)"
  "e_bytes plain_env = (\<lambda>w c. [])"
  "e_test plain_env = (\<lambda>w t. True)"
  "e_callbacks plain_env = (\<lambda>w c. 0)"
  "e_freed plain_env = (\<lambda>w a. False)"
  by (simp_all add: plain_env_def)

lemma plain_env_lists: "osip_list_laws plain_env"
  by (auto simp: osip_list_laws_def plain_env_def)

end
