(* ===== verification/Es_Log.thy ===== *)
theory Es_Log
  imports Esip_State
begin

text \<open>
  The logger, \<^verbatim>\<open>src/eslog.c\<close>: handlers with a threshold, and the function behind the
  \<^verbatim>\<open>ESIP_TRACE\<close> macro that every other component calls. A handler is the global
  default one or a block on the heap. The text of a trace after formatting is an
  argument here; \<open>e_text\<close> gives it for the call sites of the program. The lemmas show
  when a trace writes, what it writes, and for which levels it is well defined.
\<close>

section \<open>Levels and texts\<close>

definition ESIP_LOG_EMERG :: u32 where [simp]: "ESIP_LOG_EMERG = 0"
definition ESIP_LOG_ALERT :: u32 where [simp]: "ESIP_LOG_ALERT = 1"
definition ESIP_LOG_CRIT :: u32 where [simp]: "ESIP_LOG_CRIT = 2"
definition ESIP_LOG_ERROR :: u32 where [simp]: "ESIP_LOG_ERROR = 3"
definition ESIP_LOG_WARNING :: u32 where [simp]: "ESIP_LOG_WARNING = 4"
definition ESIP_LOG_NOTICE :: u32 where [simp]: "ESIP_LOG_NOTICE = 5"
definition ESIP_LOG_INFO :: u32 where [simp]: "ESIP_LOG_INFO = 6"
definition ESIP_LOG_DEBUG :: u32 where [simp]: "ESIP_LOG_DEBUG = 7"

definition ES_LOG_COLOR_RED_BEGIN :: string where
  "ES_LOG_COLOR_RED_BEGIN = CHR 0x1B # ''[31m''"
definition ES_LOG_COLOR_YELLOW_BEGIN :: string where
  "ES_LOG_COLOR_YELLOW_BEGIN = CHR 0x1B # ''[33m''"
definition ES_LOG_COLOR_GREEN_BEGIN :: string where
  "ES_LOG_COLOR_GREEN_BEGIN = CHR 0x1B # ''[32m''"
definition ES_LOG_COLOR_END :: string where
  "ES_LOG_COLOR_END = CHR 0x1B # ''[;m''"

definition ES_LOG_DEFAULT_MODULE :: string where
  "ES_LOG_DEFAULT_MODULE = ''ESip''"

definition log_level_str :: "string list" where
  "log_level_str = [''EMERGENCY'', ''ALERT'', ''CRITIC'', ''ERROR'', ''WARNING'', ''NOTICE'', ''INFO'', ''DEBUG'']"

lemma length_log_level_str [simp]: "length log_level_str = 8"
  by (simp add: log_level_str_def)

section \<open>Handlers\<close>

datatype log_ref = Static | Heap ptr    \<comment> \<open>\<^verbatim>\<open>&es_log_default_handler\<close>, or a block of \<^verbatim>\<open>es_log_init\<close>\<close>

definition es_log_default_handler :: es_log_s where
  "es_log_default_handler =
     \<lparr>l_module = ES_LOG_DEFAULT_MODULE, l_level = ESIP_LOG_DEBUG, l_flags = 0, l_file = None,
      l_cb = None, l_cb_arg = None\<rparr>"

definition deref_log :: "log_ref \<Rightarrow> world \<Rightarrow> es_log_s option" where
  "deref_log h w = (case h of Static \<Rightarrow> Some (dlog w) | Heap a \<Rightarrow> load as_log (Some a) w)"

definition assign_log :: "log_ref \<Rightarrow> es_log_s \<Rightarrow> world \<Rightarrow> world" where
  "assign_log h l w = (case h of Static \<Rightarrow> w\<lparr>dlog := l\<rparr> | Heap a \<Rightarrow> put a (C_log l) w)"

section \<open>Printing\<close>

definition level_color :: "u32 \<Rightarrow> string" where
  "level_color level =
     (if level = ESIP_LOG_EMERG \<or> level = ESIP_LOG_ALERT \<or> level = ESIP_LOG_CRIT
         \<or> level = ESIP_LOG_ERROR then ES_LOG_COLOR_RED_BEGIN
      else if level = ESIP_LOG_WARNING then ES_LOG_COLOR_YELLOW_BEGIN
      else if level = ESIP_LOG_NOTICE then ES_LOG_COLOR_GREEN_BEGIN
      else ES_LOG_COLOR_END)"

text \<open>The texts written for one trace, one per call of \<^verbatim>\<open>fprintf\<close>.\<close>

definition log_text :: "es_log_s \<Rightarrow> string \<Rightarrow> int \<Rightarrow> u32 \<Rightarrow> string \<Rightarrow> string list" where
  "log_text l func line level msg =
     [level_color level,
      ''['' @ l_module l @ '']['' @ log_level_str ! unat level @ '']'' @ [CHR 0x09]]
     @ (if level = ESIP_LOG_DEBUG then [func @ ''('' @ dec_int line @ ''): ''] else [])
     @ [msg, ES_LOG_COLOR_END @ [CHR 0x0D, CHR 0x0A]]"

text \<open>
  The part of \<^verbatim>\<open>es_log_vprintf\<close> after its test for null. \<^verbatim>\<open>log_level_str[level]\<close> is a
  read of an array of eight elements.
\<close>

definition es_log_print :: "log_ref \<Rightarrow> string \<Rightarrow> int \<Rightarrow> u32 \<Rightarrow> string \<Rightarrow> world \<Rightarrow> world option" where
  "es_log_print h func line level msg w = do {
     l \<leftarrow> deref_log h w;
     if level > l_level l then Some w
     else if unat level < length log_level_str then Some (wrote (log_text l func line level msg) w)
     else None }"

definition es_log_trace ::
  "log_ref option \<Rightarrow> string \<Rightarrow> int \<Rightarrow> u32 \<Rightarrow> string \<Rightarrow> world \<Rightarrow> world option" where
  "es_log_trace handler func line level msg w =
     es_log_print (case handler of None \<Rightarrow> Static | Some h \<Rightarrow> h) func line level msg w"

definition esip_trace :: "env \<Rightarrow> u32 \<Rightarrow> string \<Rightarrow> nat \<Rightarrow> world \<Rightarrow> world option" where
  "esip_trace E level func line w = es_log_trace None func (int line) level (e_text E func line) w"

definition es_log_vprintf ::
  "env \<Rightarrow> log_ref option \<Rightarrow> string \<Rightarrow> int \<Rightarrow> u32 \<Rightarrow> string \<Rightarrow> world \<Rightarrow> world option" where
  "es_log_vprintf E handler func line level msg w =
     (case handler of
        None \<Rightarrow> esip_trace E ESIP_LOG_ERROR ''es_log_vprintf'' 146 w
      | Some h \<Rightarrow> es_log_print h func line level msg w)"

section \<open>Operations on handlers\<close>

text \<open>The result of an operation with an output pointer is the pair of its status
  and what it stored there, \<open>None\<close> when it stored nothing.\<close>

definition es_log_init :: "env \<Rightarrow> world \<Rightarrow> (es_status \<times> log_ref option) run" where
  "es_log_init E w = do {
     (h, w) \<leftarrow> malloc E B_log w;
     case h of
       None \<Rightarrow> do {
         w \<leftarrow> esip_trace E ESIP_LOG_ERROR ''es_log_init'' 84 w;
         Some ((ES_ERROR_OUTOFRESOURCES, None), w) }
     | Some a \<Rightarrow>
         Some ((ES_OK, Some (Heap a)),
               put a (C_log \<lparr>l_module = ES_LOG_DEFAULT_MODULE, l_level = ESIP_LOG_DEBUG,
                 l_flags = 0, l_file = None, l_cb = None, l_cb_arg = None\<rparr>) w) }"

definition es_log_destroy :: "env \<Rightarrow> log_ref option \<Rightarrow> world \<Rightarrow> es_status run" where
  "es_log_destroy E handler w =
     (case handler of
        None \<Rightarrow> do {
          w \<leftarrow> esip_trace E ESIP_LOG_ERROR ''es_log_destroy'' 100 w;
          Some (ES_ERROR_NULLPTR, w) }
      | Some Static \<Rightarrow> None
      | Some (Heap a) \<Rightarrow> do {
          w \<leftarrow> cfree (Some a) w;
          Some (ES_OK, w) })"

definition es_log_set_loglevel :: "env \<Rightarrow> log_ref option \<Rightarrow> u32 \<Rightarrow> world \<Rightarrow> es_status run" where
  "es_log_set_loglevel E handler level w =
     (case handler of
        None \<Rightarrow> do {
          w \<leftarrow> esip_trace E ESIP_LOG_ERROR ''es_log_set_loglevel'' 111 w;
          Some (ES_ERROR_NULLPTR, w) }
      | Some h \<Rightarrow> do {
          l \<leftarrow> deref_log h w;
          Some (ES_OK, assign_log h (l\<lparr>l_level := level\<rparr>) w) })"

definition es_log_get_loglevel :: "env \<Rightarrow> log_ref option \<Rightarrow> world \<Rightarrow> (es_status \<times> u32 option) run" where
  "es_log_get_loglevel E handler w =
     (case handler of
        None \<Rightarrow> do {
          w \<leftarrow> esip_trace E ESIP_LOG_ERROR ''es_log_get_loglevel'' 122 w;
          Some ((ES_ERROR_NULLPTR, None), w) }
      | Some h \<Rightarrow> do {
          l \<leftarrow> deref_log h w;
          Some ((ES_OK, Some (l_level l)), w) })"

definition es_log_set_print_cb ::
  "env \<Rightarrow> log_ref option \<Rightarrow> fn option \<Rightarrow> cptr \<Rightarrow> world \<Rightarrow> es_status run" where
  "es_log_set_print_cb E handler cb arg w =
     (case handler of
        None \<Rightarrow> do {
          w \<leftarrow> esip_trace E ESIP_LOG_ERROR ''es_log_set_print_cb'' 133 w;
          Some (ES_ERROR_NULLPTR, w) }
      | Some h \<Rightarrow> do {
          l \<leftarrow> deref_log h w;
          Some (ES_OK, assign_log h (l\<lparr>l_cb := cb, l_cb_arg := arg\<rparr>) w) })"

text \<open>The per-level entry points only trace that they are not implemented.\<close>

definition es_log_nop :: "env \<Rightarrow> log_ref option \<Rightarrow> string \<Rightarrow> world \<Rightarrow> world option" where
  "es_log_nop E h fmt w = esip_trace E ESIP_LOG_ERROR ''es_log_nop'' 201 w"
definition es_log_emerg :: "env \<Rightarrow> log_ref option \<Rightarrow> string \<Rightarrow> world \<Rightarrow> world option" where
  "es_log_emerg E h fmt w = esip_trace E ESIP_LOG_ERROR ''es_log_emerg'' 206 w"
definition es_log_alert :: "env \<Rightarrow> log_ref option \<Rightarrow> string \<Rightarrow> world \<Rightarrow> world option" where
  "es_log_alert E h fmt w = esip_trace E ESIP_LOG_ERROR ''es_log_alert'' 211 w"
definition es_log_crit :: "env \<Rightarrow> log_ref option \<Rightarrow> string \<Rightarrow> world \<Rightarrow> world option" where
  "es_log_crit E h fmt w = esip_trace E ESIP_LOG_ERROR ''es_log_crit'' 216 w"
definition es_log_error :: "env \<Rightarrow> log_ref option \<Rightarrow> string \<Rightarrow> world \<Rightarrow> world option" where
  "es_log_error E h fmt w = esip_trace E ESIP_LOG_ERROR ''es_log_error'' 221 w"
definition es_log_warning :: "env \<Rightarrow> log_ref option \<Rightarrow> string \<Rightarrow> world \<Rightarrow> world option" where
  "es_log_warning E h fmt w = esip_trace E ESIP_LOG_ERROR ''es_log_warning'' 226 w"
definition es_log_notice :: "env \<Rightarrow> log_ref option \<Rightarrow> string \<Rightarrow> world \<Rightarrow> world option" where
  "es_log_notice E h fmt w = esip_trace E ESIP_LOG_ERROR ''es_log_notice'' 231 w"
definition es_log_info :: "env \<Rightarrow> log_ref option \<Rightarrow> string \<Rightarrow> world \<Rightarrow> world option" where
  "es_log_info E h fmt w = esip_trace E ESIP_LOG_ERROR ''es_log_info'' 236 w"
definition es_log_debug :: "env \<Rightarrow> log_ref option \<Rightarrow> string \<Rightarrow> world \<Rightarrow> world option" where
  "es_log_debug E h fmt w = esip_trace E ESIP_LOG_ERROR ''es_log_debug'' 241 w"

section \<open>Traces of the components\<close>

text \<open>What a trace through the default handler appends to \<^verbatim>\<open>stderr\<close>.\<close>

definition trace_text :: "env \<Rightarrow> world \<Rightarrow> u32 \<Rightarrow> string \<Rightarrow> nat \<Rightarrow> string list" where
  "trace_text E w level func line =
     (if level > l_level (dlog w) then []
      else log_text (dlog w) func (int line) level (e_text E func line))"

lemma wrote_Nil [simp]: "wrote [] w = w"
  by (simp add: wrote_def)

lemma esip_trace_eval [step_simps]:
  "unat level < 8 \<Longrightarrow> esip_trace E level func line w = Some (wrote (trace_text E w level func line) w)"
  by (auto simp: esip_trace_def es_log_trace_def es_log_print_def deref_log_def trace_text_def
      not_less[symmetric])

lemma esip_trace_defined [simp]: "unat level < 8 \<Longrightarrow> esip_trace E level func line w \<noteq> None"
  by (simp add: esip_trace_eval)

lemma esip_traceD: "esip_trace E level func line w = Some w' \<Longrightarrow> \<exists>s. w' = wrote s w"
proof -
  assume *: "esip_trace E level func line w = Some w'"
  show ?thesis
  proof (cases "level > l_level (dlog w)")
    case True
    with * have "w' = w" by (simp add: esip_trace_def es_log_trace_def es_log_print_def deref_log_def)
    then have "w' = wrote [] w" by simp
    then show ?thesis ..
  next
    case False
    with * show ?thesis
      by (auto simp: esip_trace_def es_log_trace_def es_log_print_def deref_log_def split: if_splits)
  qed
qed

lemma deref_assign_log [simp]: "deref_log h (assign_log h l w) = Some l"
  by (cases h) (simp_all add: deref_log_def assign_log_def log_cell.load_put_same)

lemma deref_assign_other: "h \<noteq> h' \<Longrightarrow> deref_log h (assign_log h' l w) = deref_log h w"
  by (cases h; cases h') (auto simp: deref_log_def assign_log_def log_cell.load_put_other load_def)

lemma es_log_print_eval:
  assumes "deref_log h w = Some l"
  shows "es_log_print h func line level msg w =
    (if l_level l < level then Some w
     else if unat level < 8 then Some (wrote (log_text l func line level msg) w) else None)"
  using assms by (simp add: es_log_print_def)

lemma log_text_cong:
  "l_module l = l_module l' \<Longrightarrow> log_text l func line level msg = log_text l' func line level msg"
  by (simp add: log_text_def)

text \<open>The process before \<^verbatim>\<open>main\<close>: nothing allocated, the standard descriptors open.\<close>

definition boot :: world where
  "boot = \<lparr>heap = Map.empty, brk = 100, hist = [], fds = {0, 1, 2}, out = [], sout = [],
     dlog = es_log_default_handler\<rparr>"

lemma boot_sel [simp]:
  "heap boot = Map.empty" "brk boot = 100" "hist boot = []" "fds boot = {0, 1, 2}"
  "out boot = []" "dlog boot = es_log_default_handler"
  by (simp_all add: boot_def)

lemma boot_heap_ok: "heap_ok boot"
  by (simp add: heap_ok_def)

section \<open>Properties\<close>

text \<open>A handler's threshold decides what is printed: after \<open>es_log_set_loglevel\<close> has set a
  live handler to \<open>n\<close>, \<open>es_log_get_loglevel\<close> reads \<open>n\<close> back, and a trace of a level from
  0 to 7 prints its text when the level is at most \<open>n\<close> and nothing otherwise.\<close>

theorem log_threshold:
  assumes "deref_log h w = Some l" and "unat level < 8"
  shows "\<exists>w'. es_log_set_loglevel E (Some h) n w = Some (ES_OK, w') \<and>
    es_log_get_loglevel E (Some h) w' = Some ((ES_OK, Some n), w') \<and>
    es_log_trace (Some h) func line level msg w' =
      Some (if level \<le> n then wrote (log_text l func line level msg) w' else w')"
proof -
  let ?l = "l\<lparr>l_level := n\<rparr>" and ?w = "assign_log h (l\<lparr>l_level := n\<rparr>) w"
  have "log_text ?l func line level msg = log_text l func line level msg"
    by (rule log_text_cong) simp
  then show ?thesis
    using assms by (intro exI [of _ ?w])
      (simp add: es_log_set_loglevel_def es_log_get_loglevel_def es_log_trace_def es_log_print_eval
        not_less [symmetric])
qed

theorem log_threshold_witness:
  "\<exists>w'. es_log_set_loglevel plain_env (Some Static) 3 boot = Some (ES_OK, w') \<and>
     es_log_trace (Some Static) ''f'' 7 ESIP_LOG_DEBUG ''msg'' w' = Some w'"
proof -
  have h: "deref_log Static boot = Some es_log_default_handler" "unat ESIP_LOG_DEBUG < 8"
    by (simp_all add: deref_log_def)
  from log_threshold [OF h, of plain_env 3 "''f''" 7 "''msg''"] show ?thesis by auto
qed

text \<open>C31. A trace through a live handler is undefined exactly when its level is at least 8 and
  within the handler's threshold: the threshold is an unchecked \<^verbatim>\<open>uint32_t\<close>, and the level
  is used as an index of the table of eight names.\<close>

theorem log_trace_undefined:
  assumes "deref_log h w = Some l"
  shows "es_log_trace (Some h) func line level msg w = None \<longleftrightarrow> 8 \<le> level \<and> level \<le> l_level l"
proof -
  have "unat level < 8 \<longleftrightarrow> level < 8" by (simp add: word_less_nat_alt)
  then show ?thesis
    using assms by (auto simp: es_log_trace_def es_log_print_eval not_less)
qed

theorem log_trace_undefined_witness:
  "\<exists>w'. es_log_set_loglevel plain_env (Some Static) 9 boot = Some (ES_OK, w') \<and>
     es_log_trace (Some Static) ''f'' 7 8 ''msg'' w' = None"
proof -
  let ?w = "assign_log Static (es_log_default_handler\<lparr>l_level := 9\<rparr>) boot"
  have "deref_log Static ?w = Some (es_log_default_handler\<lparr>l_level := 9\<rparr>)" by simp
  from log_trace_undefined [OF this, of "''f''" 7 8 "''msg''"]
  have "es_log_trace (Some Static) ''f'' 7 8 ''msg'' ?w = None" by simp
  moreover have "es_log_set_loglevel plain_env (Some Static) 9 boot = Some (ES_OK, ?w)"
    by (simp add: es_log_set_loglevel_def deref_log_def)
  ultimately show ?thesis by blast
qed

text \<open>The macro \<^verbatim>\<open>ESIP_TRACE\<close>, with one of the eight levels, always returns and touches
  nothing but the text on \<^verbatim>\<open>stderr\<close>; under the initial default handler it always prints.\<close>

theorem esip_trace_safe:
  assumes "unat level < 8"
  shows "\<exists>w'. esip_trace E level func line w = Some w' \<and> same_but_trace w w' \<and>
    (dlog w = es_log_default_handler \<longrightarrow>
       out w' = out w @ log_text es_log_default_handler func (int line) level (e_text E func line))"
proof -
  have "level \<le> 7" using assms by (simp add: word_le_nat_alt)
  then have "\<not> 7 < level" by simp
  then show ?thesis
    using assms by (simp add: esip_trace_eval trace_text_def es_log_default_handler_def)
qed

theorem esip_trace_safe_witness:
  "\<exists>w'. esip_trace plain_env ESIP_LOG_ERROR ''main'' 148 boot = Some w' \<and> out w' \<noteq> []"
proof -
  have "unat ESIP_LOG_ERROR < 8" by simp
  from esip_trace_safe [OF this, of plain_env "''main''" 148 boot] show ?thesis
    by (auto simp: log_text_def)
qed

text \<open>\<open>es_log_init\<close> gives a handler with the default threshold that is not the global one,
  and \<open>es_log_destroy\<close> gives the memory back: the heap is as it was. Without memory no
  handler is stored.\<close>

theorem log_init_destroy:
  assumes "heap_ok w"
  shows "(\<exists>a w1 w2. es_log_init E w = Some ((ES_OK, Some (Heap a)), w1) \<and>
      deref_log (Heap a) w1 = Some es_log_default_handler \<and>
      es_log_destroy E (Some (Heap a)) w1 = Some (ES_OK, w2) \<and> heap w2 = heap w \<and> dlog w2 = dlog w)
    \<or> (\<exists>w1. es_log_init E w = Some ((ES_ERROR_OUTOFRESOURCES, None), w1) \<and> heap w1 = heap w)"
  using heap_ok_fresh [OF assms]
  by (simp add: es_log_init_def step_simps es_log_destroy_def cfree_def deref_log_def
      log_cell.load_put_same es_log_default_handler_def fun_upd_idem)

theorem log_init_destroy_witness:
  "\<exists>a w1. es_log_init plain_env boot = Some ((ES_OK, Some (Heap a)), w1)"
  using log_init_destroy [OF boot_heap_ok, of plain_env]
  by (auto simp: es_log_init_def step_simps)

text \<open>The function installed with \<open>es_log_set_print_cb\<close> is stored but never consulted:
  whatever is installed, traces of the handler behave as before.\<close>

theorem log_print_cb_unused:
  assumes "deref_log h w = Some l"
    and "es_log_set_print_cb E (Some h) cb arg w = Some (st, w')"
  shows "st = ES_OK \<and> deref_log h w' = Some (l\<lparr>l_cb := cb, l_cb_arg := arg\<rparr>) \<and>
    (\<forall>func line level msg.
       map_option out (es_log_trace (Some h) func line level msg w') =
       map_option out (es_log_trace (Some h) func line level msg w))"
proof -
  let ?l = "l\<lparr>l_cb := cb, l_cb_arg := arg\<rparr>"
  have w': "st = ES_OK" "w' = assign_log h ?l w"
    using assms by (auto simp: es_log_set_print_cb_def)
  have "out w' = out w" by (cases h) (simp_all add: w' assign_log_def)
  moreover have "log_text ?l func line level msg = log_text l func line level msg" for func line level msg
    by (rule log_text_cong) simp
  ultimately show ?thesis
    using assms(1) w' by (simp add: es_log_trace_def es_log_print_eval)
qed

theorem log_print_cb_unused_witness:
  "\<exists>w'. es_log_set_print_cb plain_env (Some Static) (Some (F_user 5)) None boot = Some (ES_OK, w') \<and>
     map_option out (es_log_trace None ''f'' 1 3 ''m'' w') = map_option out (es_log_trace None ''f'' 1 3 ''m'' boot)"
proof -
  have h: "deref_log Static boot = Some es_log_default_handler" by (simp add: deref_log_def)
  obtain w' where run: "es_log_set_print_cb plain_env (Some Static) (Some (F_user 5)) None boot = Some (ES_OK, w')"
    by (simp add: es_log_set_print_cb_def h)
  from log_print_cb_unused [OF h run] have
    "map_option out (es_log_trace (Some Static) ''f'' 1 3 ''m'' w') =
     map_option out (es_log_trace (Some Static) ''f'' 1 3 ''m'' boot)" by blast
  with run show ?thesis by (auto simp: es_log_trace_def)
qed

end
