(* ===== verification/Es_Transport.thy ===== *)
theory Es_Transport
  imports Es_Log
begin

text \<open>
  The transport layer, \<^verbatim>\<open>src/sip/estransport.c\<close>: a UDP socket, the libevent event that
  reads it, and the callbacks of the layer above. Operations take the pointer the C
  function takes and return its status. The read handler \<open>es_transport_ev\<close> takes the
  functions behind the two callback pointers as arguments, since they belong to the
  layer above.
\<close>

section \<open>Constants\<close>

definition ES_TRANSPORT_MAGIC :: u32 where "ES_TRANSPORT_MAGIC = 0x20140921"
definition ES_TRANSPORT_DEFAULT_PORT :: u32 where "ES_TRANSPORT_DEFAULT_PORT = 5060"
definition ES_TRANSPORT_MAX_BUFFER_SIZE :: nat where "ES_TRANSPORT_MAX_BUFFER_SIZE = 2048"

definition AF_INET :: int where "AF_INET = 2"
definition SOCK_STREAM :: int where "SOCK_STREAM = 1"
definition SOCK_DGRAM :: int where "SOCK_DGRAM = 2"
definition INADDR_ANY :: u32 where "INADDR_ANY = 0"

lemma magic_nonzero [simp]: "ES_TRANSPORT_MAGIC \<noteq> 0" "0 \<noteq> ES_TRANSPORT_MAGIC"
  by (simp_all add: ES_TRANSPORT_MAGIC_def)

text \<open>The struct after \<^verbatim>\<open>memset\<close> with zeros.\<close>

definition zero_transport :: es_transport_s where
  "zero_transport = \<lparr>t_magic = 0, udp_socket = 0, evudpsock = None, t_base = None,
     callbacks = \<lparr>event_cb = None, msg_recv_cb = None, user_data = None\<rparr>\<rparr>"

section \<open>Creation and destruction\<close>

definition es_transport_init :: "env \<Rightarrow> cptr \<Rightarrow> world \<Rightarrow> (es_status \<times> cptr) run" where
  "es_transport_init E pBase w =
     (if pBase = None then do {
        w \<leftarrow> esip_trace E ESIP_LOG_ERROR ''es_transport_init'' 78 w;
        Some ((ES_ERROR_NULLPTR, None), w) }
      else do {
        (p, w) \<leftarrow> malloc E B_transport w;
        case p of
          None \<Rightarrow> do {
            w \<leftarrow> esip_trace E ESIP_LOG_ERROR ''es_transport_init'' 84 w;
            Some ((ES_ERROR_OUTOFRESOURCES, None), w) }
        | Some a \<Rightarrow> do {
            let t = zero_transport\<lparr>t_magic := ES_TRANSPORT_MAGIC\<rparr>;
            let w = put a (C_transport t) w;
            (fd, w) \<leftarrow> sys_socket E SOCK_DGRAM w;
            let t = t\<lparr>udp_socket := fd\<rparr>;
            let w = put a (C_transport t) w;
            if fd = - 1 then do {
              w \<leftarrow> esip_trace E ESIP_LOG_ERROR ''es_transport_init'' 95 w;
              w \<leftarrow> cfree (Some a) w;
              Some ((ES_ERROR_NETWORK_PROBLEM, None), w) }
            else do {
              let w = put a (C_transport (t\<lparr>t_base := pBase\<rparr>)) w;
              (r, w) \<leftarrow> ext_int E (Libc (L_reuseaddr fd 1)) w;
              w \<leftarrow> (if r < 0 then esip_trace E ESIP_LOG_WARNING ''es_transport_init'' 107 w else Some w);
              (r, w) \<leftarrow> ext_int E (Lev (Ev_nonblocking fd)) w;
              Some ((ES_OK, Some a), w) } } })"

definition es_transport_destroy :: "env \<Rightarrow> cptr \<Rightarrow> world \<Rightarrow> es_status run" where
  "es_transport_destroy E pCtx w =
     (case pCtx of
        None \<Rightarrow> do {
          w \<leftarrow> esip_trace E ESIP_LOG_ERROR ''es_transport_destroy'' 128 w;
          Some (ES_ERROR_NULLPTR, w) }
      | Some a \<Rightarrow> do {
          t \<leftarrow> load as_transport pCtx w;
          if t_magic t \<noteq> ES_TRANSPORT_MAGIC then do {
            w \<leftarrow> esip_trace E ESIP_LOG_ERROR ''es_transport_destroy'' 133 w;
            Some (ES_ERROR_NULLPTR, w) }
          else do {
            w \<leftarrow> sys_close (udp_socket t) w;
            let w = put a (C_transport zero_transport) w;
            w \<leftarrow> cfree pCtx w;
            Some (ES_OK, w) } })"

section \<open>Binding, starting and stopping\<close>

definition es_bind_socket :: "env \<Rightarrow> int \<Rightarrow> string option \<Rightarrow> u32 \<Rightarrow> world \<Rightarrow> es_status run" where
  "es_bind_socket E sock ipv4addr port w = do {
     let addr = \<lparr>sin_family = AF_INET, sin_port = htons (ucast port),
       sin_addr = (case ipv4addr of None \<Rightarrow> INADDR_ANY | Some s \<Rightarrow> e_inet_addr E s)\<rparr>;
     (r, w) \<leftarrow> ext_int E (Libc (L_bind sock addr)) w;
     if r < 0 then do {
       w \<leftarrow> esip_trace E ESIP_LOG_ERROR ''_es_bind_socket'' 311 w;
       Some (ES_ERROR_NETWORK_PROBLEM, w) }
     else Some (ES_OK, w) }"

definition es_transport_start :: "env \<Rightarrow> cptr \<Rightarrow> world \<Rightarrow> es_status run" where
  "es_transport_start E pCtx w =
     (case pCtx of
        None \<Rightarrow> do {
          w \<leftarrow> esip_trace E ESIP_LOG_ERROR ''es_transport_start'' 151 w;
          Some (ES_ERROR_NULLPTR, w) }
      | Some a \<Rightarrow> do {
          t \<leftarrow> load as_transport pCtx w;
          if t_magic t \<noteq> ES_TRANSPORT_MAGIC then do {
            w \<leftarrow> esip_trace E ESIP_LOG_ERROR ''es_transport_start'' 156 w;
            Some (ES_ERROR_NULLPTR, w) }
          else do {
            (st, w) \<leftarrow> es_bind_socket E (udp_socket t) None ES_TRANSPORT_DEFAULT_PORT w;
            if st \<noteq> ES_OK then do {
              w \<leftarrow> esip_trace E ESIP_LOG_ERROR ''es_transport_start'' 161 w;
              Some (ES_ERROR_NETWORK_PROBLEM, w) }
            else do {
              (ev, w) \<leftarrow> ev_new E \<lparr>ev_base = t_base t, ev_fd = udp_socket t,
                 ev_flags = EV_READ OR EV_PERSIST, ev_fn = F_es_transport_ev, ev_arg = pCtx\<rparr> w;
              let w = put a (C_transport (t\<lparr>evudpsock := ev\<rparr>)) w;
              if ev = None then do {
                w \<leftarrow> esip_trace E ESIP_LOG_ERROR ''es_transport_start'' 167 w;
                Some (ES_ERROR_UNKNOWN, w) }
              else do {
                (r, w) \<leftarrow> ev_priority_set E ev 0 w;
                w \<leftarrow> (if r \<noteq> 0 then esip_trace E ESIP_LOG_WARNING ''es_transport_start'' 173 w else Some w);
                (r, w) \<leftarrow> ev_add E ev w;
                if r \<noteq> 0 then do {
                  w \<leftarrow> esip_trace E ESIP_LOG_ERROR ''es_transport_start'' 177 w;
                  Some (ES_ERROR_UNKNOWN, w) }
                else Some (ES_OK, w) } } } })"

definition es_transport_stop :: "env \<Rightarrow> cptr \<Rightarrow> world \<Rightarrow> es_status run" where
  "es_transport_stop E pCtx w =
     (case pCtx of
        None \<Rightarrow> do {
          w \<leftarrow> esip_trace E ESIP_LOG_ERROR ''es_transport_stop'' 188 w;
          Some (ES_ERROR_NULLPTR, w) }
      | Some a \<Rightarrow> do {
          t \<leftarrow> load as_transport pCtx w;
          if t_magic t \<noteq> ES_TRANSPORT_MAGIC then do {
            w \<leftarrow> esip_trace E ESIP_LOG_ERROR ''es_transport_stop'' 193 w;
            Some (ES_ERROR_NULLPTR, w) }
          else do {
            (r, w) \<leftarrow> ev_del E (evudpsock t) w;
            w \<leftarrow> (if r \<noteq> 0 then esip_trace E ESIP_LOG_ERROR ''es_transport_stop'' 198 w else Some w);
            w \<leftarrow> ev_free (evudpsock t) w;
            Some (ES_OK, w) } })"

section \<open>Settings\<close>

definition es_transport_set_callbacks ::
  "env \<Rightarrow> cptr \<Rightarrow> es_transport_callbacks_s option \<Rightarrow> world \<Rightarrow> es_status run" where
  "es_transport_set_callbacks E pCtx pCbCtx w =
     (case (pCbCtx, pCtx) of
        (Some cs, Some a) \<Rightarrow> do {
          t \<leftarrow> load as_transport pCtx w;
          if t_magic t \<noteq> ES_TRANSPORT_MAGIC then do {
            w \<leftarrow> esip_trace E ESIP_LOG_ERROR ''es_transport_set_callbacks'' 216 w;
            Some (ES_ERROR_NULLPTR, w) }
          else Some (ES_OK, put a (C_transport (t\<lparr>callbacks :=
                  \<lparr>event_cb = event_cb cs, msg_recv_cb = msg_recv_cb cs, user_data = user_data cs\<rparr>\<rparr>)) w) }
      | _ \<Rightarrow> do {
          w \<leftarrow> esip_trace E ESIP_LOG_ERROR ''es_transport_set_callbacks'' 211 w;
          Some (ES_ERROR_NULLPTR, w) })"

text \<open>\<^verbatim>\<open>(dscp << 2) & 0xff\<close> on a signed \<^verbatim>\<open>int\<close>: the shift of a negative value, or one that
  leaves the range of \<^verbatim>\<open>int\<close>, is undefined.\<close>

definition dscp_tos :: "u32 \<Rightarrow> u32 option" where
  "dscp_tos dscp = (if 0 \<le> sint dscp \<and> 4 * sint dscp < 2 ^ 31 then Some (push_bit 2 dscp AND 0xff) else None)"

definition es_transport_set_dscp :: "env \<Rightarrow> cptr \<Rightarrow> u32 \<Rightarrow> world \<Rightarrow> es_status run" where
  "es_transport_set_dscp E pCtx dscp w =
     (case pCtx of
        None \<Rightarrow> do {
          w \<leftarrow> esip_trace E ESIP_LOG_ERROR ''es_transport_set_dscp'' 233 w;
          Some (ES_ERROR_NULLPTR, w) }
      | Some a \<Rightarrow> do {
          t \<leftarrow> load as_transport pCtx w;
          if t_magic t \<noteq> ES_TRANSPORT_MAGIC then do {
            w \<leftarrow> esip_trace E ESIP_LOG_ERROR ''es_transport_set_dscp'' 238 w;
            Some (ES_ERROR_NULLPTR, w) }
          else if udp_socket t = 0 then Some (ES_ERROR_UNINITIALIZED, w)
          else do {
            tos \<leftarrow> dscp_tos dscp;
            (r, w) \<leftarrow> ext_int E (Libc (L_ip_tos (udp_socket t) tos)) w;
            if r \<noteq> 0 then do {
              w \<leftarrow> esip_trace E ESIP_LOG_ERROR ''es_transport_set_dscp'' 248 w;
              Some (ES_ERROR_NETWORK_PROBLEM, w) }
            else Some (ES_OK, w) } })"

definition es_transport_get_udp_socket :: "env \<Rightarrow> cptr \<Rightarrow> world \<Rightarrow> (es_status \<times> int option) run" where
  "es_transport_get_udp_socket E pCtx w =
     (case pCtx of
        None \<Rightarrow> do {
          w \<leftarrow> esip_trace E ESIP_LOG_ERROR ''es_transport_get_udp_socket'' 260 w;
          Some ((ES_ERROR_NULLPTR, None), w) }
      | Some a \<Rightarrow> do {
          t \<leftarrow> load as_transport pCtx w;
          if t_magic t \<noteq> ES_TRANSPORT_MAGIC then do {
            w \<leftarrow> esip_trace E ESIP_LOG_ERROR ''es_transport_get_udp_socket'' 265 w;
            Some ((ES_ERROR_NULLPTR, None), w) }
          else if udp_socket t > 0 then Some ((ES_OK, Some (udp_socket t)), w)
          else Some ((ES_ERROR_UNINITIALIZED, None), w) })"

section \<open>Sending and receiving\<close>

text \<open>\<^verbatim>\<open>inet_addr\<close> reads its argument, and \<^verbatim>\<open>sendto\<close> reads \<^verbatim>\<open>size\<close> (here \<open>len\<close>) bytes. The result of
  \<^verbatim>\<open>sendto\<close> is not looked at.\<close>

definition es_transport_send ::
  "env \<Rightarrow> cptr \<Rightarrow> string option \<Rightarrow> int \<Rightarrow> byte list \<Rightarrow> nat \<Rightarrow> world \<Rightarrow> es_status run" where
  "es_transport_send E pCtx ip port msg len w =
     (case pCtx of
        None \<Rightarrow> do {
          w \<leftarrow> esip_trace E ESIP_LOG_ERROR ''es_transport_send'' 283 w;
          Some (ES_ERROR_NULLPTR, w) }
      | Some a \<Rightarrow> do {
          t \<leftarrow> load as_transport pCtx w;
          if t_magic t \<noteq> ES_TRANSPORT_MAGIC then do {
            w \<leftarrow> esip_trace E ESIP_LOG_ERROR ''es_transport_send'' 288 w;
            Some (ES_ERROR_NULLPTR, w) }
          else do {
            ip \<leftarrow> ip;
            let saddr = \<lparr>sin_family = AF_INET, sin_port = htons (word_of_int port),
              sin_addr = e_inet_addr E ip\<rparr>;
            if length msg < len then None
            else do {
              (r, w) \<leftarrow> ext_int E (Libc (L_sendto (udp_socket t) (take len msg) saddr)) w;
              Some (ES_OK, w) } } })"

text \<open>\<^verbatim>\<open>recvfrom\<close> on a datagram socket: a negative answer of the kernel is an error,
  otherwise the datagram, cut off at the size of the buffer.\<close>

definition sys_recvfrom :: "env \<Rightarrow> int \<Rightarrow> nat \<Rightarrow> world \<Rightarrow> (int \<times> byte list) run" where
  "sys_recvfrom E fd sz w =
     (let c = Libc (L_recvfrom fd sz); d = take sz (e_bytes E w c)
      in if e_int E w c < 0 then Some ((- 1, []), did c w) else Some ((int (length d), d), did c w))"

definition write_byte :: "byte list \<Rightarrow> u64 \<Rightarrow> byte \<Rightarrow> byte list option" where
  "write_byte buf i b = (if unat i < length buf then Some (buf[unat i := b]) else None)"

text \<open>The calls of the two callbacks at the end of the handler.\<close>

definition transport_deliver ::
  "(fn \<Rightarrow> cptr \<Rightarrow> byte list \<Rightarrow> u32 \<Rightarrow> cptr \<Rightarrow> world \<Rightarrow> world option)
   \<Rightarrow> (fn \<Rightarrow> cptr \<Rightarrow> int \<Rightarrow> int \<Rightarrow> cptr \<Rightarrow> world \<Rightarrow> world option)
   \<Rightarrow> cptr \<Rightarrow> byte list \<Rightarrow> u64 \<Rightarrow> world \<Rightarrow> world option" where
  "transport_deliver call_msg call_event arg buf buf_len w = do {
     t \<leftarrow> load as_transport arg w;
     w \<leftarrow> (case msg_recv_cb (callbacks t) of
            None \<Rightarrow> Some w
          | Some f \<Rightarrow> if 0 < buf_len
              then call_msg f arg buf (ucast buf_len) (user_data (callbacks t)) w else Some w);
     t \<leftarrow> load as_transport arg w;
     case event_cb (callbacks t) of
       None \<Rightarrow> Some w
     | Some f \<Rightarrow> call_event f arg 1 0 (user_data (callbacks t)) w }"

definition es_transport_ev ::
  "env \<Rightarrow> (fn \<Rightarrow> cptr \<Rightarrow> byte list \<Rightarrow> u32 \<Rightarrow> cptr \<Rightarrow> world \<Rightarrow> world option)
       \<Rightarrow> (fn \<Rightarrow> cptr \<Rightarrow> int \<Rightarrow> int \<Rightarrow> cptr \<Rightarrow> world \<Rightarrow> world option)
       \<Rightarrow> int \<Rightarrow> u16 \<Rightarrow> cptr \<Rightarrow> world \<Rightarrow> world option" where
  "es_transport_ev E call_msg call_event fd event arg w =
     (case arg of
        None \<Rightarrow> esip_trace E ESIP_LOG_ERROR ''_es_transport_ev'' 323 w
      | Some a \<Rightarrow> do {
          t \<leftarrow> load as_transport arg w;
          if t_magic t \<noteq> ES_TRANSPORT_MAGIC then esip_trace E ESIP_LOG_ERROR ''_es_transport_ev'' 328 w
          else if event AND EV_READ \<noteq> 0 then do {
            let buf = map (e_stack E w) [0..<ES_TRANSPORT_MAX_BUFFER_SIZE];
            ((n, d), w) \<leftarrow> sys_recvfrom E fd ES_TRANSPORT_MAX_BUFFER_SIZE w;
            let buf = d @ drop (length d) buf;
            let buf_len = (word_of_int n :: u64);
            buf \<leftarrow> write_byte buf buf_len 0;
            w \<leftarrow> esip_trace E ESIP_LOG_DEBUG ''_es_transport_ev'' 342 w;
            transport_deliver call_msg call_event arg buf buf_len w }
          else Some w })"

section \<open>The contract of an operation on a handle\<close>

text \<open>
  Every public operation of the transport, of the SIP stack and of the CLI begins
  with the same two tests: the handle is not null, and the block it points to
  carries the component's magic number. An operation that fails a test returns a
  fixed answer and does nothing but trace; a dangling handle is undefined behaviour.
\<close>

locale handle_op =
  fixes op :: "cptr \<Rightarrow> world \<Rightarrow> ('r \<times> world) option"
    and magic_of :: "cptr \<Rightarrow> world \<Rightarrow> u32 option"
    and magic :: u32
    and null_r :: 'r
    and bad_r :: 'r
  assumes null: "\<exists>w'. op None w = Some (null_r, w') \<and> same_but_trace w w'"
    and bad: "magic_of (Some a) w = Some m \<Longrightarrow> m \<noteq> magic \<Longrightarrow>
                \<exists>w'. op (Some a) w = Some (bad_r, w') \<and> same_but_trace w w'"
    and dangling: "magic_of (Some a) w = None \<Longrightarrow> op (Some a) w = None"
    and null_magic: "magic_of None w = None"
begin

lemma refused:
  assumes "magic_of p w \<noteq> Some magic" and "op p w = Some (r, w')"
  shows "(r = null_r \<or> r = bad_r) \<and> same_but_trace w w'"
proof (cases p)
  case None
  with assms(2) null [of w] show ?thesis by auto
next
  case (Some a)
  with assms(2) dangling [of a w] obtain m where m: "magic_of p w = Some m" by fastforce
  with assms(1) Some have "m \<noteq> magic" by auto
  with bad [of a w m] m Some assms(2) show ?thesis by auto
qed

lemma no_effect_refused:
  assumes "op p w = Some (r, w')" and "\<not> same_but_trace w w'"
  shows "magic_of p w = Some magic"
  using assms refused by blast

lemma success_checked:
  assumes "op p w = Some (r, w')" and "r \<noteq> null_r" and "r \<noteq> bad_r"
  shows "magic_of p w = Some magic"
  using assms refused by blast

lemma undefined_iff_dangling_or_checked:
  assumes "op p w = None"
  shows "(\<exists>a. p = Some a \<and> magic_of p w = None) \<or> magic_of p w = Some magic"
proof (cases p)
  case None
  with assms null [of w] show ?thesis by auto
next
  case (Some a)
  show ?thesis
  proof (cases "magic_of p w")
    case (Some m)
    with bad [of a w m] \<open>p = Some a\<close> assms show ?thesis by auto
  qed (use Some in simp)
qed

end

definition transport_magic :: "cptr \<Rightarrow> world \<Rightarrow> u32 option" where
  "transport_magic p w = map_option t_magic (load as_transport p w)"

lemmas transport_handle_defs = transport_magic_def esip_trace_eval

interpretation transport_destroy: handle_op "es_transport_destroy E" transport_magic
  ES_TRANSPORT_MAGIC ES_ERROR_NULLPTR ES_ERROR_NULLPTR
  by unfold_locales (auto simp: es_transport_destroy_def transport_handle_defs)

interpretation transport_start: handle_op "es_transport_start E" transport_magic
  ES_TRANSPORT_MAGIC ES_ERROR_NULLPTR ES_ERROR_NULLPTR
  by unfold_locales (auto simp: es_transport_start_def transport_handle_defs)

interpretation transport_stop: handle_op "es_transport_stop E" transport_magic
  ES_TRANSPORT_MAGIC ES_ERROR_NULLPTR ES_ERROR_NULLPTR
  by unfold_locales (auto simp: es_transport_stop_def transport_handle_defs)

interpretation transport_set_callbacks: handle_op "\<lambda>p. es_transport_set_callbacks E p (Some cs)"
  transport_magic ES_TRANSPORT_MAGIC ES_ERROR_NULLPTR ES_ERROR_NULLPTR
  by unfold_locales (auto simp: es_transport_set_callbacks_def transport_handle_defs)

interpretation transport_set_dscp: handle_op "\<lambda>p. es_transport_set_dscp E p dscp"
  transport_magic ES_TRANSPORT_MAGIC ES_ERROR_NULLPTR ES_ERROR_NULLPTR
  by unfold_locales (auto simp: es_transport_set_dscp_def transport_handle_defs)

interpretation transport_get_udp_socket: handle_op "es_transport_get_udp_socket E"
  transport_magic ES_TRANSPORT_MAGIC "(ES_ERROR_NULLPTR, None)" "(ES_ERROR_NULLPTR, None)"
  by unfold_locales (auto simp: es_transport_get_udp_socket_def transport_handle_defs)

interpretation transport_send: handle_op "\<lambda>p. es_transport_send E p ip port msg len"
  transport_magic ES_TRANSPORT_MAGIC ES_ERROR_NULLPTR ES_ERROR_NULLPTR
  by unfold_locales (auto simp: es_transport_send_def transport_handle_defs)

section \<open>Creation\<close>

lemmas transport_dests = run_dests esip_traceD sys_socketD

lemma es_transport_init_OK:
  assumes "es_transport_init E base w = Some ((ES_OK, p), w')"
  shows "\<exists>fd. 0 \<le> fd \<and> base \<noteq> None \<and> p = Some (brk w) \<and> brk w' = Suc (brk w) \<and>
    fds w' = insert fd (fds w) \<and> dlog w' = dlog w \<and>
    heap w' = (heap w)(brk w \<mapsto> C_transport (zero_transport\<lparr>t_magic := ES_TRANSPORT_MAGIC,
      udp_socket := fd, t_base := base\<rparr>))"
  using assms unfolding es_transport_init_def Let_def
  by (elim run_elims; force dest!: transport_dests)

lemma es_transport_init_error:
  assumes "heap_ok w" and "es_transport_init E base w = Some ((st, p), w')" and "st \<noteq> ES_OK"
  shows "p = None \<and> heap w' = heap w \<and> fds w' = fds w \<and> dlog w' = dlog w
    \<and> brk w \<le> brk w' \<and> brk w' \<le> Suc (brk w)
    \<and> st \<in> {ES_ERROR_NULLPTR, ES_ERROR_OUTOFRESOURCES, ES_ERROR_NETWORK_PROBLEM}"
  using assms unfolding es_transport_init_def Let_def
  by (elim run_elims; auto simp: fun_upd_idem_iff heap_ok_fresh dest!: transport_dests)

lemma es_transport_init_returns: "es_transport_init E base w \<noteq> None"
  by (auto simp: es_transport_init_def sys_socket_def Let_def step_simps cfree_def)

lemma es_transport_init_heap_ok:
  assumes "heap_ok w" and "es_transport_init E base w = Some ((st, p), w')"
  shows "heap_ok w'"
proof (cases "st = ES_OK")
  case True
  with es_transport_init_OK assms(2) obtain x where
    "brk w' = Suc (brk w)" "heap w' = (heap w)(brk w \<mapsto> x)" by blast
  with assms(1) show ?thesis by (auto simp: heap_ok_def)
next
  case False
  with es_transport_init_error [OF assms] assms(1) show ?thesis by (auto simp: heap_ok_def)
qed

section \<open>The life of a transport context\<close>

text \<open>
  The abstract states of a context: released, never started, listening with a
  registered event, and stopped. After \<open>es_transport_stop\<close> the member \<^verbatim>\<open>evudpsock\<close>
  still holds the address of the freed event.
\<close>

datatype tphase = Gone | Idle | Listening | Stale

definition tphase_of :: "ptr \<Rightarrow> world \<Rightarrow> tphase" where
  "tphase_of a w =
     (case load as_transport (Some a) w of
        None \<Rightarrow> Gone
      | Some t \<Rightarrow> (if t_magic t \<noteq> ES_TRANSPORT_MAGIC then Gone
                   else if evudpsock t = None then Idle
                   else if live_event (evudpsock t) w then Listening else Stale))"

lemma is_event_transport [simp]: "\<not> is_event (C_transport t)" "\<not> is_event (C_raw b)"
  by (simp_all add: is_event_iff)

lemma es_bind_socketD:
  "es_bind_socket E s ip port w = Some (st, w') \<Longrightarrow>
     \<exists>x. w' = wrote x (did (Libc (L_bind s \<lparr>sin_family = AF_INET, sin_port = htons (ucast port),
       sin_addr = (case ip of None \<Rightarrow> INADDR_ANY | Some i \<Rightarrow> e_inet_addr E i)\<rparr>)) w) \<and>
       (st = ES_OK \<or> st = ES_ERROR_NETWORK_PROBLEM)"
  unfolding es_bind_socket_def Let_def
  by (elim run_elims; auto dest!: transport_dests intro: exI [of _ "[]"])

lemma tphase_GoneI: "load as_transport (Some a) w = None \<Longrightarrow> tphase_of a w = Gone"
  by (simp add: tphase_of_def)

lemma tphase_live:
  assumes "tphase_of a w \<noteq> Gone"
  obtains t where "heap w a = Some (C_transport t)" and "t_magic t = ES_TRANSPORT_MAGIC"
  using assms
  by (auto simp: tphase_of_def transport_cell.load_iff split: option.splits if_splits)

lemma tphase_of_heap:
  "heap w a = Some (C_transport t) \<Longrightarrow> t_magic t = ES_TRANSPORT_MAGIC \<Longrightarrow>
   tphase_of a w = (if evudpsock t = None then Idle
                   else if live_event (evudpsock t) w then Listening else Stale)"
  by (simp add: tphase_of_def transport_cell.load_heap)

text \<open>The event that \<open>es_transport_start\<close> registers.\<close>

definition transport_event :: "ptr \<Rightarrow> es_transport_s \<Rightarrow> event_s" where
  "transport_event a t = \<lparr>ev_base = t_base t, ev_fd = udp_socket t, ev_flags = EV_READ OR EV_PERSIST,
     ev_fn = F_es_transport_ev, ev_arg = Some a\<rparr>"

lemma es_transport_start_heap:
  assumes "heap w a = Some (C_transport t)" and "t_magic t = ES_TRANSPORT_MAGIC"
    and "a < brk w" and "es_transport_start E (Some a) w = Some (st, w')"
  shows "fds w' = fds w \<and> dlog w' = dlog w \<and>
    ((st = ES_ERROR_NETWORK_PROBLEM \<and> heap w' = heap w \<and> brk w' = brk w) \<or>
     (st = ES_ERROR_UNKNOWN \<and> heap w' = (heap w)(a \<mapsto> C_transport (t\<lparr>evudpsock := None\<rparr>)) \<and> brk w' = brk w) \<or>
     (st \<in> {ES_OK, ES_ERROR_UNKNOWN} \<and> brk w' = Suc (brk w) \<and>
      heap w' = (heap w)(brk w \<mapsto> C_event (transport_event a t),
                         a \<mapsto> C_transport (t\<lparr>evudpsock := Some (brk w)\<rparr>))))"
  using assms unfolding es_transport_start_def transport_event_def
  by (elim run_elims; clarsimp simp: transport_cell.load_heap dest!: transport_dests es_bind_socketD)

lemma es_transport_start_phase:
  assumes "heap_ok w" and "tphase_of a w \<noteq> Gone"
    and "es_transport_start E (Some a) w = Some (st, w')"
  shows "tphase_of a w' = Listening \<or> (st \<noteq> ES_OK \<and> tphase_of a w' \<in> {Idle, tphase_of a w})"
proof -
  obtain t where t: "heap w a = Some (C_transport t)" "t_magic t = ES_TRANSPORT_MAGIC"
    using assms(2) by (rule tphase_live)
  have a: "a < brk w" using heap_ok_live [OF assms(1) t(1)] .
  from es_transport_start_heap [OF t a assms(3)] show ?thesis
  proof (elim conjE disjE)
    assume "heap w' = heap w" and "st = ES_ERROR_NETWORK_PROBLEM"
    then have "tphase_of a w' = tphase_of a w" using t by (simp add: tphase_of_heap live_event_iff)
    then show ?thesis using \<open>st = ES_ERROR_NETWORK_PROBLEM\<close> by simp
  qed (use t a in \<open>auto simp: tphase_of_heap live_event_def is_event_iff\<close>)
qed

text \<open>What the other operations do to a context with the right magic number.\<close>

lemma es_transport_stop_heap:
  assumes "heap w a = Some (C_transport t)" and "t_magic t = ES_TRANSPORT_MAGIC"
    and "es_transport_stop E (Some a) w = Some (st, w')"
  shows "\<exists>e ev. evudpsock t = Some e \<and> heap w e = Some (C_event ev) \<and> st = ES_OK \<and>
    heap w' = (heap w)(e := None) \<and> brk w' = brk w \<and> fds w' = fds w \<and> dlog w' = dlog w"
  using assms unfolding es_transport_stop_def
  by (elim run_elims; clarsimp simp: transport_cell.load_heap live_event_iff dest!: transport_dests)

lemma es_transport_stop_returns:
  assumes "heap w a = Some (C_transport t)" and "t_magic t = ES_TRANSPORT_MAGIC"
    and "live_event (evudpsock t) w"
  shows "\<exists>w'. es_transport_stop E (Some a) w = Some (ES_OK, w')"
  using assms
  by (auto simp: es_transport_stop_def transport_cell.load_heap ev_del_def step_simps ev_free_eval)

lemma es_transport_destroy_heap:
  assumes "heap w a = Some (C_transport t)" and "t_magic t = ES_TRANSPORT_MAGIC"
  shows "\<exists>w'. es_transport_destroy E (Some a) w = Some (ES_OK, w') \<and>
    heap w' = (heap w)(a := None) \<and> brk w' = brk w \<and> fds w' = fds w - {udp_socket t} \<and>
    dlog w' = dlog w \<and>
    hist w' = Libc (L_free (Some a)) # Libc (L_close (udp_socket t)) # hist w"
  using assms
  by (simp add: es_transport_destroy_def transport_cell.load_heap sys_close_def cfree_def)

lemma es_transport_set_callbacks_heap:
  assumes "heap w a = Some (C_transport t)" and "t_magic t = ES_TRANSPORT_MAGIC"
  shows "es_transport_set_callbacks E (Some a) (Some cs) w =
    Some (ES_OK, put a (C_transport (t\<lparr>callbacks := cs\<rparr>)) w)"
  using assms by (cases cs) (simp add: es_transport_set_callbacks_def transport_cell.load_heap)

lemma es_transport_set_dscp_heap:
  assumes "es_transport_set_dscp E p dscp w = Some (st, w')"
  shows "heap w' = heap w \<and> brk w' = brk w \<and> fds w' = fds w \<and> dlog w' = dlog w"
  using assms unfolding es_transport_set_dscp_def
  by (elim run_elims; clarsimp dest!: transport_dests)

lemma es_transport_send_heap:
  assumes "es_transport_send E p ip port msg len w = Some (st, w')"
  shows "heap w' = heap w \<and> brk w' = brk w \<and> fds w' = fds w \<and> dlog w' = dlog w"
  using assms unfolding es_transport_send_def
  by (elim run_elims; clarsimp dest!: transport_dests)

lemma es_transport_send_OK:
  assumes "heap w a = Some (C_transport t)" and "t_magic t = ES_TRANSPORT_MAGIC"
    and "es_transport_send E (Some a) ip port msg len w = Some (st, w')"
  shows "st = ES_OK"
  using assms unfolding es_transport_send_def
  by (elim run_elims; clarsimp simp: transport_cell.load_heap)

section \<open>Refinement of an abstract state machine\<close>

text \<open>
  The promise of the component to its client: which operations may follow which. A
  failed start may leave the context as it was, without an event, or with an event
  that libevent refused to watch.
\<close>

datatype top =
    T_start | T_stop | T_destroy | T_set_callbacks es_transport_callbacks_s | T_set_dscp u32
  | T_send "string option" int "byte list" nat

inductive tstep :: "tphase \<Rightarrow> top \<Rightarrow> es_status \<Rightarrow> tphase \<Rightarrow> bool" where
  start_ok: "p \<noteq> Gone \<Longrightarrow> tstep p T_start ES_OK Listening"
| start_failed: "p \<noteq> Gone \<Longrightarrow> st \<noteq> ES_OK \<Longrightarrow> q \<in> {p, Idle, Listening} \<Longrightarrow> tstep p T_start st q"
| stop: "tstep Listening T_stop ES_OK Stale"
| destroy: "p \<noteq> Gone \<Longrightarrow> tstep p T_destroy ES_OK Gone"
| set_callbacks: "p \<noteq> Gone \<Longrightarrow> tstep p (T_set_callbacks cs) ES_OK p"
| set_dscp: "p \<noteq> Gone \<Longrightarrow> tstep p (T_set_dscp d) st p"
| send: "p \<noteq> Gone \<Longrightarrow> tstep p (T_send ip port msg len) ES_OK p"

lemmas tstep_intros = tstep.intros tstep.intros [simplified]

inductive_cases tstep_startE: "tstep p T_start st q"
inductive_cases tstep_stopE: "tstep p T_stop st q"
inductive_cases tstep_GoneE: "tstep Gone op st q"
inductive_simps tstep_stop_simps: "tstep p T_stop st q"

inductive tsteps :: "tphase \<Rightarrow> top list \<Rightarrow> es_status list \<Rightarrow> tphase \<Rightarrow> bool" where
  nil: "tsteps p [] [] p"
| cons: "tstep p op st q \<Longrightarrow> tsteps q ops sts r \<Longrightarrow> tsteps p (op # ops) (st # sts) r"

fun transport_op :: "env \<Rightarrow> cptr \<Rightarrow> top \<Rightarrow> world \<Rightarrow> es_status run" where
  "transport_op E p T_start w = es_transport_start E p w"
| "transport_op E p T_stop w = es_transport_stop E p w"
| "transport_op E p T_destroy w = es_transport_destroy E p w"
| "transport_op E p (T_set_callbacks cs) w = es_transport_set_callbacks E p (Some cs) w"
| "transport_op E p (T_set_dscp d) w = es_transport_set_dscp E p d w"
| "transport_op E p (T_send ip port msg len) w = es_transport_send E p ip port msg len w"

fun transport_ops :: "env \<Rightarrow> cptr \<Rightarrow> top list \<Rightarrow> world \<Rightarrow> es_status list run" where
  "transport_ops E p [] w = Some ([], w)"
| "transport_ops E p (op # ops) w = do {
     (st, w) \<leftarrow> transport_op E p op w;
     (sts, w) \<leftarrow> transport_ops E p ops w;
     Some (st # sts, w) }"

lemma tphase_same_heap: "heap w' = heap w \<Longrightarrow> tphase_of a w' = tphase_of a w"
  by (simp add: tphase_of_def load_def live_event_def cong: option.case_cong if_cong)

lemma transport_op_refines:
  assumes "heap_ok w" and "tphase_of a w \<noteq> Gone" and "transport_op E (Some a) op w = Some (st, w')"
  shows "tstep (tphase_of a w) op st (tphase_of a w') \<and> heap_ok w'"
proof -
  obtain t where t: "heap w a = Some (C_transport t)" "t_magic t = ES_TRANSPORT_MAGIC"
    using assms(2) by (rule tphase_live)
  have a: "a < brk w" using heap_ok_live [OF assms(1) t(1)] .
  show ?thesis
  proof (cases op)
    case T_start
    with assms have run: "es_transport_start E (Some a) w = Some (st, w')" by simp
    have "heap_ok w'"
      using es_transport_start_heap [OF t a run] assms(1) a by (auto simp: heap_ok_def)
    with es_transport_start_phase [OF assms(1,2) run] T_start assms(2) show ?thesis
      by (cases "st = ES_OK") (auto intro: tstep_intros)
  next
    case T_stop
    with assms have "es_transport_stop E (Some a) w = Some (st, w')" by simp
    from es_transport_stop_heap [OF t this] obtain e ev where e: "evudpsock t = Some e"
      "heap w e = Some (C_event ev)" "st = ES_OK" "heap w' = (heap w)(e := None)" "brk w' = brk w"
      by blast
    with t have "e \<noteq> a" by auto
    with t e assms(1) T_stop show ?thesis
      by (auto simp: tphase_of_heap live_event_iff heap_ok_def intro: tstep_intros)
  next
    case T_destroy
    with assms es_transport_destroy_heap [OF t, of E] show ?thesis
      by (auto simp: tphase_of_def load_def heap_ok_def intro: tstep_intros)
  next
    case (T_set_callbacks cs)
    with assms es_transport_set_callbacks_heap [OF t, of E cs] a
    have w': "st = ES_OK" "w' = put a (C_transport (t\<lparr>callbacks := cs\<rparr>)) w" by auto
    have "tphase_of a w' = tphase_of a w"
      using t by (simp add: w'(2) tphase_of_heap live_event_put [OF t(1)])
    with assms w' a T_set_callbacks show ?thesis
      by (auto intro: tstep_intros keep_rules)
  next
    case (T_set_dscp d)
    with assms have run: "es_transport_set_dscp E (Some a) d w = Some (st, w')" by simp
    from es_transport_set_dscp_heap [OF run] have h: "heap w' = heap w" "brk w' = brk w" by auto
    with assms(1,2) T_set_dscp show ?thesis
      by (auto simp: heap_ok_def tphase_same_heap [OF h(1)] intro: tstep_intros)
  next
    case (T_send ip port msg len)
    with assms have run: "es_transport_send E (Some a) ip port msg len w = Some (st, w')" by simp
    from es_transport_send_OK [OF t run] es_transport_send_heap [OF run]
    have s: "st = ES_OK" and h: "heap w' = heap w" "brk w' = brk w" by auto
    with assms(1,2) T_send show ?thesis
      by (auto simp: heap_ok_def tphase_same_heap [OF h(1)] intro: tstep_intros)
  qed
qed

lemma tphase_gone_load:
  assumes "tphase_of a w' = Gone" and "tphase_of a w \<noteq> Gone" and "heap_ok w"
    and "transport_op E (Some a) op w = Some (st, w')"
  shows "load as_transport (Some a) w' = None"
proof -
  from transport_op_refines [OF assms(3,2,4)] assms(1)
  have step: "tstep (tphase_of a w) op st Gone" by simp
  obtain t where t: "heap w a = Some (C_transport t)" "t_magic t = ES_TRANSPORT_MAGIC"
    using assms(2) by (rule tphase_live)
  have "op = T_destroy" using step assms(2) by (cases rule: tstep.cases) auto
  with assms(4) es_transport_destroy_heap [OF t, of E] show ?thesis by (auto simp: load_def)
qed

lemma transport_op_gone: "load as_transport (Some a) w = None \<Longrightarrow> transport_op E (Some a) op w = None"
  by (cases op) (simp_all add: es_transport_start_def es_transport_stop_def es_transport_destroy_def
      es_transport_set_callbacks_def es_transport_set_dscp_def es_transport_send_def)

section \<open>Properties\<close>

text \<open>C11. Any sequence of transport operations that runs on a live context without
  undefined behaviour is a run of the abstract state machine \<open>tstep\<close>, with the same
  status codes: the C code implements the four-state life cycle.\<close>

theorem transport_refines:
  assumes "heap_ok w" and "tphase_of a w \<noteq> Gone"
    and "transport_ops E (Some a) ops w = Some (sts, w')"
  shows "tsteps (tphase_of a w) ops sts (tphase_of a w')"
  using assms
proof (induction ops arbitrary: w sts)
  case Nil
  then show ?case by (simp add: tsteps.nil)
next
  case (Cons op ops)
  from Cons.prems(3) obtain st w1 sts' where
    op: "transport_op E (Some a) op w = Some (st, w1)" and
    rest: "transport_ops E (Some a) ops w1 = Some (sts', w')" and sts: "sts = st # sts'"
    by (auto elim!: run_elims)
  from transport_op_refines [OF Cons.prems(1,2) op]
  have step: "tstep (tphase_of a w) op st (tphase_of a w1)" and ok: "heap_ok w1" by auto
  show ?case
  proof (cases "tphase_of a w1 = Gone")
    case False
    from Cons.IH [OF ok False rest] step show ?thesis by (simp add: sts tsteps.cons)
  next
    case True
    from tphase_gone_load [OF True Cons.prems(2,1) op] have "ops = []"
      using rest by (cases ops) (auto simp: transport_op_gone)
    with rest step True show ?thesis by (auto simp: sts intro: tsteps.intros)
  qed
qed

text \<open>C30. On a live context \<open>es_transport_stop\<close> is well defined exactly when the context is
  listening: before the first start, and after a stop, it hands libevent a null or a
  dangling event.\<close>

theorem transport_stop_defined:
  assumes "tphase_of a w \<noteq> Gone"
  shows "es_transport_stop E (Some a) w \<noteq> None \<longleftrightarrow> tphase_of a w = Listening"
proof -
  obtain t where t: "heap w a = Some (C_transport t)" "t_magic t = ES_TRANSPORT_MAGIC"
    using assms by (rule tphase_live)
  show ?thesis
  proof
    assume "es_transport_stop E (Some a) w \<noteq> None"
    then obtain st w' where "es_transport_stop E (Some a) w = Some (st, w')" by auto
    from es_transport_stop_heap [OF t this] t show "tphase_of a w = Listening"
      by (auto simp: tphase_of_heap live_event_iff)
  next
    assume "tphase_of a w = Listening"
    with t have "live_event (evudpsock t) w" by (auto simp: tphase_of_heap split: if_splits)
    from es_transport_stop_returns [OF t this, of E] show "es_transport_stop E (Some a) w \<noteq> None" by auto
  qed
qed

text \<open>A context that is created, given callbacks, started, stopped and destroyed leaves
  the heap as it was, and its socket closed: no block and no descriptor is lost, and the
  last two steps cannot fail.\<close>

theorem transport_life_cycle:
  assumes "heap_ok w" and "es_transport_init E base w = Some ((ES_OK, p), w1)"
    and "es_transport_set_callbacks E p (Some cs) w1 = Some (st, w2)"
    and "es_transport_start E p w2 = Some (ES_OK, w3)"
  shows "\<exists>w4 w5 fd. es_transport_stop E p w3 = Some (ES_OK, w4) \<and>
    es_transport_destroy E p w4 = Some (ES_OK, w5) \<and>
    heap w5 = heap w \<and> fds w3 = insert fd (fds w) \<and> fds w5 = fds w - {fd} \<and>
    Libc (L_close fd) \<in> set (hist w5)"
proof -
  from es_transport_init_OK [OF assms(2)] obtain fd where
    p: "p = Some (brk w)" and w1: "fds w1 = insert fd (fds w)" "brk w1 = Suc (brk w)" and
    h1: "heap w1 = (heap w)(brk w \<mapsto> C_transport (zero_transport\<lparr>t_magic := ES_TRANSPORT_MAGIC,
      udp_socket := fd, t_base := base\<rparr>))" by blast
  let ?t = "zero_transport\<lparr>t_magic := ES_TRANSPORT_MAGIC, udp_socket := fd, t_base := base, callbacks := cs\<rparr>"
  have w2: "w2 = put (brk w) (C_transport ?t) w1"
    using assms(3) h1 by (auto simp: p es_transport_set_callbacks_heap)
  have h2: "heap w2 (brk w) = Some (C_transport ?t)" "brk w < brk w2" by (simp_all add: w2 w1)
  let ?e = "Suc (brk w)"
  from es_transport_start_heap [OF h2(1) _ h2(2) assms(4) [unfolded p]] have
    h3: "heap w3 = (heap w2)(?e \<mapsto> C_event (transport_event (brk w) ?t),
                             brk w \<mapsto> C_transport (?t\<lparr>evudpsock := Some ?e\<rparr>))"
    and f3: "fds w3 = insert fd (fds w)"
    by (simp_all add: w2 w1)
  let ?t3 = "?t\<lparr>evudpsock := Some ?e\<rparr>"
  have t3: "heap w3 (brk w) = Some (C_transport ?t3)" "t_magic ?t3 = ES_TRANSPORT_MAGIC"
    by (simp_all add: h3)
  have "live_event (evudpsock ?t3) w3" by (simp add: live_event_iff h3)
  from es_transport_stop_returns [OF t3 this] obtain w4 where
    stop: "es_transport_stop E p w3 = Some (ES_OK, w4)" by (auto simp: p)
  from es_transport_stop_heap [OF t3 stop [unfolded p]] have
    h4: "heap w4 = (heap w3)(?e := None)" and f4: "fds w4 = fds w3" by auto
  have t4: "heap w4 (brk w) = Some (C_transport ?t3)" using t3 by (simp add: h4)
  from es_transport_destroy_heap [OF t4 t3(2), of E] obtain w5 where
    destroy: "es_transport_destroy E p w4 = Some (ES_OK, w5)"
    and h5: "heap w5 = (heap w4)(brk w := None)" "fds w5 = fds w4 - {fd}"
      "hist w5 = Libc (L_free (Some (brk w))) # Libc (L_close fd) # hist w4"
    by (auto simp: p)
  have "heap w5 = heap w"
    using assms(1) by (auto simp: h5 h4 h3 w2 h1 heap_ok_def fun_eq_iff)
  then show ?thesis using stop destroy h5 f4 f3 by auto
qed

text \<open>A started context, for the witnesses below.\<close>

definition demo_transport :: es_transport_s where
  "demo_transport = zero_transport\<lparr>t_magic := ES_TRANSPORT_MAGIC, udp_socket := 3, t_base := Some 9,
     callbacks := \<lparr>event_cb = Some (F_user 1), msg_recv_cb = Some (F_user 2), user_data = Some 7\<rparr>\<rparr>"

definition demo_idle :: world where
  "demo_idle = new_cell (C_transport demo_transport) boot"

lemma demo_idle_facts [simp]:
  "heap demo_idle = [100 \<mapsto> C_transport demo_transport]" "brk demo_idle = 101" "heap_ok demo_idle"
  "t_magic demo_transport = ES_TRANSPORT_MAGIC" "evudpsock demo_transport = None"
  "callbacks demo_transport = \<lparr>event_cb = Some (F_user 1), msg_recv_cb = Some (F_user 2), user_data = Some 7\<rparr>"
  "udp_socket demo_transport = 3"
  by (auto simp: demo_idle_def demo_transport_def heap_ok_def zero_transport_def)

lemma demo_idle_phase: "tphase_of 100 demo_idle = Idle"
  by (simp add: tphase_of_def load_def as_transport_def)

lemma demo_idle_start: "\<exists>w'. es_transport_start plain_env (Some 100) demo_idle = Some (ES_OK, w')"
  by (simp add: es_transport_start_def load_def as_transport_def es_bind_socket_def step_simps
      plain_int_def ev_new_def ext_new_def ev_priority_set_def ev_add_def live_event_iff Let_def)

theorem transport_refines_witness:
  "\<exists>st w'. transport_ops plain_env (Some 100) [T_start] demo_idle = Some ([st], w') \<and>
     tsteps Idle [T_start] [st] (tphase_of 100 w')"
proof -
  from demo_idle_start obtain w' where
    run: "transport_ops plain_env (Some 100) [T_start] demo_idle = Some ([ES_OK], w')" by auto
  have "tphase_of 100 demo_idle \<noteq> Gone" by (simp add: demo_idle_phase)
  from transport_refines [OF _ this run] demo_idle_phase run show ?thesis by auto
qed

theorem transport_stop_defined_witness:
  "tphase_of 100 demo_idle \<noteq> Gone \<and> es_transport_stop plain_env (Some 100) demo_idle = None"
proof -
  have h: "tphase_of 100 demo_idle \<noteq> Gone" by (simp add: demo_idle_phase)
  moreover have "\<not> es_transport_stop plain_env (Some 100) demo_idle \<noteq> None"
    unfolding transport_stop_defined [OF h] by (simp add: demo_idle_phase)
  ultimately show ?thesis by blast
qed

theorem transport_life_cycle_witness:
  "\<exists>w1 w2 w3 w4 w5. es_transport_init plain_env (Some 9) boot = Some ((ES_OK, Some 100), w1) \<and>
     es_transport_set_callbacks plain_env (Some 100) (Some (callbacks demo_transport)) w1 = Some (ES_OK, w2) \<and>
     es_transport_start plain_env (Some 100) w2 = Some (ES_OK, w3) \<and> fds w3 = {0, 1, 2, 3} \<and>
     es_transport_stop plain_env (Some 100) w3 = Some (ES_OK, w4) \<and>
     es_transport_destroy plain_env (Some 100) w4 = Some (ES_OK, w5) \<and>
     fds w5 = {0, 1, 2} \<and> heap w5 = Map.empty"
proof -
  let ?t = "zero_transport\<lparr>t_magic := ES_TRANSPORT_MAGIC, udp_socket := 3, t_base := Some 9\<rparr>"
  let ?cs = "callbacks demo_transport"
  obtain w1 where w1: "es_transport_init plain_env (Some 9) boot = Some ((ES_OK, Some 100), w1)"
    "heap w1 = [100 \<mapsto> C_transport ?t]" "brk w1 = 101" "fds w1 = {0, 1, 2, 3}"
    by (auto simp: es_transport_init_def step_simps sys_socket_def plain_int_def SOCK_DGRAM_def Let_def)
  obtain w2 where cs: "es_transport_set_callbacks plain_env (Some 100) (Some ?cs) w1 = Some (ES_OK, w2)"
    "heap w2 = [100 \<mapsto> C_transport (?t\<lparr>callbacks := ?cs\<rparr>)]" "brk w2 = 101" "fds w2 = {0, 1, 2, 3}"
    using w1 by (simp add: es_transport_set_callbacks_heap [where t = ?t])
  obtain w3 where w3: "es_transport_start plain_env (Some 100) w2 = Some (ES_OK, w3)"
    "fds w3 = {0, 1, 2, 3}"
    using cs by (simp add: es_transport_start_def load_def as_transport_def es_bind_socket_def step_simps
      plain_int_def ev_new_def ext_new_def ev_priority_set_def ev_add_def live_event_iff Let_def)
  from transport_life_cycle [OF boot_heap_ok w1(1) cs(1) w3(1)] obtain w4 w5 fd where
    w5: "es_transport_stop plain_env (Some 100) w3 = Some (ES_OK, w4)"
      "es_transport_destroy plain_env (Some 100) w4 = Some (ES_OK, w5)"
      "heap w5 = Map.empty" "{0, 1, 2, 3} = insert fd {0, 1, 2}" "fds w5 = {0, 1, 2} - {fd}"
    unfolding w3(2) boot_sel by blast
  from w5(4) have "fd = 3" by auto
  with w5 have "fds w5 = {0, 1, 2}" by auto
  with w5 w1 cs w3 show ?thesis by blast
qed

text \<open>A handle that is null or does not carry the transport's magic number is refused by
  every operation with \<^verbatim>\<open>ES_ERROR_NULLPTR\<close>, and nothing but a trace happens: no call
  leaves the program and no block changes.\<close>

theorem transport_handles_checked:
  assumes "transport_magic p w \<noteq> Some ES_TRANSPORT_MAGIC"
    and "transport_op E p op w = Some (st, w')"
  shows "st = ES_ERROR_NULLPTR \<and> same_but_trace w w'"
proof (cases op)
  case T_start
  with transport_start.refused [OF assms(1)] assms(2) show ?thesis by simp
next
  case T_stop
  with transport_stop.refused [OF assms(1)] assms(2) show ?thesis by simp
next
  case T_destroy
  with transport_destroy.refused [OF assms(1)] assms(2) show ?thesis by simp
next
  case (T_set_callbacks cs)
  with transport_set_callbacks.refused [OF assms(1)] assms(2) show ?thesis by simp
next
  case (T_set_dscp d)
  with transport_set_dscp.refused [OF assms(1)] assms(2) show ?thesis by simp
next
  case (T_send ip port msg len)
  with transport_send.refused [OF assms(1)] assms(2) show ?thesis by simp
qed

theorem transport_handles_checked_witness:
  "\<exists>w'. transport_op plain_env None T_destroy boot = Some (ES_ERROR_NULLPTR, w') \<and> same_but_trace boot w'"
proof -
  have m: "transport_magic None boot \<noteq> Some ES_TRANSPORT_MAGIC" by (simp add: transport_magic_def)
  obtain w' where run: "transport_op plain_env None T_destroy boot = Some (ES_ERROR_NULLPTR, w')"
    by (simp add: es_transport_destroy_def step_simps)
  from transport_handles_checked [OF m run] run show ?thesis by blast
qed

text \<open>The buffer after a datagram \<open>d\<close> was received, and the state in which the callbacks are called.\<close>

definition received :: "env \<Rightarrow> byte list \<Rightarrow> world \<Rightarrow> byte list" where
  "received E d w = (d @ drop (length d) (map (e_stack E w) [0..<2048]))[length d := 0]"

definition after_recv :: "env \<Rightarrow> int \<Rightarrow> world \<Rightarrow> world" where
  "after_recv E fd w = (let v = did (Libc (L_recvfrom fd 2048)) w
     in wrote (trace_text E v ESIP_LOG_DEBUG ''_es_transport_ev'' 342) v)"

lemma received_simps [simp]:
  "length d < 2048 \<Longrightarrow> length (received E d w) = 2048"
  "take (length d) (received E d w) = d"
  "length d < 2048 \<Longrightarrow> received E d w ! length d = 0"
  by (simp_all add: received_def nth_list_update)

lemma after_recv_simps [simp]:
  "heap (after_recv E fd w) = heap w" "brk (after_recv E fd w) = brk w" "fds (after_recv E fd w) = fds w"
  "dlog (after_recv E fd w) = dlog w" "hist (after_recv E fd w) = Libc (L_recvfrom fd 2048) # hist w"
  by (simp_all add: after_recv_def Let_def)

lemma es_transport_ev_run:
  assumes t: "heap w a = Some (C_transport t)" "t_magic t = ES_TRANSPORT_MAGIC"
    and read: "event AND EV_READ \<noteq> 0"
    and d: "d = e_bytes E w (Libc (L_recvfrom fd 2048))" "length d < 2048"
    and ok: "0 \<le> e_int E w (Libc (L_recvfrom fd 2048))"
  shows "es_transport_ev E call_msg call_event fd event (Some a) w = do {
      w2 \<leftarrow> (case msg_recv_cb (callbacks t) of
              None \<Rightarrow> Some (after_recv E fd w)
            | Some f \<Rightarrow> if d = [] then Some (after_recv E fd w)
                else call_msg f (Some a) (received E d w) (word_of_nat (length d)) (user_data (callbacks t)) (after_recv E fd w));
      t2 \<leftarrow> load as_transport (Some a) w2;
      case event_cb (callbacks t2) of
        None \<Rightarrow> Some w2
      | Some g \<Rightarrow> call_event g (Some a) 1 0 (user_data (callbacks t2)) w2 }"
proof -
  let ?c = "Libc (L_recvfrom fd 2048)"
  have n: "unat (word_of_nat (length d) :: u64) = length d"
    using d(2) by (simp add: unat_of_nat take_bit_nat_eq_self)
  have pos: "0 < (word_of_nat (length d) :: u64) \<longleftrightarrow> d \<noteq> []"
    using n by (metis length_greater_0_conv unat_gt_0 word_neq_0_conv)
  have cast: "(ucast (word_of_nat (length d) :: u64) :: u32) = word_of_nat (length d)"
    using d(2) by (simp add: unsigned_of_nat take_bit_nat_eq_self)
  have sys: "sys_recvfrom E fd ES_TRANSPORT_MAX_BUFFER_SIZE w = Some ((int (length d), d), did ?c w)"
    using ok d by (simp add: sys_recvfrom_def ES_TRANSPORT_MAX_BUFFER_SIZE_def Let_def not_less [symmetric])
  have wb: "write_byte (d @ drop (length d) (map (e_stack E w) [0..<2048])) (word_of_nat (length d)) 0
      = Some (received E d w)"
    using d(2) by (simp only: write_byte_def n received_def) simp
  have "es_transport_ev E call_msg call_event fd event (Some a) w =
      transport_deliver call_msg call_event (Some a) (received E d w) (word_of_nat (length d)) (after_recv E fd w)"
    using read t sys
    by (simp add: es_transport_ev_def wb ES_TRANSPORT_MAX_BUFFER_SIZE_def after_recv_def Let_def
        transport_cell.load_heap step_simps del: upt_Suc)
  then show ?thesis
    unfolding transport_deliver_def pos cast
    using t by (cases "msg_recv_cb (callbacks t)"; cases "d = []") (simp_all add: transport_cell.load_heap)
qed

text \<open>C21. A datagram shorter than the buffer reaches the layer above unchanged: the message
  callback gets a buffer that begins with the datagram, zero-terminated, and its exact
  length; an empty datagram is not delivered. The event callback follows, with the
  callbacks the context holds by then. Nothing else happens but the one \<^verbatim>\<open>recvfrom\<close>.\<close>

theorem transport_ev_delivers:
  assumes t: "heap w a = Some (C_transport t)" "t_magic t = ES_TRANSPORT_MAGIC"
    and read: "event AND EV_READ \<noteq> 0"
    and d: "d = e_bytes E w (Libc (L_recvfrom fd 2048))" "length d < 2048"
    and ok: "0 \<le> e_int E w (Libc (L_recvfrom fd 2048))"
  shows "\<exists>buf w1. length buf = 2048 \<and> take (length d) buf = d \<and> buf ! length d = 0 \<and>
    heap w1 = heap w \<and> hist w1 = Libc (L_recvfrom fd 2048) # hist w \<and>
    es_transport_ev E call_msg call_event fd event (Some a) w = do {
      w2 \<leftarrow> (case msg_recv_cb (callbacks t) of
              None \<Rightarrow> Some w1
            | Some f \<Rightarrow> if d = [] then Some w1
                else call_msg f (Some a) buf (word_of_nat (length d)) (user_data (callbacks t)) w1);
      t2 \<leftarrow> load as_transport (Some a) w2;
      case event_cb (callbacks t2) of
        None \<Rightarrow> Some w2
      | Some g \<Rightarrow> call_event g (Some a) 1 0 (user_data (callbacks t2)) w2 }"
  using d(2) es_transport_ev_run [OF t read d ok, of call_msg call_event]
  by (intro exI [of _ "received E d w"] exI [of _ "after_recv E fd w"]) simp

text \<open>C29. A datagram that fills the buffer, or a failing \<^verbatim>\<open>recvfrom\<close>, makes the handler write the
  terminating zero outside its 2048-byte array: at index 2048, or at the index that -1
  becomes as a \<^verbatim>\<open>size_t\<close>. The behaviour is undefined whatever the callbacks are.\<close>

theorem transport_ev_overflow:
  assumes t: "heap w a = Some (C_transport t)" "t_magic t = ES_TRANSPORT_MAGIC"
    and read: "event AND EV_READ \<noteq> 0"
    and bad: "e_int E w (Libc (L_recvfrom fd 2048)) < 0 \<or>
              2048 \<le> length (e_bytes E w (Libc (L_recvfrom fd 2048)))"
  shows "es_transport_ev E call_msg call_event fd event (Some a) w = None"
proof -
  have m: "unat (- 1 :: u64) = 18446744073709551615"
    by (simp add: unsigned_minus_1_eq_mask mask_eq_exp_minus_1)
  show ?thesis
  proof (cases "e_int E w (Libc (L_recvfrom fd 2048)) < 0")
    case True
    with read t m show ?thesis
      by (simp add: es_transport_ev_def transport_cell.load_heap sys_recvfrom_def Let_def
          write_byte_def ES_TRANSPORT_MAX_BUFFER_SIZE_def del: upt_Suc)
  next
    case False
    with bad have "min (length (e_bytes E w (Libc (L_recvfrom fd 2048)))) 2048 = 2048" by simp
    with read t False show ?thesis
      by (simp add: es_transport_ev_def transport_cell.load_heap sys_recvfrom_def Let_def
          write_byte_def ES_TRANSPORT_MAX_BUFFER_SIZE_def del: upt_Suc)
  qed
qed

definition one_datagram :: "byte list \<Rightarrow> int \<Rightarrow> env" where
  "one_datagram d r = plain_env\<lparr>e_bytes := (\<lambda>w c. d), e_int := (\<lambda>w c. r)\<rparr>"

lemma EV_READ_AND [simp]: "EV_READ AND EV_READ \<noteq> 0" "(2 :: u16) AND EV_READ \<noteq> 0"
  by (simp_all add: EV_READ_def)

theorem transport_ev_delivers_witness:
  "\<exists>buf w1. take 3 buf = [1, 2, 3 :: byte] \<and>
     es_transport_ev (one_datagram [1, 2, 3] 3) (\<lambda>f p buf n data w. Some w) (\<lambda>f p e r data w. Some w)
       3 EV_READ (Some 100) demo_idle = Some w1 \<and> heap w1 = heap demo_idle"
proof -
  let ?E = "one_datagram [1, 2, 3] 3"
  have t: "heap demo_idle 100 = Some (C_transport demo_transport)" "t_magic demo_transport = ES_TRANSPORT_MAGIC"
    by simp_all
  have d: "[1, 2, 3] = e_bytes ?E demo_idle (Libc (L_recvfrom 3 2048))" "length [1, 2, 3 :: byte] < 2048"
    "0 \<le> e_int ?E demo_idle (Libc (L_recvfrom 3 2048))" by (simp_all add: one_datagram_def)
  from transport_ev_delivers [OF t EV_READ_AND(1) d, of "\<lambda>f p buf n data w. Some w" "\<lambda>f p e r data w. Some w"]
  obtain buf w1 where "take (length [1, 2, 3 :: byte]) buf = [1, 2, 3 :: byte]" "heap w1 = heap demo_idle"
    "es_transport_ev ?E (\<lambda>f p buf n data w. Some w) (\<lambda>f p e r data w. Some w)
       3 EV_READ (Some 100) demo_idle = Some w1"
    by (auto simp: load_def as_transport_def)
  then show ?thesis by (intro exI [of _ buf] exI [of _ w1]) (simp add: numeral_3_eq_3)
qed

theorem transport_ev_overflow_witness:
  "es_transport_ev (one_datagram (replicate 2048 65) 0) (\<lambda>f p buf n data w. Some w)
     (\<lambda>f p e r data w. Some w) 3 EV_READ (Some 100) demo_idle = None"
proof -
  let ?E = "one_datagram (replicate 2048 65) 0"
  have t: "heap demo_idle 100 = Some (C_transport demo_transport)" "t_magic demo_transport = ES_TRANSPORT_MAGIC"
    by simp_all
  have d: "e_int ?E demo_idle (Libc (L_recvfrom 3 2048)) < 0 \<or>
      2048 \<le> length (e_bytes ?E demo_idle (Libc (L_recvfrom 3 2048)))"
    by (simp add: one_datagram_def)
  show ?thesis by (rule transport_ev_overflow [OF t EV_READ_AND(1) d])
qed

text \<open>\<open>es_transport_send\<close> on a live context makes exactly one \<^verbatim>\<open>sendto\<close>, of exactly the
  first \<open>len\<close> bytes, to the given IPv4 address and, in network byte order, to the port
  taken modulo \<open>2 ^ 16\<close>; it answers \<^verbatim>\<open>ES_OK\<close> whatever the kernel says.\<close>

theorem transport_send_datagram:
  assumes "heap w a = Some (C_transport t)" "t_magic t = ES_TRANSPORT_MAGIC" and "len \<le> length msg"
  shows "\<exists>addr. es_transport_send E (Some a) (Some ip) port msg len w =
      Some (ES_OK, did (Libc (L_sendto (udp_socket t) (take len msg) addr)) w) \<and>
    sin_family addr = AF_INET \<and> sin_addr addr = e_inet_addr E ip \<and>
    uint (ntohs (sin_port addr)) = port mod 2 ^ 16"
  using assms
  by (intro exI [of _ "\<lparr>sin_family = AF_INET, sin_port = htons (word_of_int port),
        sin_addr = e_inet_addr E ip\<rparr>"])
    (simp add: es_transport_send_def transport_cell.load_heap Let_def step_simps uint_word_of_int)

theorem transport_send_datagram_witness:
  "\<exists>addr. es_transport_send plain_env (Some 100) (Some ''127.0.0.1'') 65541 [1, 2, 3] 2 demo_idle =
     Some (ES_OK, did (Libc (L_sendto 3 [1, 2] addr)) demo_idle) \<and> uint (ntohs (sin_port addr)) = 5"
proof -
  have t: "heap demo_idle 100 = Some (C_transport demo_transport)" "t_magic demo_transport = ES_TRANSPORT_MAGIC"
    "2 \<le> length [1, 2, 3 :: byte]" by simp_all
  from transport_send_datagram [OF t, of plain_env "''127.0.0.1''" 65541] show ?thesis by auto
qed

text \<open>The type of service that \<open>es_transport_set_dscp\<close> sets is the code point shifted over
  the two congestion bits: four times \<open>dscp mod 64\<close>, a byte whose low two bits are zero,
  for every \<open>dscp\<close> for which the C shift is defined.\<close>

theorem transport_dscp_range:
  assumes "dscp_tos dscp = Some tos"
  shows "unat tos = 4 * (unat dscp mod 64) \<and> unat tos < 256 \<and> tos AND 3 = 0"
proof -
  have tos: "tos = push_bit 2 dscp AND 0xff" using assms by (simp add: dscp_tos_def split: if_splits)
  have mask: "(0xff :: u32) = mask 8" by (simp add: mask_eq_exp_minus_1)
  have "unat tos = (4 * unat dscp) mod 2 ^ 32 mod 2 ^ 8"
    by (simp add: tos mask take_bit_eq_mask [symmetric] unsigned_take_bit_eq push_bit_eq_mult
        unat_word_ariths take_bit_eq_mod mult.commute)
  also have "\<dots> = 4 * (unat dscp mod 64)" by (simp add: mod_mod_cancel mult_mod_right)
  finally have u: "unat tos = 4 * (unat dscp mod 64)" .
  have three: "(3 :: u32) = mask 2" by (simp add: mask_eq_exp_minus_1)
  have "unat (tos AND 3) = unat tos mod 4"
    by (simp add: three take_bit_eq_mask [symmetric] unsigned_take_bit_eq take_bit_eq_mod unat_mod_distrib)
  also have "\<dots> = 0" by (simp add: u)
  finally have "tos AND 3 = 0" by (simp add: unat_eq_zero)
  with u show ?thesis by simp
qed

theorem transport_dscp_range_witness: "dscp_tos 46 = Some 184 \<and> unat (184 :: u32) = 4 * (46 mod 64)"
proof -
  have "dscp_tos 46 = Some 184" by (simp add: dscp_tos_def)
  from transport_dscp_range [OF this] this show ?thesis by simp
qed

end
