(* ===== verification/Es_Msg.thy ===== *)
theory Es_Msg
  imports Es_Log
begin

text \<open>
  SIP messages, \<^verbatim>\<open>src/sip/esomsg.c\<close>: \<open>es_msg_init\<close> builds an empty request, and
  \<open>es_msg_initResponse\<close> builds the response to a request. A message is a block of
  libosip2 whose header parts are blocks of their own; \<open>osip_message_free\<close> releases
  the message with its parts. The texts handed to the library (through \<^verbatim>\<open>osip_strdup\<close>,
  taken as a copy that succeeds) are arguments of the recorded calls.
\<close>

section \<open>Constants\<close>

definition ES_OMSG_MAGIC :: u32 where "ES_OMSG_MAGIC = 0x20140917"
definition PACKAGE :: string where "PACKAGE = ''esip''"
definition PACKAGE_STRING :: string where "PACKAGE_STRING = ''ESip 0.0.1''"

section \<open>Messages of libosip2\<close>

text \<open>What \<^verbatim>\<open>osip_message_init\<close> makes.\<close>

definition empty_message :: osip_message_s where
  "empty_message = \<lparr>m_from = None, m_to = None, m_cseq = None, m_call_id = None, m_vias = []\<rparr>"

definition opt_list :: "'a option \<Rightarrow> 'a list" where
  "opt_list x = (case x of None \<Rightarrow> [] | Some a \<Rightarrow> [a])"

definition message_blocks :: "ptr \<Rightarrow> osip_message_s \<Rightarrow> ptr list" where
  "message_blocks b m = b # opt_list (m_from m) @ opt_list (m_to m) @ opt_list (m_cseq m)
     @ opt_list (m_call_id m) @ m_vias m"

definition osip_message_free :: "cptr \<Rightarrow> world \<Rightarrow> world option" where
  "osip_message_free p w = do {
     m \<leftarrow> load as_sip p w;
     Some (drop_cells (message_blocks (the p) m) (did (Omsg (M_free p)) w)) }"

text \<open>A header part that is made, or copied from another message: with code 0 the
  library stores the new block through its pointer argument.\<close>

definition hdr_init :: "env \<Rightarrow> hdr \<Rightarrow> world \<Rightarrow> (int \<times> cptr) run" where
  "hdr_init E h w = ext_new_st E (Omsg (M_hdr_init h)) (C_hdr h) w"

definition hdr_clone :: "env \<Rightarrow> hdr \<Rightarrow> cptr \<Rightarrow> world \<Rightarrow> (int \<times> cptr) run" where
  "hdr_clone E h p w = ext_new_st E (Omsg (M_hdr_clone h p)) (C_hdr h) w"

section \<open>An empty request\<close>

text \<open>The rungs of the error ladder: both blocks are released.\<close>

definition msg_init_fail :: "env \<Rightarrow> nat \<Rightarrow> ptr \<Rightarrow> ptr \<Rightarrow> world \<Rightarrow> (es_status \<times> cptr) run" where
  "msg_init_fail E line b a w = do {
     w \<leftarrow> esip_trace E ESIP_LOG_ERROR ''es_msg_init'' line w;
     w \<leftarrow> osip_message_free (Some b) w;
     w \<leftarrow> cfree (Some a) w;
     Some ((ES_ERROR_OUTOFRESOURCES, None), w) }"

text \<open>The header parts and the user agent, with the context at \<open>a\<close> and the message at \<open>b\<close>.\<close>

definition msg_init_parts :: "env \<Rightarrow> ptr \<Rightarrow> ptr \<Rightarrow> world \<Rightarrow> (es_status \<times> cptr) run" where
  "msg_init_parts E b a w = do {
    ((r, via), w) \<leftarrow> hdr_init E Hdr_via w;
    if r \<noteq> OSIP_SUCCESS then msg_init_fail E 76 b a w
    else do {
      let (r, vs) = l_add E w [] via (- 1);
      let m = empty_message\<lparr>m_vias := vs\<rparr>;
      let w = put b (C_sip m) w;
      if r \<noteq> OSIP_SUCCESS then msg_init_fail E 83 b a w
      else do {
        ((r, h), w) \<leftarrow> hdr_init E Hdr_from w;
        let m = m\<lparr>m_from := h\<rparr>;
        let w = put b (C_sip m) w;
        if r \<noteq> OSIP_SUCCESS then msg_init_fail E 92 b a w
        else do {
          ((r, h), w) \<leftarrow> hdr_init E Hdr_to w;
          let m = m\<lparr>m_to := h\<rparr>;
          let w = put b (C_sip m) w;
          if r \<noteq> OSIP_SUCCESS then msg_init_fail E 100 b a w
          else do {
            ((r, h), w) \<leftarrow> hdr_init E Hdr_cseq w;
            let m = m\<lparr>m_cseq := h\<rparr>;
            let w = put b (C_sip m) w;
            if r \<noteq> OSIP_SUCCESS then msg_init_fail E 108 b a w
            else do {
              ((r, h), w) \<leftarrow> hdr_init E Hdr_call_id w;
              let m = m\<lparr>m_call_id := h\<rparr>;
              let w = put b (C_sip m) w;
              if r \<noteq> OSIP_SUCCESS then msg_init_fail E 116 b a w
              else do {
                (r, w) \<leftarrow> ext_int E (Omsg (M_set_user_agent (Some b) PACKAGE_STRING)) w;
                if r \<noteq> OSIP_SUCCESS then msg_init_fail E 124 b a w
                else Some ((ES_OK, Some a),
                       put a (C_msg \<lparr>m_magic = ES_OMSG_MAGIC, omsg = Some b\<rparr>) w)
              } } } } } } }"

text \<open>The member \<^verbatim>\<open>omsg\<close> is indeterminate until the last statement assigns it, and is not
  read before that.\<close>

definition es_msg_init :: "env \<Rightarrow> world \<Rightarrow> (es_status \<times> cptr) run" where
  "es_msg_init E w = do {
     (p, w) \<leftarrow> malloc E B_msg w;
     case p of
       None \<Rightarrow> do {
         w \<leftarrow> esip_trace E ESIP_LOG_ERROR ''es_msg_init'' 51 w;
         Some ((ES_ERROR_OUTOFRESOURCES, None), w) }
     | Some a \<Rightarrow> do {
         let w = put a (C_msg \<lparr>m_magic = ES_OMSG_MAGIC, omsg = None\<rparr>) w;
         ((r, pm), w) \<leftarrow> ext_new_st E (Omsg M_init) (C_sip empty_message) w;
         case pm of
           None \<Rightarrow> do {
             w \<leftarrow> esip_trace E ESIP_LOG_ERROR ''es_msg_init'' 62 w;
             w \<leftarrow> cfree (Some a) w;
             Some ((ES_ERROR_OUTOFRESOURCES, None), w) }
         | Some b \<Rightarrow> do {
             w \<leftarrow> ext_do (Omsg (M_set_version pm ''SIP/2.0'')) w;
             w \<leftarrow> ext_do (Omsg (M_set_max_forwards pm ''70'')) w;
             msg_init_parts E b a w } } }"

section \<open>The response to a request\<close>

text \<open>The loop over the Via headers. \<^verbatim>\<open>osip_list_add\<close>'s answer is not looked at. The result
  says whether the loop went through, or freed the response and returned.\<close>

partial_function (option) copy_vias :: "env \<Rightarrow> cptr \<Rightarrow> int \<Rightarrow> ptr \<Rightarrow> world \<Rightarrow> bool run" where
  "copy_vias E req pos b w = do {
     rq \<leftarrow> load as_sip req w;
     if l_eol E (m_vias rq) pos then Some (True, w)
     else do {
       ((r, via2), w) \<leftarrow> hdr_clone E Hdr_via (l_get E (m_vias rq) pos) w;
       if r \<noteq> OSIP_SUCCESS then do {
         w \<leftarrow> esip_trace E ESIP_LOG_ERROR ''es_msg_initResponse'' 215 w;
         w \<leftarrow> osip_message_free (Some b) w;
         Some (False, w) }
       else do {
         m \<leftarrow> load as_sip (Some b) w;
         let w = put b (C_sip (m\<lparr>m_vias := snd (l_add E w (m_vias m) via2 (- 1))\<rparr>)) w;
         copy_vias E req (pos + 1) b w } } }"

text \<open>
  The tag of the To header. libosip2's accessors take the address of a member of the
  header they are given, so a null header, which a failed \<^verbatim>\<open>osip_to_clone\<close> leaves, is
  undefined behaviour. The random number is unsigned and is printed as an \<^verbatim>\<open>int\<close>.
\<close>

definition set_to_tag :: "env \<Rightarrow> cptr \<Rightarrow> world \<Rightarrow> world option" where
  "set_to_tag E to w =
     (if to = None then None
      else do {
        (tag, w) \<leftarrow> ext_ptr E (Omsg (M_to_get_tag to)) w;
        if tag = None then do {
          (r, w) \<leftarrow> ext_int E (Omsg M_random) w;
          let random_tag = (word_of_int r :: u32);
          ext_do (Omsg (M_to_set_tag to (dec_int (sint random_tag)))) w }
        else Some w })"

definition response_fail :: "env \<Rightarrow> nat \<Rightarrow> ptr \<Rightarrow> world \<Rightarrow> (es_status \<times> cptr) run" where
  "response_fail E line b w = do {
     w \<leftarrow> esip_trace E ESIP_LOG_ERROR ''es_msg_initResponse'' line w;
     w \<leftarrow> osip_message_free (Some b) w;
     Some ((ES_ERROR_OUTOFRESOURCES, None), w) }"

definition set_status :: "env \<Rightarrow> cptr \<Rightarrow> int \<Rightarrow> world \<Rightarrow> world option" where
  "set_status E pm respCode w =
     (if respCode > 0 then do {
        w \<leftarrow> ext_do (Omsg (M_set_status pm respCode)) w;
        ext_do (Omsg (M_set_reason pm (e_reason E respCode))) w }
      else Some w)"

definition set_names :: "cptr \<Rightarrow> world \<Rightarrow> world option" where
  "set_names pm w = do {
     w \<leftarrow> ext_do (Omsg (M_set_user_agent pm PACKAGE)) w;
     w \<leftarrow> ext_do (Omsg (M_set_organization pm PACKAGE_STRING)) w;
     w \<leftarrow> ext_do (Omsg (M_set_subject pm (''Testing with '' @ PACKAGE_STRING))) w;
     ext_do (Omsg (M_set_server pm (PACKAGE_STRING @ '' Server''))) w }"

text \<open>The headers, with the request's message \<open>rq\<close> at \<open>req\<close> and the response at \<open>b\<close>. Only two of
  the four clones are looked at.\<close>

definition response_headers ::
  "env \<Rightarrow> int \<Rightarrow> cptr \<Rightarrow> osip_message_s \<Rightarrow> ptr \<Rightarrow> world \<Rightarrow> (es_status \<times> cptr) run" where
  "response_headers E respCode req rq b w = do {
    w \<leftarrow> ext_do (Omsg (M_set_version (Some b) ''SIP/2.0'')) w;
    w \<leftarrow> ext_do (Omsg (M_set_max_forwards (Some b) ''70'')) w;
    w \<leftarrow> set_status E (Some b) respCode w;
    ((r, h), w) \<leftarrow> hdr_clone E Hdr_from (m_from rq) w;
    let m = empty_message\<lparr>m_from := h\<rparr>;
    let w = put b (C_sip m) w;
    ((r, h), w) \<leftarrow> hdr_clone E Hdr_to (m_to rq) w;
    let m = m\<lparr>m_to := h\<rparr>;
    let w = put b (C_sip m) w;
    w \<leftarrow> set_to_tag E h w;
    ((r, h), w) \<leftarrow> hdr_clone E Hdr_cseq (m_cseq rq) w;
    let m = m\<lparr>m_cseq := h\<rparr>;
    let w = put b (C_sip m) w;
    if r \<noteq> OSIP_SUCCESS then response_fail E 194 b w
    else do {
      ((r, h), w) \<leftarrow> hdr_clone E Hdr_call_id (m_call_id rq) w;
      let m = m\<lparr>m_call_id := h\<rparr>;
      let w = put b (C_sip m) w;
      if r \<noteq> OSIP_SUCCESS then response_fail E 201 b w
      else do {
        (ok, w) \<leftarrow> copy_vias E req 0 b w;
        if \<not> ok then Some ((ES_ERROR_OUTOFRESOURCES, None), w)
        else do {
          w \<leftarrow> set_names (Some b) w;
          Some ((ES_OK, Some b), w) } } } }"

definition es_msg_initResponse :: "env \<Rightarrow> int \<Rightarrow> cptr \<Rightarrow> world \<Rightarrow> (es_status \<times> cptr) run" where
  "es_msg_initResponse E respCode req w =
     (if req = None then Some ((ES_ERROR_OUTOFRESOURCES, None), w)
      else do {
        rq \<leftarrow> load as_sip req w;
        if m_to rq = None then do {
          w \<leftarrow> esip_trace E ESIP_LOG_ERROR ''es_msg_initResponse'' 148 w;
          Some ((ES_ERROR_NULLPTR, None), w) }
        else if m_from rq = None then do {
          w \<leftarrow> esip_trace E ESIP_LOG_ERROR ''es_msg_initResponse'' 152 w;
          Some ((ES_ERROR_NULLPTR, None), w) }
        else do {
          ((r, pm), w) \<leftarrow> ext_new_st E (Omsg M_init) (C_sip empty_message) w;
          case pm of
            None \<Rightarrow> do {
              w \<leftarrow> esip_trace E ESIP_LOG_ERROR ''es_msg_initResponse'' 159 w;
              Some ((ES_ERROR_OUTOFRESOURCES, None), w) }
          | Some b \<Rightarrow> response_headers E respCode req rq b w } })"

section \<open>The steps\<close>

lemma hdr_initD:
  "hdr_init E h w = Some ((r, p), w') \<Longrightarrow>
     (r = 0 \<and> p = Some (brk w) \<and> w' = new_cell (C_hdr h) (did (Omsg (M_hdr_init h)) w)) \<or>
     (r \<noteq> 0 \<and> p = None \<and> w' = did (Omsg (M_hdr_init h)) w)"
  by (simp add: hdr_init_def ext_new_stD)

lemma hdr_cloneD:
  "hdr_clone E h q w = Some ((r, p), w') \<Longrightarrow>
     (r = 0 \<and> p = Some (brk w) \<and> w' = new_cell (C_hdr h) (did (Omsg (M_hdr_clone h q)) w)) \<or>
     (r \<noteq> 0 \<and> p = None \<and> w' = did (Omsg (M_hdr_clone h q)) w)"
  by (simp add: hdr_clone_def ext_new_stD)

lemma osip_message_freeD:
  "osip_message_free (Some b) w = Some w' \<Longrightarrow>
     \<exists>m. heap w b = Some (C_sip m) \<and> w' = drop_cells (message_blocks b m) (did (Omsg (M_free (Some b))) w)"
  unfolding osip_message_free_def by (elim run_elims) (simp add: sip_cell.load_iff)

lemma osip_message_free_live:
  "heap w b = Some (C_sip m) \<Longrightarrow>
     osip_message_free (Some b) w = Some (drop_cells (message_blocks b m) (did (Omsg (M_free (Some b))) w))"
  by (simp add: osip_message_free_def sip_cell.load_heap)

lemma opt_list_simps [simp]: "opt_list None = []" "opt_list (Some a) = [a]"
  by (simp_all add: opt_list_def)

lemma msg_init_failD:
  "msg_init_fail E line b a w = Some (x, w') \<Longrightarrow>
    \<exists>m. heap w b = Some (C_sip m) \<and> x = (ES_ERROR_OUTOFRESOURCES, None) \<and>
      brk w' = brk w \<and> fds w' = fds w \<and> dlog w' = dlog w \<and>
      heap w' = (\<lambda>y. if y = a \<or> y \<in> set (message_blocks b m) then None else heap w y)"
  unfolding msg_init_fail_def
  by (elim run_elims; clarsimp simp: fun_eq_iff dest!: run_dests esip_traceD osip_message_freeD)

lemmas msg_dests = run_dests esip_traceD ext_new_stD hdr_initD hdr_cloneD

section \<open>What \<open>es_msg_init\<close> does\<close>

text \<open>The message of a new context, in a state whose next fresh addresses begin at \<open>n\<close>:
  the context, the message, and its five parts.\<close>

definition new_message :: "nat \<Rightarrow> ptr list \<Rightarrow> osip_message_s" where
  "new_message n vias = \<lparr>m_from = Some (n + 3), m_to = Some (n + 4), m_cseq = Some (n + 5),
     m_call_id = Some (n + 6), m_vias = vias\<rparr>"

lemma osip_message_free_defined:
  "osip_message_free (Some b) w \<noteq> None \<longleftrightarrow> (\<exists>m. heap w b = Some (C_sip m))"
  by (auto simp: osip_message_free_def sip_cell.load_iff sip_cell.load_heap split: bind_splits)

lemma hdr_defined [simp]: "hdr_init E h w \<noteq> None" "hdr_clone E h p w \<noteq> None"
  by (simp_all add: hdr_init_def hdr_clone_def)

text \<open>
  The states \<open>v\<close> that the construction of a message at \<open>b\<close> goes through from \<open>w\<close>:
  everything that is new is one of the blocks \<open>X\<close>, the message or one of its parts,
  but for the Via headers \<open>L\<close> that a list refused and that nothing owns.
\<close>

definition msg_stage :: "world \<Rightarrow> ptr set \<Rightarrow> ptr \<Rightarrow> (ptr \<rightharpoonup> cell) \<Rightarrow> osip_message_s \<Rightarrow> world \<Rightarrow> bool" where
  "msg_stage w X b L m v \<longleftrightarrow> heap_ok w \<and> fds v = fds w \<and> dlog v = dlog w \<and>
     heap v b = Some (C_sip m) \<and> (\<forall>y\<in>X. heap v y \<noteq> None) \<and> X \<inter> set (message_blocks b m) = {} \<and>
     (\<forall>y. y \<in> X \<union> set (message_blocks b m) \<or> heap v y = (heap w ++ L) y) \<and>
     (\<forall>y \<in> X \<union> set (message_blocks b m). brk w \<le> y \<and> y < brk v \<and> L y = None) \<and>
     (\<forall>y. L y \<noteq> None \<longrightarrow> L y = Some (C_hdr Hdr_via) \<and> brk w \<le> y \<and> y < brk v)"

lemma msg_stage_call [simp]:
  "msg_stage w X b L m (did c v) = msg_stage w X b L m v"
  "msg_stage w X b L m (wrote s v) = msg_stage w X b L m v"
  by (simp_all add: msg_stage_def)

lemma msg_stage_bounds:
  assumes "msg_stage w X b L m v"
  shows "brk w \<le> brk v" and "heap_ok v"
proof -
  have "b \<in> set (message_blocks b m)" by (simp add: message_blocks_def)
  with assms have "brk w \<le> b" "b < brk v" by (auto simp: msg_stage_def)
  then show le: "brk w \<le> brk v" by linarith
  show "heap_ok v" unfolding heap_ok_def
  proof (intro allI impI)
    fix y assume y: "brk v \<le> y"
    with assms have "y \<notin> X \<union> set (message_blocks b m)" "L y = None"
      by (auto simp: msg_stage_def not_less [symmetric])
    with assms y le show "heap v y = None" by (auto simp: msg_stage_def heap_ok_def map_add_def)
  qed
qed

lemma msg_stage_free:
  assumes "msg_stage w X b L m v"
  shows "\<exists>v'. osip_message_free (Some b) v = Some v' \<and> brk v' = brk v \<and> heap_ok v' \<and> fds v' = fds w \<and> dlog v' = dlog w \<and>
    hist v' = Omsg (M_free (Some b)) # hist v \<and>
    heap v' = (\<lambda>y. if y \<in> X then heap v y else (heap w ++ L) y)"
proof -
  have "(if y \<in> set (message_blocks b m) then None else heap v y) =
      (if y \<in> X then heap v y else (heap w ++ L) y)" for y
    using assms by (auto simp: msg_stage_def heap_ok_def map_add_def)
  then have "(\<lambda>y. if y \<in> set (message_blocks b m) then None else heap v y) =
      (\<lambda>y. if y \<in> X then heap v y else (heap w ++ L) y)" by (rule ext)
  moreover have "heap v b = Some (C_sip m)" "fds v = fds w" "dlog v = dlog w"
    using assms by (simp_all add: msg_stage_def)
  moreover have "heap_ok (drop_cells (message_blocks b m) (did (Omsg (M_free (Some b))) v))"
    using msg_stage_bounds(2) [OF assms] by (intro heap_ok_keep)
  ultimately show ?thesis by (simp add: osip_message_free_live cong: if_cong)
qed

lemma if_None_triv: "g a = None \<Longrightarrow> (\<lambda>y. if y \<in> {a} then f y else g y)(a := None) = g"
  by auto

text \<open>The ladder of \<open>es_msg_init\<close>: the context is the block at \<open>brk w\<close>, the message the next.\<close>

lemma msg_stage_start:
  "heap_ok w \<Longrightarrow> msg_stage w {brk w} (Suc (brk w)) Map.empty empty_message
     (new_cell (C_sip empty_message) (did c (put (brk w) x (new_cell y (did c' w)))))"
  by (auto simp: msg_stage_def message_blocks_def empty_message_def)

lemma msg_stage_fail:
  assumes "msg_init_fail E line b (brk w) v = Some (x, w')" and "msg_stage w {brk w} b L m v"
  shows "x = (ES_ERROR_OUTOFRESOURCES, None) \<and> heap w' = heap w ++ L \<and> brk w' = brk v \<and> fds w' = fds w \<and> dlog w' = dlog w"
proof -
  from assms(2) have "(heap w ++ L) (brk w) = None"
    by (simp add: msg_stage_def heap_ok_def map_add_def)
  note triv = if_None_triv [of "heap w ++ L", OF this]
  obtain v1 s where free: "osip_message_free (Some b) (wrote s v) = Some v1"
    and w': "cfree (Some (brk w)) v1 = Some w'" and x: "x = (ES_ERROR_OUTOFRESOURCES, None)"
    using assms(1) unfolding msg_init_fail_def by (elim run_elims) (auto dest!: esip_traceD)
  from msg_stage_free [of w "{brk w}" b L m "wrote s v"] assms(2) free
  have v1: "heap v1 = (\<lambda>y. if y \<in> {brk w} then heap (wrote s v) y else (heap w ++ L) y)"
    "brk v1 = brk v" "fds v1 = fds w" "dlog v1 = dlog w" by auto
  have "heap w' = (heap v1)(brk w := None)" using cfreeD [OF w'] by simp
  then have "heap w' = heap w ++ L" unfolding v1(1) triv .
  then show ?thesis using cfreeD [OF w'] v1(2-4) x by simp
qed

lemma msg_stage_fail_defined:
  assumes "msg_stage w {brk w} b L m v"
  shows "\<exists>st p w'. msg_init_fail E line b (brk w) v = Some ((st, p), w')"
proof -
  let ?v = "wrote (trace_text E v ESIP_LOG_ERROR ''es_msg_init'' line) v"
  from msg_stage_free [of w "{brk w}" b L m ?v] assms obtain v' where
    "osip_message_free (Some b) ?v = Some v'" "heap v' (brk w) = heap v (brk w)" by auto
  moreover have "heap v (brk w) \<noteq> None" using assms by (simp add: msg_stage_def)
  ultimately show ?thesis by (auto simp: msg_init_fail_def esip_trace_eval cfree_def)
qed

text \<open>One header part more, or one that could not be made.\<close>

lemma msg_stage_new:
  assumes "msg_stage w X b L m v"
    and "set (message_blocks b m') = insert (brk v) (set (message_blocks b m))"
  shows "msg_stage w X b L m' (put b (C_sip m') (new_cell (C_hdr h) (did c v)))"
proof -
  have b: "b \<in> set (message_blocks b m)" by (simp add: message_blocks_def)
  with assms(1) have "brk w \<le> b" "b < brk v" "L (brk v) = None" "brk v \<notin> X" "b \<notin> X"
    by (auto simp: msg_stage_def)
  note new = this and le = order_trans [OF this(1) less_imp_le [OF this(2)]]
  show ?thesis using new(3-5) b assms by (auto simp: msg_stage_def less_SucI intro: le)
qed

lemma msg_stage_same:
  assumes "msg_stage w X b L m v" and "set (message_blocks b m') = set (message_blocks b m)"
  shows "msg_stage w X b L m' (put b (C_sip m') v)"
proof -
  have b: "b \<in> set (message_blocks b m)" by (simp add: message_blocks_def)
  with assms(1) have "b \<notin> X" by (auto simp: msg_stage_def)
  with b assms show ?thesis by (auto simp: msg_stage_def)
qed

lemma msg_stage_part:
  assumes "hdr_init E h v = Some ((r, p), v')" and "msg_stage w X b L m v"
    and "set (message_blocks b m') = set (message_blocks b m) \<union> set_option p"
  shows "msg_stage w X b L m' (put b (C_sip m') v')"
  using hdr_initD [OF assms(1)]
proof (elim disjE conjE)
  assume "p = Some (brk v)" and "v' = new_cell (C_hdr h) (did (Omsg (M_hdr_init h)) v)"
  then show ?thesis using msg_stage_new [OF assms(2)] assms(3) by simp
next
  assume "p = None" and "v' = did (Omsg (M_hdr_init h)) v"
  then show ?thesis using msg_stage_same [of w X b L m v'] assms(2,3) by simp
qed

lemma msg_stage_headers:
  "hdr_init E Hdr_from v = Some ((r, h), v') \<Longrightarrow> msg_stage w X b L m v \<Longrightarrow> m_from m = None \<Longrightarrow>
     msg_stage w X b L (m\<lparr>m_from := h\<rparr>) (put b (C_sip (m\<lparr>m_from := h\<rparr>)) v')"
  "hdr_init E Hdr_to v = Some ((r, h), v') \<Longrightarrow> msg_stage w X b L m v \<Longrightarrow> m_to m = None \<Longrightarrow>
     msg_stage w X b L (m\<lparr>m_to := h\<rparr>) (put b (C_sip (m\<lparr>m_to := h\<rparr>)) v')"
  "hdr_init E Hdr_cseq v = Some ((r, h), v') \<Longrightarrow> msg_stage w X b L m v \<Longrightarrow> m_cseq m = None \<Longrightarrow>
     msg_stage w X b L (m\<lparr>m_cseq := h\<rparr>) (put b (C_sip (m\<lparr>m_cseq := h\<rparr>)) v')"
  "hdr_init E Hdr_call_id v = Some ((r, h), v') \<Longrightarrow> msg_stage w X b L m v \<Longrightarrow> m_call_id m = None \<Longrightarrow>
     msg_stage w X b L (m\<lparr>m_call_id := h\<rparr>) (put b (C_sip (m\<lparr>m_call_id := h\<rparr>)) v')"
  by ((erule (1) msg_stage_part; cases h; auto simp: message_blocks_def)[1])+

lemma msg_stage_failed_part:
  "hdr_init E h v = Some ((r, p), v') \<Longrightarrow> msg_stage w X b L m v \<Longrightarrow> r \<noteq> 0 \<Longrightarrow> msg_stage w X b L m v'"
  by (auto dest: hdr_initD)

lemma msg_stage_int: "ext_int E c v = Some (r, v') \<Longrightarrow> msg_stage w X b L m v \<Longrightarrow> msg_stage w X b L m v'"
  by (auto dest: ext_intD)

definition via_refused :: "env \<Rightarrow> ptr \<Rightarrow> bool" where
  "via_refused E a \<longleftrightarrow> (\<exists>v. fst (l_add E v [] (Some a) (- 1)) < 0)"

text \<open>The Via header: a list that refuses it leaves a block that nothing owns.\<close>

lemma msg_stage_via:
  assumes laws: "osip_list_laws E" and stage: "msg_stage w X b Map.empty empty_message v"
    and via: "hdr_init E Hdr_via v = Some ((0, p), v1)" and add: "l_add E v1 [] p (- 1) = (n, vs)"
  shows "\<exists>L. (L = Map.empty \<or> via_refused E (brk v) \<and> L = [brk v \<mapsto> C_hdr Hdr_via]) \<and>
    msg_stage w X b L (empty_message\<lparr>m_vias := vs\<rparr>) (put b (C_sip (empty_message\<lparr>m_vias := vs\<rparr>)) v1)"
proof -
  from hdr_initD [OF via] have v1: "p = Some (brk v)" "v1 = new_cell (C_hdr Hdr_via) (did (Omsg (M_hdr_init Hdr_via)) v)"
    by auto
  have add': "l_add E v1 [] (Some (brk v)) (- 1) = (n, vs)" using add v1 by simp
  show ?thesis
  proof (cases "n < 0")
    case True
    then have vs: "vs = []" using l_add_endD [OF laws add'] by simp
    have "via_refused E (brk v)" unfolding via_refused_def using add' True by (metis fst_conv)
    moreover have "msg_stage w X b [brk v \<mapsto> C_hdr Hdr_via] (empty_message\<lparr>m_vias := vs\<rparr>)
        (put b (C_sip (empty_message\<lparr>m_vias := vs\<rparr>)) v1)"
      using stage by (auto simp: v1 vs msg_stage_def message_blocks_def empty_message_def)
    ultimately show ?thesis by blast
  next
    case False
    then have vs: "vs = [brk v]" using l_add_endD [OF laws add'] by simp
    have "msg_stage w X b Map.empty (empty_message\<lparr>m_vias := vs\<rparr>)
        (put b (C_sip (empty_message\<lparr>m_vias := vs\<rparr>)) v1)"
      by (rule msg_stage_part [OF via stage]) (auto simp: vs v1 message_blocks_def empty_message_def)
    then show ?thesis by blast
  qed
qed


lemma msg_init_parts_error:
  assumes laws: "osip_list_laws E"
  shows "msg_init_parts E (Suc (brk w)) (brk w) v = Some ((st, p), w') \<Longrightarrow> st \<noteq> ES_OK \<Longrightarrow>
    msg_stage w {brk w} (Suc (brk w)) Map.empty empty_message v \<Longrightarrow>
    st = ES_ERROR_OUTOFRESOURCES \<and> p = None \<and> fds w' = fds w \<and> dlog w' = dlog w \<and>
    (heap w' = heap w \<or> heap w' = (heap w)(brk v \<mapsto> C_hdr Hdr_via) \<and> via_refused E (brk v))"
  unfolding msg_init_parts_def
  by (elim run_elims; clarsimp; (drule (2) msg_stage_via [OF laws], clarsimp)?;
      (drule (1) msg_stage_headers(1), simp add: empty_message_def)?;
      (drule (1) msg_stage_headers(2), simp add: empty_message_def)?;
      (drule (1) msg_stage_headers(3), simp add: empty_message_def)?;
      (drule (1) msg_stage_headers(4), simp add: empty_message_def)?;
      (drule (2) msg_stage_failed_part)?; (drule (1) msg_stage_int)?; drule (1) msg_stage_fail; auto)

lemma msg_init_parts_defined:
  assumes laws: "osip_list_laws E"
  shows "msg_stage w {brk w} (Suc (brk w)) Map.empty empty_message v \<Longrightarrow> msg_init_parts E (Suc (brk w)) (brk w) v \<noteq> None"
  unfolding msg_init_parts_def
  by (intro run_intros; (simp; fail)?; clarsimp; (drule (2) msg_stage_via [OF laws], clarsimp)?;
      (drule (1) msg_stage_headers(1), simp add: empty_message_def)?;
      (drule (1) msg_stage_headers(2), simp add: empty_message_def)?;
      (drule (1) msg_stage_headers(3), simp add: empty_message_def)?;
      (drule (1) msg_stage_headers(4), simp add: empty_message_def)?;
      (drule (2) msg_stage_failed_part)?; (drule (1) msg_stage_int)?; erule msg_stage_fail_defined)

lemma msg_init_parts_returns:
  "osip_list_laws E \<Longrightarrow> msg_stage w {brk w} (Suc (brk w)) Map.empty empty_message v \<Longrightarrow>
    \<exists>st p w'. msg_init_parts E (Suc (brk w)) (brk w) v = Some ((st, p), w')"
  using msg_init_parts_defined [of E w v] by auto

lemma es_msg_init_error:
  assumes laws: "osip_list_laws E" and ok: "heap_ok w"
  shows "es_msg_init E w = Some ((st, p), w') \<Longrightarrow> st \<noteq> ES_OK \<Longrightarrow>
    st = ES_ERROR_OUTOFRESOURCES \<and> p = None \<and> fds w' = fds w \<and> dlog w' = dlog w \<and>
    (heap w' = heap w \<or>
     heap w' = (heap w)(brk w + 2 \<mapsto> C_hdr Hdr_via) \<and> via_refused E (brk w + 2))"
  unfolding es_msg_init_def
  by (elim run_elims; clarsimp simp: heap_ok_fresh [OF ok] fun_upd_idem_iff dest!: run_dests ext_new_stD esip_traceD;
      (drule msg_init_parts_error [OF laws]; simp add: msg_stage_start [OF ok])?)

lemma es_msg_init_returns:
  assumes "osip_list_laws E" and ok: "heap_ok w"
  shows "es_msg_init E w \<noteq> None"
  unfolding es_msg_init_def
  apply (intro run_intros; (simp; fail)?)
   apply (clarsimp simp: cfree_def dest!: run_dests ext_new_stD esip_traceD)
  by (clarsimp dest!: run_dests ext_new_stD; rule msg_init_parts_returns [OF assms(1)]; simp add: msg_stage_start [OF ok])

lemma es_msg_init_OK:
  "es_msg_init E w = Some ((ES_OK, p), w') \<Longrightarrow>
    \<exists>vs. p = Some (brk w) \<and> brk w' = brk w + 7 \<and> fds w' = fds w \<and> dlog w' = dlog w \<and>
      heap w' = (heap w)(brk w \<mapsto> C_msg \<lparr>m_magic = ES_OMSG_MAGIC, omsg = Some (brk w + 1)\<rparr>,
        brk w + 1 \<mapsto> C_sip (new_message (brk w) vs),
        brk w + 2 \<mapsto> C_hdr Hdr_via, brk w + 3 \<mapsto> C_hdr Hdr_from, brk w + 4 \<mapsto> C_hdr Hdr_to,
        brk w + 5 \<mapsto> C_hdr Hdr_cseq, brk w + 6 \<mapsto> C_hdr Hdr_call_id) \<and>
      (\<exists>w1. l_add E w1 [] (Some (brk w + 2)) (- 1) = (0, vs))"
  unfolding es_msg_init_def msg_init_parts_def msg_init_fail_def
  by (elim run_elims; clarsimp simp: new_message_def empty_message_def numeral_eq_Suc dest!: msg_dests;
      force)

section \<open>What \<open>es_msg_initResponse\<close> does\<close>

text \<open>The Via headers that a run has cloned, the first one first.\<close>

fun cloned_vias :: "call list \<Rightarrow> cptr list" where
  "cloned_vias [] = []"
| "cloned_vias (c # cs) = cloned_vias cs @
     (case c of Omsg (M_hdr_clone Hdr_via q) \<Rightarrow> [q] | _ \<Rightarrow> [])"

definition list_accepts :: "env \<Rightarrow> bool" where
  "list_accepts E \<longleftrightarrow> (\<forall>v xs a. 0 \<le> fst (l_add E v xs (Some a) (- 1)))"

lemma msg_stage_request:
  assumes "msg_stage w X b L m v" and "heap w r = Some x" and "heap_ok w"
  shows "heap v r = Some x" and "r \<noteq> b"
proof -
  have "r < brk w" using heap_ok_live [OF assms(3,2)] .
  then have "r \<notin> X \<union> set (message_blocks b m)" "L r = None"
    using assms(1) by (auto simp: msg_stage_def not_le [symmetric])
  moreover have "b \<in> set (message_blocks b m)" by (simp add: message_blocks_def)
  ultimately show "heap v r = Some x" "r \<noteq> b"
    using assms(1,2) by (auto simp: msg_stage_def map_add_def)
qed

lemma msg_stage_clone:
  assumes "hdr_clone E h q v = Some ((r, p), v')" and "msg_stage w X b L m v"
    and "set (message_blocks b m') = set (message_blocks b m) \<union> set_option p"
  shows "msg_stage w X b L m' (put b (C_sip m') v')"
  using hdr_cloneD [OF assms(1)]
proof (elim disjE conjE)
  assume "p = Some (brk v)" and "v' = new_cell (C_hdr h) (did (Omsg (M_hdr_clone h q)) v)"
  then show ?thesis using msg_stage_new [OF assms(2)] assms(3) by simp
next
  assume "p = None" and "v' = did (Omsg (M_hdr_clone h q)) v"
  then show ?thesis using msg_stage_same [of w X b L m v'] assms(2,3) by simp
qed

lemma msg_stage_clones:
  "hdr_clone E Hdr_from q v = Some ((r, h), v') \<Longrightarrow> msg_stage w X b L m v \<Longrightarrow> m_from m = None \<Longrightarrow>
     msg_stage w X b L (m\<lparr>m_from := h\<rparr>) (put b (C_sip (m\<lparr>m_from := h\<rparr>)) v')"
  "hdr_clone E Hdr_to q v = Some ((r, h), v') \<Longrightarrow> msg_stage w X b L m v \<Longrightarrow> m_to m = None \<Longrightarrow>
     msg_stage w X b L (m\<lparr>m_to := h\<rparr>) (put b (C_sip (m\<lparr>m_to := h\<rparr>)) v')"
  "hdr_clone E Hdr_cseq q v = Some ((r, h), v') \<Longrightarrow> msg_stage w X b L m v \<Longrightarrow> m_cseq m = None \<Longrightarrow>
     msg_stage w X b L (m\<lparr>m_cseq := h\<rparr>) (put b (C_sip (m\<lparr>m_cseq := h\<rparr>)) v')"
  "hdr_clone E Hdr_call_id q v = Some ((r, h), v') \<Longrightarrow> msg_stage w X b L m v \<Longrightarrow> m_call_id m = None \<Longrightarrow>
     msg_stage w X b L (m\<lparr>m_call_id := h\<rparr>) (put b (C_sip (m\<lparr>m_call_id := h\<rparr>)) v')"
  by ((erule (1) msg_stage_clone; cases h; auto simp: message_blocks_def)[1])+

text \<open>One more Via: appended to the response, or left over when the list refuses it.\<close>

lemma msg_stage_via_clone:
  assumes laws: "osip_list_laws E" and stage: "msg_stage w X b L m v"
    and clone: "hdr_clone E Hdr_via q v = Some ((0, p), v1)"
  shows "p = Some (brk v) \<and> brk v1 = Suc (brk v) \<and> heap v1 b = Some (C_sip m) \<and>
    cloned_vias (hist v1) = cloned_vias (hist v) @ [q] \<and>
    (\<exists>L' vs. snd (l_add E v1 (m_vias m) p (- 1)) = m_vias m @ vs \<and>
       msg_stage w X b L' (m\<lparr>m_vias := m_vias m @ vs\<rparr>) (put b (C_sip (m\<lparr>m_vias := m_vias m @ vs\<rparr>)) v1) \<and>
       (list_accepts E \<longrightarrow> vs = [brk v] \<and> L' = L))"
proof -
  from hdr_cloneD [OF clone]
  have v1: "p = Some (brk v)" "v1 = new_cell (C_hdr Hdr_via) (did (Omsg (M_hdr_clone Hdr_via q)) v)" by auto
  obtain n ys where add: "l_add E v1 (m_vias m) (Some (brk v)) (- 1) = (n, ys)" by fastforce
  have b: "b \<in> set (message_blocks b m)" by (simp add: message_blocks_def)
  have hb: "heap v b = Some (C_sip m)" "b < brk v" "brk w \<le> b"
    using stage b by (auto simp: msg_stage_def)
  note le = order_trans [OF hb(3) less_imp_le [OF hb(2)]]
  show ?thesis
  proof (cases "n < 0")
    case True
    then have "ys = m_vias m" using l_add_endD [OF laws add] by simp
    moreover have "msg_stage w X b (L(brk v \<mapsto> C_hdr Hdr_via)) m (put b (C_sip m) v1)"
      using stage b hb(1) by (auto simp: v1(2) msg_stage_def less_SucI intro: le)
    moreover have "\<not> list_accepts E" using add True unfolding list_accepts_def by (metis fst_conv not_le)
    ultimately show ?thesis using add v1 hb by (intro conjI exI [of _ "L(brk v \<mapsto> C_hdr Hdr_via)"] exI [of _ "[]"]) auto
  next
    case False
    then have "ys = m_vias m @ [brk v]" using l_add_endD [OF laws add] by simp
    moreover have "msg_stage w X b L (m\<lparr>m_vias := m_vias m @ [brk v]\<rparr>)
        (put b (C_sip (m\<lparr>m_vias := m_vias m @ [brk v]\<rparr>)) v1)"
      unfolding v1(2) by (rule msg_stage_new [OF stage]) (auto simp: message_blocks_def)
    ultimately show ?thesis using add v1 hb by (intro conjI exI [of _ L] exI [of _ "[brk v]"]) auto
  qed
qed

text \<open>
  The loop ends: after the last Via with all copies, or at the first copy that fails,
  with the response released.
\<close>

definition vias_copied :: "env \<Rightarrow> world \<Rightarrow> ptr \<Rightarrow> (ptr \<rightharpoonup> cell) \<Rightarrow> osip_message_s \<Rightarrow> ptr list \<Rightarrow> world \<Rightarrow> bool \<times> world \<Rightarrow> bool" where
  "vias_copied E w b L m qs v res \<longleftrightarrow>
     (if fst res
      then (\<exists>L' vs. msg_stage w {} b L' (m\<lparr>m_vias := m_vias m @ vs\<rparr>) (snd res) \<and>
              cloned_vias (hist (snd res)) = cloned_vias (hist v) @ map Some qs \<and>
              (list_accepts E \<longrightarrow> vs = [brk v ..< brk v + length qs] \<and> L' = L))
      else (\<exists>L'. heap (snd res) = heap w ++ L' \<and> ran L' \<subseteq> {C_hdr Hdr_via} \<and> dom L' \<subseteq> {brk w..} \<and> (list_accepts E \<longrightarrow> L' = L) \<and>
              fds (snd res) = fds w \<and> dlog (snd res) = dlog w \<and> brk w \<le> brk (snd res) \<and> heap_ok (snd res)))"

lemma vias_copied_done: "msg_stage w {} b L m v \<Longrightarrow> vias_copied E w b L m [] v (True, v)"
  by (auto simp: vias_copied_def intro!: exI [of _ L] exI [of _ "[]"])

lemma vias_copied_step:
  assumes "vias_copied E w b L' (m\<lparr>m_vias := m_vias m @ vs\<rparr>) qs v' res"
    and "brk v' = Suc (brk v)" and "cloned_vias (hist v') = cloned_vias (hist v) @ [Some q]"
    and "list_accepts E \<longrightarrow> vs = [brk v] \<and> L' = L"
  shows "vias_copied E w b L m (q # qs) v res"
proof (cases "fst res")
  case True
  with assms(1) obtain L2 vs2 where
    "msg_stage w {} b L2 (m\<lparr>m_vias := m_vias m @ vs @ vs2\<rparr>) (snd res)"
    "cloned_vias (hist (snd res)) = cloned_vias (hist v') @ map Some qs"
    "list_accepts E \<longrightarrow> vs2 = [brk v' ..< brk v' + length qs] \<and> L2 = L'"
    by (auto simp: vias_copied_def)
  moreover have "[brk v ..< brk v + length (q # qs)] = brk v # [Suc (brk v) ..< Suc (brk v) + length qs]"
    by (simp add: upt_conv_Cons del: upt_Suc)
  ultimately show ?thesis using True assms(2-4)
    unfolding vias_copied_def by (intro iffD2 [OF if_P]) (auto intro!: exI [of _ L2] exI [of _ "vs @ vs2"] simp del: upt_Suc)
next
  case False
  with assms show ?thesis by (auto simp: vias_copied_def)
qed

lemma vias_copied_failed:
  assumes "msg_stage w {} b L m v" and "osip_message_free (Some b) v = Some v'"
  shows "vias_copied E w b L m qs v0 (False, v')"
proof -
  from msg_stage_free [OF assms(1)] assms(2)
  have "heap v' = heap w ++ L" "fds v' = fds w" "dlog v' = dlog w" "brk w \<le> brk v'" "heap_ok v'"
    using msg_stage_bounds(1) [OF assms(1)] by auto
  moreover have "\<forall>y c. L y = Some c \<longrightarrow> c = C_hdr Hdr_via"
    using assms(1) by (fastforce simp: msg_stage_def)
  then have "ran L \<subseteq> {C_hdr Hdr_via}" by (auto simp: ran_def)
  moreover have "dom L \<subseteq> {brk w..}" using assms(1) by (auto simp: msg_stage_def dom_def)
  ultimately show ?thesis unfolding vias_copied_def by (simp add: exI [of _ L])
qed

lemma copy_vias_run:
  assumes laws: "osip_list_laws E" and r: "heap w r = Some (C_sip rq)" and ok: "heap_ok w"
  shows "i \<le> length (m_vias rq) \<Longrightarrow> msg_stage w {} b L m v \<Longrightarrow>
    \<exists>res. copy_vias E (Some r) (int i) b v = Some res \<and> vias_copied E w b L m (drop i (m_vias rq)) v res"
proof (induction "length (m_vias rq) - i" arbitrary: i L m v)
  case 0
  then have "copy_vias E (Some r) (int i) b v = Some (True, v)"
    by (subst copy_vias.simps) (simp add: sip_cell.load_heap [OF msg_stage_request(1) [OF 0(3) r ok]]
        osip_list_lawsD(2) [OF laws])
  with 0 show ?case by (simp add: vias_copied_done)
next
  case (Suc n)
  then have i: "i < length (m_vias rq)" by simp
  let ?q = "m_vias rq ! i"
  have load: "load as_sip (Some r) v = Some rq"
    using msg_stage_request(1) [OF Suc(4) r ok] by (rule sip_cell.load_heap)
  note unfold = copy_vias.simps [of E "Some r" "int i" b v]
  have get: "l_get E (m_vias rq) (int i) = Some ?q" and eol: "\<not> l_eol E (m_vias rq) (int i)"
    using i by (simp_all add: osip_list_lawsD(2,3) [OF laws])
  obtain c p v1 where clone: "hdr_clone E Hdr_via (Some ?q) v = Some ((c, p), v1)"
    by (metis hdr_defined(2) option.exhaust surj_pair)
  show ?case
  proof (cases "c = 0")
    case True
    from msg_stage_via_clone [OF laws Suc(4) clone [unfolded True]] obtain L' vs where
      v1: "brk v1 = Suc (brk v)" "heap v1 b = Some (C_sip m)"
        "cloned_vias (hist v1) = cloned_vias (hist v) @ [Some ?q]" and
      add: "snd (l_add E v1 (m_vias m) p (- 1)) = m_vias m @ vs" and
      stage: "msg_stage w {} b L' (m\<lparr>m_vias := m_vias m @ vs\<rparr>) (put b (C_sip (m\<lparr>m_vias := m_vias m @ vs\<rparr>)) v1)" and
      acc: "list_accepts E \<longrightarrow> vs = [brk v] \<and> L' = L" by blast
    let ?v2 = "put b (C_sip (m\<lparr>m_vias := m_vias m @ vs\<rparr>)) v1"
    have "copy_vias E (Some r) (int i) b v = copy_vias E (Some r) (int (Suc i)) b ?v2"
      unfolding unfold by (simp add: load eol get clone True sip_cell.load_heap v1 add add.commute)
    moreover have n: "n = length (m_vias rq) - Suc i" "Suc i \<le> length (m_vias rq)"
      using Suc.hyps(2) i by linarith+
    from Suc.hyps(1) [OF n stage] obtain res where res:
      "copy_vias E (Some r) (int (Suc i)) b ?v2 = Some res"
      "vias_copied E w b L' (m\<lparr>m_vias := m_vias m @ vs\<rparr>) (drop (Suc i) (m_vias rq)) ?v2 res" by blast
    moreover have "vias_copied E w b L m (?q # drop (Suc i) (m_vias rq)) v res"
      by (rule vias_copied_step [OF res(2) _ _ acc]) (simp_all add: v1)
    ultimately show ?thesis using i by (simp add: Cons_nth_drop_Suc)
  next
    case False
    let ?v2 = "wrote (trace_text E v1 ESIP_LOG_ERROR ''es_msg_initResponse'' 215) v1"
    have stage: "msg_stage w {} b L m ?v2" using hdr_cloneD [OF clone] False Suc(4) by auto
    from msg_stage_free [OF stage] obtain v3 where v3: "osip_message_free (Some b) ?v2 = Some v3" by blast
    have "copy_vias E (Some r) (int i) b v = Some (False, v3)"
      unfolding unfold by (simp add: load eol get clone False esip_trace_eval v3 [simplified])
    with vias_copied_failed [OF stage v3] show ?thesis by blast
  qed
qed

text \<open>The states before the loop, in which no Via has been cloned yet.\<close>

definition response_stage :: "world \<Rightarrow> osip_message_s \<Rightarrow> world \<Rightarrow> bool" where
  "response_stage w m v \<longleftrightarrow> msg_stage w {} (brk w) Map.empty m v \<and>
     cloned_vias (hist v) = cloned_vias (hist w)"

lemma response_stage_calls:
  "ext_do (Omsg (M_set_version p x)) v = Some v' \<Longrightarrow> response_stage w m v \<Longrightarrow> response_stage w m v'"
  "ext_do (Omsg (M_set_max_forwards p x)) v = Some v' \<Longrightarrow> response_stage w m v \<Longrightarrow> response_stage w m v'"
  "set_status E p c v = Some v' \<Longrightarrow> response_stage w m v \<Longrightarrow> response_stage w m v'"
  "set_to_tag E p v = Some v' \<Longrightarrow> response_stage w m v \<Longrightarrow> response_stage w m v'"
  by (auto simp: response_stage_def set_status_def set_to_tag_def call_simps Let_def split: if_splits)

lemma hdr_clone_hist:
  "hdr_clone E h q v = Some ((r, p), v') \<Longrightarrow> h \<noteq> Hdr_via \<Longrightarrow> cloned_vias (hist v') = cloned_vias (hist v)"
  using hdr_cloneD [of E h q v r p v'] by (cases h) auto

lemma response_stage_clones:
  "hdr_clone E Hdr_from q v = Some ((r, h), v') \<Longrightarrow> response_stage w m v \<Longrightarrow> m_from m = None \<Longrightarrow>
     response_stage w (m\<lparr>m_from := h\<rparr>) (put (brk w) (C_sip (m\<lparr>m_from := h\<rparr>)) v')"
  "hdr_clone E Hdr_to q v = Some ((r, h), v') \<Longrightarrow> response_stage w m v \<Longrightarrow> m_to m = None \<Longrightarrow>
     response_stage w (m\<lparr>m_to := h\<rparr>) (put (brk w) (C_sip (m\<lparr>m_to := h\<rparr>)) v')"
  "hdr_clone E Hdr_cseq q v = Some ((r, h), v') \<Longrightarrow> response_stage w m v \<Longrightarrow> m_cseq m = None \<Longrightarrow>
     response_stage w (m\<lparr>m_cseq := h\<rparr>) (put (brk w) (C_sip (m\<lparr>m_cseq := h\<rparr>)) v')"
  "hdr_clone E Hdr_call_id q v = Some ((r, h), v') \<Longrightarrow> response_stage w m v \<Longrightarrow> m_call_id m = None \<Longrightarrow>
     response_stage w (m\<lparr>m_call_id := h\<rparr>) (put (brk w) (C_sip (m\<lparr>m_call_id := h\<rparr>)) v')"
  by (simp_all add: response_stage_def msg_stage_clones hdr_clone_hist)

lemma set_names_stage:
  "set_names p v = Some v' \<Longrightarrow> msg_stage w X b L m v' = msg_stage w X b L m v \<and>
     cloned_vias (hist v') = cloned_vias (hist v)"
  unfolding set_names_def by (elim run_elims; clarsimp dest!: run_dests)

lemma hdr_clone_null: "hdr_clone E h q v = Some ((r, p), v') \<Longrightarrow> r = 0 \<longleftrightarrow> p \<noteq> None"
  by (auto dest: hdr_cloneD)

lemma set_to_tag_null: "set_to_tag E p v = Some v' \<Longrightarrow> p \<noteq> None"
  by (simp add: set_to_tag_def split: if_splits)

lemma calls_between_defined [simp]:
  "set_status E p c v \<noteq> None" "set_names p v \<noteq> None" "set_to_tag E p v \<noteq> None \<longleftrightarrow> p \<noteq> None"
  by (auto simp: set_status_def set_names_def set_to_tag_def call_simps)

lemma response_stage_start:
  "heap_ok w \<Longrightarrow> c = Omsg M_init \<Longrightarrow> response_stage w empty_message (new_cell (C_sip empty_message) (did c w))"
  by (auto simp: response_stage_def msg_stage_def message_blocks_def empty_message_def)

lemma response_failD:
  assumes "response_fail E line b v = Some ((st, p), w')" and "msg_stage w {} b L m v"
  shows "st = ES_ERROR_OUTOFRESOURCES \<and> p = None \<and> heap w' = heap w ++ L \<and> fds w' = fds w \<and> dlog w' = dlog w \<and>
    brk w \<le> brk w' \<and> heap_ok w'"
proof -
  obtain s where "osip_message_free (Some b) (wrote s v) = Some w'" "st = ES_ERROR_OUTOFRESOURCES" "p = None"
    using assms(1) unfolding response_fail_def by (elim run_elims) (auto dest!: esip_traceD)
  with msg_stage_free [of w "{}" b L m "wrote s v"] assms(2) msg_stage_bounds(1) [OF assms(2)] show ?thesis by auto
qed

text \<open>What a call with a complete request returns.\<close>

definition response_result :: "env \<Rightarrow> world \<Rightarrow> osip_message_s \<Rightarrow> es_status \<Rightarrow> cptr \<Rightarrow> world \<Rightarrow> bool" where
  "response_result E w rq st p w' \<longleftrightarrow> fds w' = fds w \<and> dlog w' = dlog w \<and> brk w \<le> brk w' \<and> heap_ok w' \<and>
     (st = ES_OK \<and> p = Some (brk w) \<and>
        (\<exists>m L. msg_stage w {} (brk w) L m w' \<and> m_to m \<noteq> None \<and> m_cseq m \<noteq> None \<and> m_call_id m \<noteq> None \<and>
           cloned_vias (hist w') = cloned_vias (hist w) @ map Some (m_vias rq) \<and>
           (list_accepts E \<longrightarrow> L = Map.empty \<and> length (m_vias m) = length (m_vias rq)))
      \<or> st = ES_ERROR_OUTOFRESOURCES \<and> p = None \<and>
        (\<exists>L. heap w' = heap w ++ L \<and> ran L \<subseteq> {C_hdr Hdr_via} \<and> dom L \<subseteq> {brk w..} \<and>
          (list_accepts E \<longrightarrow> L = Map.empty)))"

text \<open>The end of the construction, when all headers but the Vias are there.\<close>

lemma response_vias_result:
  assumes laws: "osip_list_laws E" and r: "heap w r = Some (C_sip rq)" and ok: "heap_ok w"
    and loop: "copy_vias E (Some r) 0 (brk w) v = Some (res, v')" and stage: "response_stage w m v"
    and m: "m_to m \<noteq> None" "m_cseq m \<noteq> None" "m_call_id m \<noteq> None" "m_vias m = []"
  shows "\<not> res \<Longrightarrow> response_result E w rq ES_ERROR_OUTOFRESOURCES None v'"
    and "res \<Longrightarrow> set_names p v' = Some w' \<Longrightarrow> response_result E w rq ES_OK (Some (brk w)) w'"
proof -
  from stage have s: "msg_stage w {} (brk w) Map.empty m v" and h: "cloned_vias (hist v) = cloned_vias (hist w)"
    by (simp_all add: response_stage_def)
  from copy_vias_run [OF laws r ok _ s, of 0] loop
  have copied: "vias_copied E w (brk w) Map.empty m (m_vias rq) v (res, v')" by auto
  {
    assume "\<not> res"
    with copied show "response_result E w rq ES_ERROR_OUTOFRESOURCES None v'"
      by (auto simp: vias_copied_def response_result_def)
  next
    assume "res" and names: "set_names p v' = Some w'"
    with copied obtain L vs where st: "msg_stage w {} (brk w) L (m\<lparr>m_vias := vs\<rparr>) w'" and
      "cloned_vias (hist w') = cloned_vias (hist w) @ map Some (m_vias rq)" and
      "list_accepts E \<longrightarrow> L = Map.empty \<and> length vs = length (m_vias rq)"
      using set_names_stage [OF names] m(4) h by (auto simp: vias_copied_def)
    moreover from st have "fds w' = fds w" "dlog w' = dlog w" "brk w \<le> brk w'" "heap_ok w'"
      using msg_stage_bounds [OF st] by (simp_all add: msg_stage_def)
    ultimately show "response_result E w rq ES_OK (Some (brk w)) w'"
      unfolding response_result_def using m(1-3) st
      by (intro conjI disjI1 exI [of _ "m\<lparr>m_vias := vs\<rparr>"] exI [of _ L]) auto
  }
qed

lemma response_fail_result:
  "response_fail E line (brk w) v = Some ((st, p), w') \<Longrightarrow> response_stage w m v \<Longrightarrow> response_result E w rq st p w'"
  by (auto simp: response_stage_def response_result_def dest!: response_failD)

lemma response_headers_result:
  assumes laws: "osip_list_laws E" and r: "heap w r = Some (C_sip rq)" and ok: "heap_ok w"
  shows "response_headers E c (Some r) rq (brk w) v = Some ((st, p), w') \<Longrightarrow>
    response_stage w empty_message v \<Longrightarrow> response_result E w rq st p w'"
  unfolding response_headers_def
  apply (elim run_elims; clarsimp; drule (1) response_stage_calls(1), drule (1) response_stage_calls(2),
      drule (1) response_stage_calls(3), drule (1) response_stage_clones(1), simp add: empty_message_def,
      drule (1) response_stage_clones(2), simp add: empty_message_def,
      frule set_to_tag_null, drule (1) response_stage_calls(4), frule hdr_clone_null,
      drule (1) response_stage_clones(3), simp add: empty_message_def)
     apply (erule (1) response_fail_result)
    apply (drule (1) response_stage_clones(4), simp add: empty_message_def, erule (1) response_fail_result)
   apply (frule hdr_clone_null, drule (1) response_stage_clones(4), simp add: empty_message_def)
   apply (erule (1) response_vias_result(1) [OF laws r ok, unfolded ES_ERROR_OUTOFRESOURCES_def];
      simp add: empty_message_def)
  by (frule hdr_clone_null, drule (1) response_stage_clones(4), simp add: empty_message_def,
      erule (1) response_vias_result(2) [OF laws r ok, unfolded ES_OK_def];
      simp add: empty_message_def)

lemma es_msg_initResponse_result:
  assumes laws: "osip_list_laws E" and ok: "heap_ok w"
    and r: "heap w r = Some (C_sip rq)" "m_to rq \<noteq> None" "m_from rq \<noteq> None"
  shows "es_msg_initResponse E c (Some r) w = Some ((st, p), w') \<Longrightarrow> response_result E w rq st p w'"
  unfolding es_msg_initResponse_def
  apply (elim run_elims; clarsimp simp: sip_cell.load_heap r dest!: run_dests ext_new_stD esip_traceD)
  subgoal using ok by (auto simp: response_result_def heap_ok_def intro!: exI [of _ Map.empty])
  subgoal by (rule response_headers_result [OF laws r(1) ok]) (auto intro: response_stage_start [OF ok])
  done

lemma response_fail_defined:
  assumes "response_stage w m v" shows "response_fail E line (brk w) v \<noteq> None"
proof -
  let ?v = "wrote (trace_text E v ESIP_LOG_ERROR ''es_msg_initResponse'' line) v"
  have "msg_stage w {} (brk w) Map.empty m ?v" using assms by (simp add: response_stage_def)
  from msg_stage_free [OF this] show ?thesis by (auto simp: response_fail_def esip_trace_eval)
qed

lemma copy_vias_defined:
  assumes "osip_list_laws E" and "heap w r = Some (C_sip rq)" and "heap_ok w" and "response_stage w m v"
  shows "copy_vias E (Some r) 0 (brk w) v \<noteq> None"
  using copy_vias_run [OF assms(1-3), of 0 "brk w" Map.empty m v] assms(4) by (auto simp: response_stage_def)

lemma response_headers_defined:
  assumes laws: "osip_list_laws E" and r: "heap w r = Some (C_sip rq)" and ok: "heap_ok w"
    and to: "\<And>v. e_int E v (Omsg (M_hdr_clone Hdr_to (m_to rq))) = 0"
  shows "response_stage w empty_message v \<Longrightarrow> response_headers E c (Some r) rq (brk w) v \<noteq> None"
proof -
  have to: "p \<noteq> None" if "hdr_clone E Hdr_to (m_to rq) v = Some ((c, p), v')" for v c p v'
    using that to by (auto simp: hdr_clone_def ext_new_st_def split: if_splits)
  show "response_stage w empty_message v \<Longrightarrow> ?thesis"
  unfolding response_headers_def
  apply (intro run_intros; (simp del: not_None_eq; fail)?; simp del: not_None_eq;
     drule (1) response_stage_calls(1), drule (1) response_stage_calls(2),
      drule (1) response_stage_calls(3), drule (1) response_stage_clones(1), simp add: empty_message_def,
      frule to, drule (1) response_stage_clones(2), simp add: empty_message_def)
     apply assumption
    apply (drule (1) response_stage_calls(4), drule (1) response_stage_clones(3), simp add: empty_message_def,
      erule response_fail_defined)
   apply (drule (1) response_stage_calls(4), drule (1) response_stage_clones(3), simp add: empty_message_def,
      drule (1) response_stage_clones(4), simp add: empty_message_def, erule response_fail_defined)
  by (drule (1) response_stage_calls(4), drule (1) response_stage_clones(3), simp add: empty_message_def,
      drule (1) response_stage_clones(4), simp add: empty_message_def, erule copy_vias_defined [OF laws r ok])
qed

lemma es_msg_initResponse_defined:
  assumes laws: "osip_list_laws E" and ok: "heap_ok w"
    and r: "heap w r = Some (C_sip rq)" and to: "\<And>v. e_int E v (Omsg (M_hdr_clone Hdr_to (m_to rq))) = 0"
  shows "es_msg_initResponse E c (Some r) w \<noteq> None"
  unfolding es_msg_initResponse_def
  apply (intro run_intros; (simp add: sip_cell.load_heap r; fail)?; simp add: sip_cell.load_heap r del: not_None_eq)
  apply (drule ext_new_stD)
  using response_headers_defined [OF laws r ok to response_stage_start [OF ok refl], of c] by auto

section \<open>Properties\<close>

lemma message_blocks_parts:
  "set (message_blocks b m) = insert b (set_option (m_from m) \<union> set_option (m_to m) \<union> set_option (m_cseq m)
     \<union> set_option (m_call_id m) \<union> set (m_vias m))"
  by (auto simp: message_blocks_def opt_list_def split: option.splits)



text \<open>C33. \<open>es_msg_init\<close> succeeds only if \<^verbatim>\<open>osip_list_add\<close> answers 0 for the Via header. With a
  list whose \<^verbatim>\<open>osip_list_add\<close> answers the new number of elements, as \<open>_es_osip_wakeup\<close> and
  \<open>es_msg_initResponse\<close>, which do not look at the answer, allow, no call of
  \<open>es_msg_init\<close> ever succeeds.\<close>

theorem msg_init_needs_zero:
  assumes "osip_list_laws E" and "heap_ok w"
    and counts: "\<forall>v a. fst (l_add E v [] (Some a) (- 1)) = int (length (snd (l_add E v [] (Some a) (- 1))))"
  shows "\<exists>w'. es_msg_init E w = Some ((ES_ERROR_OUTOFRESOURCES, None), w') \<and> heap w' = heap w"
proof -
  from es_msg_init_returns [OF assms(1,2)] obtain st p w' where run: "es_msg_init E w = Some ((st, p), w')" by auto
  have pos: "fst (l_add E v [] (Some a) (- 1)) > 0" for v a
    using counts osip_list_lawsD(6) [OF assms(1), of v "[]" a] by (cases "fst (l_add E v [] (Some a) (- 1)) < 0") auto
  have "st \<noteq> ES_OK"
  proof
    assume "st = ES_OK"
    with es_msg_init_OK [of E w p w'] run obtain v vs where
      "l_add E v [] (Some (brk w + 2)) (- 1) = (0, vs)" by auto
    with pos [of v "brk w + 2"] show False by simp
  qed
  moreover have "\<not> via_refused E a" for a using pos by (auto simp: via_refused_def not_less intro: less_imp_le)
  ultimately show ?thesis using es_msg_init_error [OF assms(1,2) run] run by auto
qed

definition counting_env :: env where
  "counting_env = plain_env\<lparr>l_add := (\<lambda>w xs p i. case p of None \<Rightarrow> (- 1, xs)
     | Some a \<Rightarrow> if i = 0 then (int (Suc (length xs)), a # xs)
                 else if i = - 1 then (int (Suc (length xs)), xs @ [a]) else (- 1, xs))\<rparr>"

lemma counting_env_lists: "osip_list_laws counting_env"
  by (auto simp: osip_list_laws_def counting_env_def plain_env_def)

theorem msg_init_needs_zero_witness:
  "\<exists>w'. es_msg_init counting_env boot = Some ((ES_ERROR_OUTOFRESOURCES, None), w') \<and> heap w' = Map.empty"
proof -
  have "\<forall>v a. fst (l_add counting_env v [] (Some a) (- 1)) = int (length (snd (l_add counting_env v [] (Some a) (- 1))))"
    by (simp add: counting_env_def)
  from msg_init_needs_zero [OF counting_env_lists boot_heap_ok this] show ?thesis by simp
qed



text \<open>A response carries the request's Via headers: as many, cloned one by one in the order
  of the request; it has To, CSeq and Call-ID headers of its own, and no block that was
  there before is touched.\<close>

theorem response_vias:
  assumes "osip_list_laws E" and "list_accepts E" and "heap_ok w"
    and "heap w r = Some (C_sip rq)" and "m_to rq \<noteq> None" and "m_from rq \<noteq> None"
    and "es_msg_initResponse E code (Some r) w = Some ((ES_OK, p), w')"
  shows "\<exists>m. load as_sip p w' = Some m \<and> length (m_vias m) = length (m_vias rq) \<and>
    cloned_vias (hist w') = cloned_vias (hist w) @ map Some (m_vias rq) \<and>
    m_to m \<noteq> None \<and> m_cseq m \<noteq> None \<and> m_call_id m \<noteq> None \<and> (\<forall>y < brk w. heap w' y = heap w y)"
proof -
  from es_msg_initResponse_result [OF assms(1,3-7)] assms(2) obtain m where
    m: "p = Some (brk w)" "msg_stage w {} (brk w) Map.empty m w'" "length (m_vias m) = length (m_vias rq)"
      "cloned_vias (hist w') = cloned_vias (hist w) @ map Some (m_vias rq)"
      "m_to m \<noteq> None" "m_cseq m \<noteq> None" "m_call_id m \<noteq> None"
    by (auto simp: response_result_def)
  from m(2) have "heap w' y = heap w y" if "y < brk w" for y
    using that by (auto simp: msg_stage_def not_le [symmetric])
  moreover from m(2) have "load as_sip p w' = Some m" by (simp add: m(1) msg_stage_def sip_cell.load_heap)
  ultimately show ?thesis using m by blast
qed

definition demo_request :: osip_message_s where
  "demo_request = \<lparr>m_from = Some 51, m_to = Some 52, m_cseq = Some 53, m_call_id = Some 54, m_vias = [55, 56]\<rparr>"

definition demo_received :: world where
  "demo_received = boot\<lparr>heap := [50 \<mapsto> C_sip demo_request]\<rparr>"

lemma demo_received_sel [simp]:
  "heap demo_received = [50 \<mapsto> C_sip demo_request]" "brk demo_received = 100" "hist demo_received = []"
  "fds demo_received = {0, 1, 2}" "dlog demo_received = es_log_default_handler"
  by (simp_all add: demo_received_def)

lemma demo_received_ok: "heap_ok demo_received"
  by (simp add: heap_ok_def)

lemma plain_env_accepts: "list_accepts plain_env"
  by (simp add: list_accepts_def plain_env_def)


lemma demo_response:
  "\<exists>w'. es_msg_initResponse plain_env 200 (Some 50) demo_received = Some ((ES_OK, Some 100), w')"
  by (simp add: es_msg_initResponse_def response_headers_def set_status_def set_to_tag_def set_names_def
    step_simps ext_new_st_def hdr_clone_def plain_int_def sip_cell.load_iff load_def as_sip_def demo_request_def Let_def
    copy_vias.simps plain_env_def)

theorem response_vias_witness:
  "\<exists>w'. es_msg_initResponse plain_env 200 (Some 50) demo_received = Some ((ES_OK, Some 100), w') \<and>
     cloned_vias (hist w') = [Some 55, Some 56]"
proof -
  have r: "heap demo_received 50 = Some (C_sip demo_request)" "m_to demo_request \<noteq> None" "m_from demo_request \<noteq> None"
    by (simp_all add: demo_request_def)
  from demo_response obtain w' where
    run: "es_msg_initResponse plain_env 200 (Some 50) demo_received = Some ((ES_OK, Some 100), w')" ..
  from response_vias [OF plain_env_lists plain_env_accepts demo_received_ok r run] run show ?thesis
    by (auto simp: demo_request_def)
qed


text \<open>A null request is refused with \<^verbatim>\<open>ES_ERROR_OUTOFRESOURCES\<close>, one without a To or a From
  header with \<^verbatim>\<open>ES_ERROR_NULLPTR\<close>; nothing is handed out, no call leaves the program and no
  block changes.\<close>

theorem response_incomplete:
  assumes "req = None \<or> (\<exists>r rq. req = Some r \<and> heap w r = Some (C_sip rq) \<and> (m_to rq = None \<or> m_from rq = None))"
  shows "\<exists>w'. es_msg_initResponse E code req w =
      Some ((if req = None then ES_ERROR_OUTOFRESOURCES else ES_ERROR_NULLPTR, None), w') \<and> same_but_trace w w'"
  using assms by (auto simp: es_msg_initResponse_def sip_cell.load_heap esip_trace_eval)

theorem response_incomplete_witness:
  "\<exists>w'. es_msg_initResponse plain_env 200 None demo_received = Some ((ES_ERROR_OUTOFRESOURCES, None), w') \<and>
     same_but_trace demo_received w'"
  using response_incomplete [of None demo_received plain_env 200] by simp

text \<open>The To header of a response always ends up with a tag. A tag that is there is kept;
  otherwise one is set, the decimal text of a random 32-bit number read as signed: at
  least one and at most eleven characters, far below the 256 of the buffer it is
  printed to.\<close>

theorem response_to_tag:
  "\<exists>w'. set_to_tag E (Some to) w = Some w' \<and> heap w' = heap w \<and>
    (if e_ptr E w (Omsg (M_to_get_tag (Some to))) \<noteq> None
     then hist w' = Omsg (M_to_get_tag (Some to)) # hist w
     else (\<exists>tag. hist w' = Omsg (M_to_set_tag (Some to) tag) # Omsg M_random
              # Omsg (M_to_get_tag (Some to)) # hist w \<and> tag \<noteq> [] \<and> length tag \<le> 11))"
proof -
  have bound: "nat \<bar>sint x\<bar> < 10 ^ Suc 9" for x :: u32
    using sint_lt [of x] sint_ge [of x] by (simp add: nat_less_iff abs_le_iff)
  have len: "length (dec_int (sint x)) \<le> 11" for x :: u32
    using length_dec_nat [OF bound [of x]] by (auto simp: dec_int_def split: if_splits)
  moreover have "dec_int i \<noteq> []" for i by (simp add: dec_int_def)
  ultimately show ?thesis by (simp add: set_to_tag_def call_simps Let_def)
qed

text \<open>C32. If the copy of the To header fails, \<open>es_msg_initResponse\<close> goes on and asks for the tag
  of a null header: undefined behaviour, where the failing copies of the other headers
  are answered with \<^verbatim>\<open>ES_ERROR_OUTOFRESOURCES\<close>.\<close>

theorem response_null_to:
  assumes "heap w r = Some (C_sip rq)" and "m_to rq \<noteq> None" and "m_from rq \<noteq> None"
    and "e_int E w (Omsg M_init) = 0"
    and "\<And>v. e_int E v (Omsg (M_hdr_clone Hdr_to (m_to rq))) \<noteq> 0"
  shows "es_msg_initResponse E code (Some r) w = None"
proof (rule ccontr)
  assume "es_msg_initResponse E code (Some r) w \<noteq> None"
  then obtain st p w' where "es_msg_initResponse E code (Some r) w = Some ((st, p), w')" by auto
  then show False
    using assms unfolding es_msg_initResponse_def response_headers_def
    by (auto simp: sip_cell.load_heap call_simps ext_new_st_def hdr_clone_def set_to_tag_def
        elim!: bind_SomeE split: if_splits)
qed


definition no_to_env :: env where
  "no_to_env = plain_env\<lparr>e_int := (\<lambda>w c. case c of Omsg (M_hdr_clone Hdr_to p) \<Rightarrow> - 1 | _ \<Rightarrow> 0)\<rparr>"

theorem response_null_to_witness:
  "es_msg_initResponse no_to_env 200 (Some 50) demo_received = None"
proof -
  have r: "heap demo_received 50 = Some (C_sip demo_request)" "m_to demo_request \<noteq> None" "m_from demo_request \<noteq> None"
    by (simp_all add: demo_request_def)
  have i: "e_int no_to_env demo_received (Omsg M_init) = 0" by (simp add: no_to_env_def)
  have "e_int no_to_env v (Omsg (M_hdr_clone Hdr_to (m_to demo_request))) \<noteq> 0" for v
    by (simp add: no_to_env_def)
  from response_null_to [OF r i this] show ?thesis .
qed

end
