(* ===== verification/Es_Osip.thy ===== *)
theory Es_Osip
  imports Es_Transport Es_Msg
begin

text \<open>
  The glue between the transport and libosip2, \<^verbatim>\<open>src/sip/esosip.c\<close>: the context, the parser
  of a received packet, the queue of wake-up events and the loop that drains it, and the
  callbacks libosip2 calls. libosip2 is outside code: its answers come from the \<open>env\<close>,
  and while it executes its transactions it calls back into the program as often as the
  \<open>env\<close> says. This theory holds the definitions and the contracts of the handle; the
  theories \<open>Es_Osip_Context\<close>, \<open>Es_Osip_Parse\<close> and \<open>Es_Osip_Loop\<close> hold the lemmas.
\<close>

section \<open>The context\<close>

definition ES_OSIP_MAGIC :: u32 where "ES_OSIP_MAGIC = 0x20140607"
definition SIP_OK :: int where "SIP_OK = 200"

lemma osip_magic_nonzero [simp]: "ES_OSIP_MAGIC \<noteq> 0" "0 \<noteq> ES_OSIP_MAGIC"
  by (simp_all add: ES_OSIP_MAGIC_def)

text \<open>The struct after \<^verbatim>\<open>memset\<close> with zeros.\<close>

definition zero_osip :: es_osip_s where
  "zero_osip = \<lparr>o_magic = 0, osip = None, transportCtx = None, o_base = None, pendingEv = [], osipDialog = []\<rparr>"

definition is_stack :: "cell \<Rightarrow> bool" where
  "is_stack x = (case x of C_osip_stack \<Rightarrow> True | _ \<Rightarrow> False)"

definition is_tr :: "cell \<Rightarrow> bool" where
  "is_tr x = (case x of C_tr k \<Rightarrow> True | _ \<Rightarrow> False)"

text \<open>The loops over the callback types: one call of libosip2 for each.\<close>

definition call_each :: "(nat \<Rightarrow> call) \<Rightarrow> nat \<Rightarrow> world \<Rightarrow> world" where
  "call_each c n w = fold (\<lambda>i. did (c i)) [0..<n] w"

definition es_osip_set_internal_callbacks :: "env \<Rightarrow> cptr \<Rightarrow> world \<Rightarrow> es_status run" where
  "es_osip_set_internal_callbacks E ctx w = do {
     w \<leftarrow> esip_trace E ESIP_LOG_DEBUG ''_es_osip_set_internal_callbacks'' 701 w;
     if ctx = None then do {
       w \<leftarrow> esip_trace E ESIP_LOG_ERROR ''_es_osip_set_internal_callbacks'' 704 w;
       Some (ES_ERROR_OUTOFRESOURCES, w) }
     else do {
       s \<leftarrow> load as_osip ctx w;
       if osip s = None then do {
         w \<leftarrow> esip_trace E ESIP_LOG_ERROR ''_es_osip_set_internal_callbacks'' 711 w;
         Some (ES_ERROR_OUTOFRESOURCES, w) }
       else do {
         w \<leftarrow> ext_do (Osip (O_set_cb_send_message (osip s) F_es_internal_send_msg_cb)) w;
         let w = call_each (\<lambda>i. Osip (O_set_kill_cb (osip s) i F_es_internal_kill_transaction_cb)) (k_kill E) w;
         let w = call_each (\<lambda>i. Osip (O_set_transport_error_cb (osip s) i F_es_internal_transport_error_cb))
                   (k_transport_error E) w;
         let w = call_each (\<lambda>i. Osip (O_set_message_cb (osip s) i F_es_internal_message_cb)) (k_message E) w;
         Some (ES_OK, w) } } }"

text \<open>The failures after \<^verbatim>\<open>osip_init\<close>: the stack and the context are freed, the transport is not.\<close>

definition osip_init_fail :: "cptr \<Rightarrow> ptr \<Rightarrow> es_status \<Rightarrow> world \<Rightarrow> (es_status \<times> cptr) run" where
  "osip_init_fail stack a ret w = do {
     w \<leftarrow> cfree stack w;
     w \<leftarrow> cfree (Some a) w;
     Some ((ret, None), w) }"

definition osip_callbacks :: "ptr \<Rightarrow> es_transport_callbacks_s" where
  "osip_callbacks a = \<lparr>event_cb = Some F_es_transport_event_cb, msg_recv_cb = Some F_es_transport_msg_cb,
     user_data = Some a\<rparr>"

text \<open>The second half of \<open>es_osip_init\<close>: the stack, the two lists and the callbacks, with the context
  \<open>s\<close> at \<open>a\<close>.\<close>

definition osip_init_stack :: "env \<Rightarrow> cptr \<Rightarrow> es_osip_s \<Rightarrow> ptr \<Rightarrow> world \<Rightarrow> (es_status \<times> cptr) run" where
  "osip_init_stack E base s a w = do {
    ((r, stack), w) \<leftarrow> ext_new_st E (Osip O_init) C_osip_stack w;
    let s = s\<lparr>osip := stack\<rparr>;
    let w = put a (C_osip s) w;
    if r \<noteq> OSIP_SUCCESS then do {
      w \<leftarrow> esip_trace E ESIP_LOG_ERROR ''es_osip_init'' 145 w;
      w \<leftarrow> cfree (Some a) w;
      Some ((ES_ERROR_UNKNOWN, None), w) }
    else do {
      (r, w) \<leftarrow> ext_int E (Osip O_list_init) w;
      if r \<noteq> OSIP_SUCCESS then do {
        w \<leftarrow> esip_trace E ESIP_LOG_ERROR ''es_osip_init'' 152 w;
        osip_init_fail stack a ES_ERROR_OUTOFRESOURCES w }
      else do {
        (r, w) \<leftarrow> ext_int E (Osip O_list_init) w;
        if r \<noteq> OSIP_SUCCESS then do {
          w \<leftarrow> esip_trace E ESIP_LOG_ERROR ''es_osip_init'' 160 w;
          osip_init_fail stack a ES_ERROR_OUTOFRESOURCES w }
        else do {
          (ret, w) \<leftarrow> es_osip_set_internal_callbacks E (Some a) w;
          if ret \<noteq> ES_OK then osip_init_fail stack a ret w
          else Some ((ES_OK, Some a), put a (C_osip (s\<lparr>o_base := base\<rparr>)) w) } } } }"

definition es_osip_init :: "env \<Rightarrow> cptr \<Rightarrow> world \<Rightarrow> (es_status \<times> cptr) run" where
  "es_osip_init E base w = do {
     (p, w) \<leftarrow> malloc E B_osip w;
     case p of
       None \<Rightarrow> do {
         w \<leftarrow> esip_trace E ESIP_LOG_ERROR ''es_osip_init'' 110 w;
         Some ((ES_ERROR_OUTOFRESOURCES, None), w) }
     | Some a \<Rightarrow> do {
         let s = zero_osip\<lparr>o_magic := ES_OSIP_MAGIC\<rparr>;
         let w = put a (C_osip s) w;
         ((ret, t), w) \<leftarrow> es_transport_init E base w;
         let s = s\<lparr>transportCtx := t\<rparr>;
         let w = put a (C_osip s) w;
         if ret \<noteq> ES_OK then do {
           w \<leftarrow> esip_trace E ESIP_LOG_ERROR ''es_osip_init'' 122 w;
           w \<leftarrow> cfree (Some a) w;
           Some ((ret, None), w) }
         else do {
           (ret, w) \<leftarrow> es_transport_set_callbacks E t (Some (osip_callbacks a)) w;
           if ret \<noteq> ES_OK then do {
             w \<leftarrow> esip_trace E ESIP_LOG_ERROR ''es_osip_init'' 137 w;
             w \<leftarrow> cfree (Some a) w;
             Some ((ret, None), w) }
           else osip_init_stack E base s a w } } }"

definition es_osip_start :: "env \<Rightarrow> cptr \<Rightarrow> world \<Rightarrow> es_status run" where
  "es_osip_start E pCtx w =
     (if pCtx = None then do {
        w \<leftarrow> esip_trace E ESIP_LOG_ERROR ''es_osip_start'' 187 w;
        Some (ES_ERROR_OUTOFRESOURCES, w) }
      else do {
        s \<leftarrow> load as_osip pCtx w;
        (ret, w) \<leftarrow> es_transport_start E (transportCtx s) w;
        if ret \<noteq> ES_OK then do {
          w \<leftarrow> esip_trace E ESIP_LOG_ERROR ''es_osip_start'' 193 w;
          Some (ret, w) }
        else Some (ret, w) })"

definition es_osip_stop :: "env \<Rightarrow> cptr \<Rightarrow> world \<Rightarrow> es_status run" where
  "es_osip_stop E pCtx w =
     (if pCtx = None then do {
        w \<leftarrow> esip_trace E ESIP_LOG_ERROR ''es_osip_stop'' 206 w;
        Some (ES_ERROR_NULLPTR, w) }
      else do {
        s \<leftarrow> load as_osip pCtx w;
        if o_magic s \<noteq> ES_OSIP_MAGIC then do {
          w \<leftarrow> esip_trace E ESIP_LOG_ERROR ''es_osip_stop'' 211 w;
          Some (ES_ERROR_NULLPTR, w) }
        else do {
          (ret, w) \<leftarrow> es_transport_stop E (transportCtx s) w;
          if ret \<noteq> ES_OK then do {
            w \<leftarrow> esip_trace E ESIP_LOG_ERROR ''es_osip_stop'' 217 w;
            Some (ret, w) }
          else Some (ret, w) } })"

definition es_osip_list_freeEl :: "cptr \<Rightarrow> world \<Rightarrow> world option" where
  "es_osip_list_freeEl pEl w = (if pEl = None then Some w else ev_free pEl w)"

text \<open>\<^verbatim>\<open>osip_list_special_free\<close> calls the function it is given on the elements, as \<open>l_drain\<close> of
  the \<open>env\<close> says, and leaves the list empty.\<close>

primrec special_free :: "(cptr \<Rightarrow> world \<Rightarrow> world option) \<Rightarrow> ptr list \<Rightarrow> world \<Rightarrow> world option" where
  "special_free f [] w = Some w"
| "special_free f (x # xs) w = do { w \<leftarrow> f (Some x) w; special_free f xs w }"

definition es_osip_deinit :: "env \<Rightarrow> cptr \<Rightarrow> world \<Rightarrow> es_status run" where
  "es_osip_deinit E pCtx w =
     (case pCtx of
        None \<Rightarrow> do {
          w \<leftarrow> esip_trace E ESIP_LOG_ERROR ''es_osip_deinit'' 238 w;
          Some (ES_ERROR_NULLPTR, w) }
      | Some a \<Rightarrow> do {
          s \<leftarrow> load as_osip pCtx w;
          if o_magic s \<noteq> ES_OSIP_MAGIC then do {
            w \<leftarrow> esip_trace E ESIP_LOG_ERROR ''es_osip_deinit'' 243 w;
            Some (ES_ERROR_NULLPTR, w) }
          else do {
            w \<leftarrow> special_free es_osip_list_freeEl (l_drain E (pendingEv s)) w;
            let w = put a (C_osip (s\<lparr>pendingEv := []\<rparr>)) w;
            (r, w) \<leftarrow> es_transport_destroy E (transportCtx s) w;
            w \<leftarrow> lib_free is_stack (Osip (O_release (osip s))) (osip s) w;
            w \<leftarrow> cfree pCtx w;
            Some (ES_OK, w) } })"

section \<open>The wake-up queue\<close>

definition es_osip_wakeup :: "env \<Rightarrow> cptr \<Rightarrow> world \<Rightarrow> es_status run" where
  "es_osip_wakeup E pCtx w = do {
     w \<leftarrow> esip_trace E ESIP_LOG_DEBUG ''_es_osip_wakeup'' 488 w;
     case pCtx of
       None \<Rightarrow> do {
         w \<leftarrow> esip_trace E ESIP_LOG_ERROR ''_es_osip_wakeup'' 492 w;
         Some (ES_ERROR_NULLPTR, w) }
     | Some a \<Rightarrow> do {
         s \<leftarrow> load as_osip pCtx w;
         (ev, w) \<leftarrow> ev_new E \<lparr>ev_base = o_base s, ev_fd = - 1, ev_flags = EV_READ,
            ev_fn = F_es_osip_loop, ev_arg = pCtx\<rparr> w;
         if ev = None then do {
           w \<leftarrow> esip_trace E ESIP_LOG_ERROR ''_es_osip_wakeup'' 499 w;
           Some (ES_ERROR_OUTOFRESOURCES, w) }
         else do {
           (r, w) \<leftarrow> ev_priority_set E ev 0 w;
           w \<leftarrow> (if r \<noteq> 0 then esip_trace E ESIP_LOG_WARNING ''_es_osip_wakeup'' 505 w else Some w);
           (r, w) \<leftarrow> ev_add E ev w;
           if r \<noteq> 0 then do {
             w \<leftarrow> esip_trace E ESIP_LOG_ERROR ''_es_osip_wakeup'' 510 w;
             (r, w) \<leftarrow> ev_del E ev w;
             Some (ES_ERROR_OUTOFRESOURCES, w) }
           else do {
             let w = put a (C_osip (s\<lparr>pendingEv := snd (l_add E w (pendingEv s) ev 0)\<rparr>)) w;
             w \<leftarrow> ev_active ev EV_READ w;
             Some (ES_OK, w) } } } }"

section \<open>Callbacks of libosip2\<close>

text \<open>The serialised message is a block the program frees; on failure there is none, and its
  length is 0.\<close>

definition message_to_str :: "env \<Rightarrow> cptr \<Rightarrow> world \<Rightarrow> (cptr \<times> byte list) run" where
  "message_to_str E msg w =
     (let c = Osip (O_message_to_str msg); d = e_bytes E w c
      in do {
        ((r, p), w) \<leftarrow> ext_new_st E c (C_text d) w;
        Some ((p, if p = None then [] else d), w) })"

definition es_internal_send_msg_cb ::
  "env \<Rightarrow> cptr \<Rightarrow> cptr \<Rightarrow> string option \<Rightarrow> int \<Rightarrow> int \<Rightarrow> world \<Rightarrow> int run" where
  "es_internal_send_msg_cb E tr msg addr port sock w = do {
     (p, w) \<leftarrow> ext_ptr E (Osip (O_tr_get_instance tr)) w;
     if p = None then do {
       w \<leftarrow> esip_trace E ESIP_LOG_ERROR ''_es_internal_send_msg_cb'' 532 w;
       Some (- 1, w) }
     else do {
       s \<leftarrow> load as_osip p w;
       if o_magic s \<noteq> ES_OSIP_MAGIC then do {
         w \<leftarrow> esip_trace E ESIP_LOG_ERROR ''_es_internal_send_msg_cb'' 538 w;
         Some (- 1, w) }
       else do {
         ((buf, d), w) \<leftarrow> message_to_str E msg w;
         w \<leftarrow> esip_trace E ESIP_LOG_DEBUG ''_es_internal_send_msg_cb'' 544 w;
         (r, w) \<leftarrow> es_transport_send E (transportCtx s) addr port d (length d) w;
         w \<leftarrow> cfree buf w;
         Some (OSIP_SUCCESS, w) } } }"

definition es_internal_transport_error_cb :: "env \<Rightarrow> int \<Rightarrow> cptr \<Rightarrow> int \<Rightarrow> world \<Rightarrow> world option" where
  "es_internal_transport_error_cb E ty tr error w =
     esip_trace E ESIP_LOG_INFO ''_es_internal_transport_error_cb'' 554 w"

definition es_internal_kill_transaction_cb :: "env \<Rightarrow> int \<Rightarrow> cptr \<Rightarrow> world \<Rightarrow> world option" where
  "es_internal_kill_transaction_cb E ty tr w = do {
     w \<leftarrow> esip_trace E ESIP_LOG_INFO ''_es_internal_kill_transaction_cb'' 560 w;
     (p, w) \<leftarrow> ext_ptr E (Osip (O_tr_get_instance tr)) w;
     if p = None then Some w
     else do {
       s \<leftarrow> load as_osip p w;
       if o_magic s \<noteq> ES_OSIP_MAGIC
       then esip_trace E ESIP_LOG_ERROR ''_es_internal_kill_transaction_cb'' 568 w
       else Some w } }"

text \<open>The search for the dialog a message belongs to, used for an ACK and for a BYE: the first
  one that matches, or null. The trace reads the dialog's state.\<close>

partial_function (option) find_dialog ::
  "env \<Rightarrow> string \<Rightarrow> nat \<Rightarrow> cptr \<Rightarrow> cptr \<Rightarrow> int \<Rightarrow> world \<Rightarrow> cptr run" where
  "find_dialog E func line ctx msg i w = do {
     s \<leftarrow> load as_osip ctx w;
     if l_eol E (osipDialog s) i then Some (None, w)
     else do {
       let dialog = l_get E (osipDialog s) i;
       (r, w) \<leftarrow> ext_int E (Osip (O_dialog_match dialog msg)) w;
       if r = OSIP_SUCCESS then do {
         d \<leftarrow> dialog;
         x \<leftarrow> heap w d;
         w \<leftarrow> esip_trace E ESIP_LOG_DEBUG func line w;
         Some (dialog, w) }
       else find_dialog E func line ctx msg (i + 1) w } }"

text \<open>\<^verbatim>\<open>es_msg_initResponse(&_pResp, SIP_OK, msg)\<close> in the three requests that are answered:
  the response, or null after a failure.\<close>

definition make_response :: "env \<Rightarrow> nat \<Rightarrow> cptr \<Rightarrow> world \<Rightarrow> cptr run" where
  "make_response E line msg w = do {
     ((st, resp), w) \<leftarrow> es_msg_initResponse E SIP_OK msg w;
     if st \<noteq> ES_OK then do {
       w \<leftarrow> esip_trace E ESIP_LOG_ERROR ''_es_internal_message_cb'' line w;
       Some (None, w) }
     else Some (resp, w) }"

definition dialog_established :: "env \<Rightarrow> ptr \<Rightarrow> cptr \<Rightarrow> cptr \<Rightarrow> world \<Rightarrow> world option" where
  "dialog_established E a tr msg w =
     (if load as_sip msg w = None then None
      else if e_test E w (T_response_for msg ''INVITE'') \<and> \<not> e_test E w (T_code msg 100) then do {
        t \<leftarrow> tr;
        k \<leftarrow> load as_tr tr w;
        let orig = e_orig E w t;
        ((r, dialog), w) \<leftarrow> ext_new_st E (Osip (O_dialog_init_as_uas orig msg)) C_dialog w;
        if r \<noteq> OSIP_SUCCESS then esip_trace E ESIP_LOG_ERROR ''_es_internal_message_cb'' 616 w
        else do {
          w \<leftarrow> ext_do (Osip (O_dialog_set_instance dialog (Some a))) w;
          w \<leftarrow> ext_do (Osip (O_dialog_update_route dialog (e_orig E w t))) w;
          s \<leftarrow> load as_osip (Some a) w;
          Some (put a (C_osip (s\<lparr>osipDialog := snd (l_add E w (osipDialog s) dialog 0)\<rparr>)) w) } }
      else Some w)"

text \<open>The end of the callback: the response becomes an event of the transaction.\<close>

definition queue_response :: "env \<Rightarrow> ptr \<Rightarrow> cptr \<Rightarrow> cptr \<Rightarrow> world \<Rightarrow> world option" where
  "queue_response E a tr resp w = do {
     (evt, w) \<leftarrow> ext_new E (Osip (O_new_outgoing resp)) (C_evt \<lparr>evt_type = EVT_OTHER, evt_sip = resp\<rparr>) w;
     (r, w) \<leftarrow> ext_int E (Osip (O_tr_add_event tr evt)) w;
     (st, w) \<leftarrow> es_osip_wakeup E (Some a) w;
     if st \<noteq> ES_OK then do {
       w \<leftarrow> esip_trace E ESIP_LOG_ERROR ''_es_internal_message_cb'' 689 w;
       cfree evt w }
     else Some w }"

definition es_internal_message_cb :: "env \<Rightarrow> msg_type \<Rightarrow> cptr \<Rightarrow> cptr \<Rightarrow> world \<Rightarrow> world option" where
  "es_internal_message_cb E ty tr msg w = do {
     w \<leftarrow> esip_trace E ESIP_LOG_DEBUG ''_es_internal_message_cb'' 580 w;
     (p, w) \<leftarrow> ext_ptr E (Osip (O_tr_get_instance tr)) w;
     case p of
       None \<Rightarrow> esip_trace E ESIP_LOG_ERROR ''_es_internal_message_cb'' 584 w
     | Some a \<Rightarrow> do {
         s \<leftarrow> load as_osip p w;
         if o_magic s \<noteq> ES_OSIP_MAGIC then esip_trace E ESIP_LOG_ERROR ''_es_internal_message_cb'' 590 w
         else (case ty of
           OSIP_IST_INVITE_RECEIVED \<Rightarrow> do {
             w \<leftarrow> esip_trace E ESIP_LOG_INFO ''_es_internal_message_cb'' 597 w;
             (resp, w) \<leftarrow> make_response E 599 msg w;
             if resp = None then Some w else queue_response E a tr resp w }
         | OSIP_IST_INVITE_RECEIVED_AGAIN \<Rightarrow> esip_trace E ESIP_LOG_INFO ''_es_internal_message_cb'' 607 w
         | OSIP_IST_STATUS_2XX_SENT \<Rightarrow> do {
             w \<leftarrow> esip_trace E ESIP_LOG_INFO ''_es_internal_message_cb'' 612 w;
             dialog_established E a tr msg w }
         | OSIP_NIST_STATUS_2XX_SENT \<Rightarrow> esip_trace E ESIP_LOG_INFO ''_es_internal_message_cb'' 627 w
         | OSIP_IST_ACK_RECEIVED \<Rightarrow> esip_trace E ESIP_LOG_INFO ''_es_internal_message_cb'' 632 w
         | OSIP_IST_ACK_RECEIVED_AGAIN \<Rightarrow> esip_trace E ESIP_LOG_INFO ''_es_internal_message_cb'' 637 w
         | OSIP_NIST_REGISTER_RECEIVED \<Rightarrow> do {
             w \<leftarrow> esip_trace E ESIP_LOG_INFO ''_es_internal_message_cb'' 643 w;
             (resp, w) \<leftarrow> make_response E 645 msg w;
             if resp = None then Some w else queue_response E a tr resp w }
         | OSIP_NIST_BYE_RECEIVED \<Rightarrow> do {
             (dialog, w) \<leftarrow> find_dialog E ''_es_internal_message_cb'' 658 p msg 0 w;
             w \<leftarrow> esip_trace E ESIP_LOG_INFO ''_es_internal_message_cb'' 663 w;
             (resp, w) \<leftarrow> make_response E 665 msg w;
             if resp = None then Some w else queue_response E a tr resp w }
         | OSIP_NIST_UNKNOWN_REQUEST_RECEIVED \<Rightarrow> esip_trace E ESIP_LOG_INFO ''_es_internal_message_cb'' 673 w
         | OSIP_OTHER_MESSAGE n \<Rightarrow> esip_trace E ESIP_LOG_INFO ''_es_internal_message_cb'' 678 w) } }"

section \<open>The loop\<close>

text \<open>
  An execution of one of libosip2's queues calls back into the program some number of
  times, and releases objects of the library: events, messages with their headers, and
  transactions, never a block of the program.
\<close>

definition run_callback :: "env \<Rightarrow> callback \<Rightarrow> world \<Rightarrow> world option" where
  "run_callback E cb w =
     (case cb of
        Cb_send tr msg addr port sock \<Rightarrow> do {
          (r, w) \<leftarrow> es_internal_send_msg_cb E tr msg addr port sock w;
          Some w }
      | Cb_kill ty tr \<Rightarrow> es_internal_kill_transaction_cb E ty tr w
      | Cb_transport_error ty tr error \<Rightarrow> es_internal_transport_error_cb E ty tr error w
      | Cb_message ty tr msg \<Rightarrow> es_internal_message_cb E ty tr msg w)"

primrec run_callbacks :: "env \<Rightarrow> nat \<Rightarrow> world \<Rightarrow> world option" where
  "run_callbacks E 0 w = Some w"
| "run_callbacks E (Suc n) w = do {
     w \<leftarrow> run_callback E (e_callback E w) (did (Enter_cb (e_callback E w)) w);
     run_callbacks E n w }"

definition lib_object :: "cell \<Rightarrow> bool" where
  "lib_object x = (case x of C_evt e \<Rightarrow> True | C_sip m \<Rightarrow> True | C_hdr h \<Rightarrow> True | C_tr k \<Rightarrow> True | _ \<Rightarrow> False)"

definition lib_release :: "env \<Rightarrow> world \<Rightarrow> world" where
  "lib_release E w = w\<lparr>heap := (\<lambda>a. case heap w a of None \<Rightarrow> None
     | Some x \<Rightarrow> if lib_object x \<and> e_freed E w a then None else Some x)\<rparr>"

definition osip_execute :: "env \<Rightarrow> phase \<Rightarrow> cptr \<Rightarrow> world \<Rightarrow> int run" where
  "osip_execute E ph stack w =
     (let c = Osip (O_execute ph stack); r = e_int E w c; n = e_callbacks E w c
      in do {
        w \<leftarrow> run_callbacks E n (did c w);
        Some (r, lib_release E w) })"

definition execute_queue :: "env \<Rightarrow> phase \<Rightarrow> nat \<Rightarrow> cptr \<Rightarrow> world \<Rightarrow> world option" where
  "execute_queue E ph line stack w = do {
     w \<leftarrow> esip_trace E ESIP_LOG_DEBUG ''_es_osip_loop'' line w;
     (r, w) \<leftarrow> osip_execute E ph stack w;
     if r \<noteq> OSIP_SUCCESS then esip_trace E ESIP_LOG_ERROR ''_es_osip_loop'' (line + 2) w else Some w }"

definition execute_timers :: "env \<Rightarrow> phase \<Rightarrow> nat \<Rightarrow> cptr \<Rightarrow> world \<Rightarrow> world option" where
  "execute_timers E ph line stack w = do {
     w \<leftarrow> esip_trace E ESIP_LOG_DEBUG ''_es_osip_loop'' line w;
     (r, w) \<leftarrow> osip_execute E ph stack w;
     Some w }"

text \<open>The body of the loop, after the event was taken from the list. The member \<^verbatim>\<open>osip\<close> of the
  context, which no callback writes, is read before each of the eight executions.\<close>

definition execute_all :: "env \<Rightarrow> cptr \<Rightarrow> world \<Rightarrow> world option" where
  "execute_all E p w = do {
     s \<leftarrow> load as_osip p w;
     w \<leftarrow> execute_queue E Ict 439 (osip s) w;
     s \<leftarrow> load as_osip p w;
     w \<leftarrow> execute_queue E Ist 445 (osip s) w;
     s \<leftarrow> load as_osip p w;
     w \<leftarrow> execute_queue E Nict 451 (osip s) w;
     s \<leftarrow> load as_osip p w;
     w \<leftarrow> execute_queue E Nist 457 (osip s) w;
     s \<leftarrow> load as_osip p w;
     w \<leftarrow> execute_timers E Timer_Ict 465 (osip s) w;
     s \<leftarrow> load as_osip p w;
     w \<leftarrow> execute_timers E Timer_Ist 469 (osip s) w;
     s \<leftarrow> load as_osip p w;
     w \<leftarrow> execute_timers E Timer_Nict 473 (osip s) w;
     s \<leftarrow> load as_osip p w;
     execute_timers E Timer_Nist 477 (osip s) w }"

partial_function (option) osip_loop :: "env \<Rightarrow> ptr \<Rightarrow> world \<Rightarrow> world option" where
  "osip_loop E a w = do {
     s \<leftarrow> load as_osip (Some a) w;
     if l_size E (pendingEv s) > 0 then do {
       let ev = l_get E (pendingEv s) 0;
       w \<leftarrow> esip_trace E ESIP_LOG_DEBUG ''_es_osip_loop'' 433 w;
       let w = put a (C_osip (s\<lparr>pendingEv := l_remove E (pendingEv s) 0\<rparr>)) w;
       w \<leftarrow> execute_all E (Some a) w;
       w \<leftarrow> ev_free ev w;
       osip_loop E a w }
     else Some w }"

definition es_osip_loop :: "env \<Rightarrow> int \<Rightarrow> u16 \<Rightarrow> cptr \<Rightarrow> world \<Rightarrow> world option" where
  "es_osip_loop E fd event arg w =
     (case arg of
        None \<Rightarrow> esip_trace E ESIP_LOG_ERROR ''_es_osip_loop'' 421 w
      | Some a \<Rightarrow> osip_loop E a w)"

section \<open>A received packet\<close>

text \<open>\<^verbatim>\<open>osip_parse\<close> reads \<open>len\<close> bytes and makes an event with its message, or nothing.\<close>

definition osip_parse :: "env \<Rightarrow> byte list \<Rightarrow> u32 \<Rightarrow> world \<Rightarrow> (ptr \<times> ptr \<times> evt_kind) option run" where
  "osip_parse E buf len w =
     (if length buf < unat len then None
      else let c = Osip (O_parse (take (unat len) buf) len)
        in case e_parse E w c of
             None \<Rightarrow> Some (None, did c w)
           | Some (k, m) \<Rightarrow>
               (let w1 = new_cell (C_sip m) (did c w); sip = brk w
                in Some (Some (brk w1, sip, k), new_cell (C_evt \<lparr>evt_type = k, evt_sip = Some sip\<rparr>) w1)))"

text \<open>\<^verbatim>\<open>osip_transaction_find\<close> in the list of the INVITE server transactions: a member of the
  stack, which has to be there.\<close>

definition find_transaction :: "env \<Rightarrow> cptr \<Rightarrow> ptr \<Rightarrow> world \<Rightarrow> cptr run" where
  "find_transaction E stack evt w =
     (case stack of None \<Rightarrow> None
      | Some b \<Rightarrow> if heap w b = Some C_osip_stack then ext_ptr E (Osip (O_tr_find stack (Some evt))) w else None)"

definition init_transaction :: "env \<Rightarrow> trans_kind \<Rightarrow> cptr \<Rightarrow> ptr \<Rightarrow> world \<Rightarrow> (int \<times> cptr) run" where
  "init_transaction E k stack sip w = ext_new_st E (Osip (O_tr_init k stack (Some sip))) (C_tr k) w"

text \<open>The answer to an ACK. The test of \<^verbatim>\<open>dialog\<close> in the source is followed by an empty
  statement, so the call is made whatever was found.\<close>

definition parse_ack :: "env \<Rightarrow> ptr \<Rightarrow> ptr \<Rightarrow> ptr \<Rightarrow> world \<Rightarrow> es_status run" where
  "parse_ack E a evt sip w = do {
     (dialog, w) \<leftarrow> find_dialog E ''es_osip_parse_msg'' 314 (Some a) (Some sip) 0 w;
     s \<leftarrow> load as_osip (Some a) w;
     w \<leftarrow> ext_do (Osip (O_stop_retransmissions (osip s) dialog)) w;
     w \<leftarrow> cfree (Some evt) w;
     Some (ES_OK, w) }"

text \<open>The event is handed to its transaction.\<close>

definition dispatch_event :: "env \<Rightarrow> ptr \<Rightarrow> ptr \<Rightarrow> ptr \<Rightarrow> world \<Rightarrow> es_status run" where
  "dispatch_event E a evt tr w = do {
     s \<leftarrow> load as_osip (Some a) w;
     ((st, fd), w) \<leftarrow> es_transport_get_udp_socket E (transportCtx s) w;
     (r, w) \<leftarrow> ext_int E (Osip (O_tr_set_out_socket (Some tr) (case fd of None \<Rightarrow> - 1 | Some fd \<Rightarrow> fd))) w;
     if r \<noteq> OSIP_SUCCESS then do {
       w \<leftarrow> esip_trace E ESIP_LOG_ERROR ''es_osip_parse_msg'' 353 w;
       w \<leftarrow> lib_free is_tr (Osip (O_tr_free (Some tr))) (Some tr) w;
       w \<leftarrow> cfree (Some evt) w;
       Some (ES_ERROR_UNKNOWN, w) }
     else do {
       w \<leftarrow> ext_do (Osip (O_tr_set_instance (Some tr) (Some a))) w;
       (r, w) \<leftarrow> ext_int E (Osip (O_tr_add_event (Some tr) (Some evt))) w;
       if r \<noteq> 0 then do {
         w \<leftarrow> esip_trace E ESIP_LOG_ERROR ''es_osip_parse_msg'' 365 w;
         w \<leftarrow> lib_free is_tr (Osip (O_tr_free (Some tr))) (Some tr) w;
         w \<leftarrow> cfree (Some evt) w;
         Some (ES_ERROR_OUTOFRESOURCES, w) }
       else do {
         (st, w) \<leftarrow> es_osip_wakeup E (Some a) w;
         if st \<noteq> ES_OK then do {
           w \<leftarrow> esip_trace E ESIP_LOG_ERROR ''es_osip_parse_msg'' 373 w;
           w \<leftarrow> cfree (Some evt) w;
           Some (ES_ERROR_UNKNOWN, w) }
         else Some (ES_OK, w) } } }"

text \<open>The branches on the kind of the event, which exclude each other.\<close>

definition parse_status :: "env \<Rightarrow> ptr \<Rightarrow> ptr \<Rightarrow> nat \<Rightarrow> world \<Rightarrow> es_status run" where
  "parse_status E a evt line w = do {
     s \<leftarrow> load as_osip (Some a) w;
     (tr, w) \<leftarrow> find_transaction E (osip s) evt w;
     case tr of
       None \<Rightarrow> do {
         w \<leftarrow> esip_trace E ESIP_LOG_INFO ''es_osip_parse_msg'' line w;
         w \<leftarrow> cfree (Some evt) w;
         Some (ES_ERROR_ILLEGAL_ACTION, w) }
     | Some t \<Rightarrow> dispatch_event E a evt t w }"

definition parse_request :: "env \<Rightarrow> trans_kind \<Rightarrow> nat \<Rightarrow> ptr \<Rightarrow> ptr \<Rightarrow> ptr \<Rightarrow> world \<Rightarrow> es_status run" where
  "parse_request E k line a evt sip w = do {
     w \<leftarrow> esip_trace E ESIP_LOG_INFO ''es_osip_parse_msg'' line w;
     s \<leftarrow> load as_osip (Some a) w;
     ((r, tr), w) \<leftarrow> init_transaction E k (osip s) sip w;
     case tr of
       None \<Rightarrow> do {
         w \<leftarrow> esip_trace E ESIP_LOG_ERROR ''es_osip_parse_msg'' (line + 3) w;
         w \<leftarrow> cfree (Some evt) w;
         Some (ES_ERROR_OUTOFRESOURCES, w) }
     | Some t \<Rightarrow> dispatch_event E a evt t w }"

definition es_osip_parse_msg :: "env \<Rightarrow> cptr \<Rightarrow> byte list \<Rightarrow> u32 \<Rightarrow> world \<Rightarrow> es_status run" where
  "es_osip_parse_msg E pCtx buf len w = do {
     w \<leftarrow> esip_trace E ESIP_LOG_DEBUG ''es_osip_parse_msg'' 264 w;
     case pCtx of
       None \<Rightarrow> do {
         w \<leftarrow> esip_trace E ESIP_LOG_ERROR ''es_osip_parse_msg'' 268 w;
         Some (ES_ERROR_NULLPTR, w) }
     | Some a \<Rightarrow> do {
         s \<leftarrow> load as_osip pCtx w;
         if o_magic s \<noteq> ES_OSIP_MAGIC then do {
           w \<leftarrow> esip_trace E ESIP_LOG_ERROR ''es_osip_parse_msg'' 274 w;
           Some (ES_ERROR_INVALID_HANDLE, w) }
         else do {
           (parsed, w) \<leftarrow> osip_parse E buf len w;
           case parsed of
             None \<Rightarrow> do {
               w \<leftarrow> esip_trace E ESIP_LOG_ERROR ''es_osip_parse_msg'' 281 w;
               Some (ES_ERROR_NETWORK_PROBLEM, w) }
           | Some (evt, sip, k) \<Rightarrow> do {
               w \<leftarrow> esip_trace E ESIP_LOG_INFO ''es_osip_parse_msg'' 285 w;
               case k of
                 RCV_STATUS_1XX \<Rightarrow> parse_status E a evt 293 w
               | RCV_STATUS_2XX \<Rightarrow> parse_status E a evt 302 w
               | RCV_STATUS_3456XX \<Rightarrow> parse_status E a evt 302 w
               | RCV_REQACK \<Rightarrow> parse_ack E a evt sip w
               | RCV_REQINVITE \<Rightarrow> parse_request E IST 328 a evt sip w
               | RCV_REQUEST \<Rightarrow> parse_request E NIST 338 a evt sip w
               | EVT_OTHER \<Rightarrow> do {
                   w \<leftarrow> cfree (Some evt) w;
                   Some (ES_OK, w) } } } } }"

section \<open>Callbacks of the transport\<close>

definition es_transport_event_cb :: "env \<Rightarrow> cptr \<Rightarrow> int \<Rightarrow> int \<Rightarrow> cptr \<Rightarrow> world \<Rightarrow> world option" where
  "es_transport_event_cb E tp event error data w =
     esip_trace E ESIP_LOG_DEBUG ''_es_transport_event_cb'' 392 w"

definition es_transport_msg_cb :: "env \<Rightarrow> cptr \<Rightarrow> byte list \<Rightarrow> u32 \<Rightarrow> cptr \<Rightarrow> world \<Rightarrow> world option" where
  "es_transport_msg_cb E tp msg len data w =
     (if data = None then esip_trace E ESIP_LOG_ERROR ''_es_transport_msg_cb'' 400 w
      else do {
        w \<leftarrow> (if len < 3 then esip_trace E ESIP_LOG_WARNING ''_es_transport_msg_cb'' 405 w else Some w);
        w \<leftarrow> esip_trace E ESIP_LOG_DEBUG ''_es_transport_msg_cb'' 408 w;
        (st, w) \<leftarrow> es_osip_parse_msg E data msg len w;
        if st \<noteq> ES_OK then esip_trace E ESIP_LOG_ERROR ''_es_transport_msg_cb'' 411 w else Some w })"

text \<open>The transport's read handler with the callbacks it was given behind its pointers.\<close>

definition call_transport_msg :: "env \<Rightarrow> fn \<Rightarrow> cptr \<Rightarrow> byte list \<Rightarrow> u32 \<Rightarrow> cptr \<Rightarrow> world \<Rightarrow> world option" where
  "call_transport_msg E f tp msg len data w =
     (case f of F_es_transport_msg_cb \<Rightarrow> es_transport_msg_cb E tp msg len data w | _ \<Rightarrow> None)"

definition call_transport_event :: "env \<Rightarrow> fn \<Rightarrow> cptr \<Rightarrow> int \<Rightarrow> int \<Rightarrow> cptr \<Rightarrow> world \<Rightarrow> world option" where
  "call_transport_event E f tp event error data w =
     (case f of F_es_transport_event_cb \<Rightarrow> es_transport_event_cb E tp event error data w | _ \<Rightarrow> None)"

definition transport_readable :: "env \<Rightarrow> int \<Rightarrow> u16 \<Rightarrow> cptr \<Rightarrow> world \<Rightarrow> world option" where
  "transport_readable E = es_transport_ev E (call_transport_msg E) (call_transport_event E)"

section \<open>The contract of the handle\<close>

definition osip_magic_of :: "cptr \<Rightarrow> world \<Rightarrow> u32 option" where
  "osip_magic_of p w = map_option o_magic (load as_osip p w)"

lemma osip_magic_of_simps [simp]:
  "osip_magic_of None w = None" "osip_magic_of p (wrote s w) = osip_magic_of p w"
  by (simp_all add: osip_magic_of_def)

interpretation osip_stop: handle_op "es_osip_stop E" osip_magic_of ES_OSIP_MAGIC ES_ERROR_NULLPTR ES_ERROR_NULLPTR
  by unfold_locales (auto simp: es_osip_stop_def osip_magic_of_def esip_trace_eval)

interpretation osip_deinit: handle_op "es_osip_deinit E" osip_magic_of ES_OSIP_MAGIC ES_ERROR_NULLPTR ES_ERROR_NULLPTR
  by unfold_locales (auto simp: es_osip_deinit_def osip_magic_of_def esip_trace_eval)

interpretation osip_parse_msg: handle_op "\<lambda>p. es_osip_parse_msg E p buf len" osip_magic_of ES_OSIP_MAGIC
  ES_ERROR_NULLPTR ES_ERROR_INVALID_HANDLE
  by unfold_locales (auto simp: es_osip_parse_msg_def osip_magic_of_def esip_trace_eval)

end
