(* ===== verification/Es_Osip_Context.thy ===== *)
theory Es_Osip_Context
  imports Es_Osip
begin

text \<open>
  The life of a SIP context: what \<open>es_osip_init\<close> builds and what it leaves behind when it
  fails, the invariant \<open>osip_ok\<close> of a live context, the wake-up queue, and the release of
  the context. \<open>grows\<close> is the relation between the states before and after any operation
  on a live context: the queue and the dialogs only grow at the front, and no block of
  the program is lost.
\<close>

section \<open>Initialisation\<close>

lemma fold_did: "fold (\<lambda>i. did (c i)) is w = w\<lparr>hist := rev (map c is) @ hist w\<rparr>"
  by (induction "is" arbitrary: w) (simp_all add: did_def)

lemma call_each_simps [simp]:
  "heap (call_each c n w) = heap w" "brk (call_each c n w) = brk w" "fds (call_each c n w) = fds w"
  "dlog (call_each c n w) = dlog w" "out (call_each c n w) = out w" "sout (call_each c n w) = sout w"
  "hist (call_each c n w) = rev (map c [0..<n]) @ hist w"
  by (simp_all add: call_each_def fold_did)

lemma call_each_load [simp]: "load prj p (call_each c n w) = load prj p w"
  by (cases p) (simp_all add: load_def)

text \<open>The calls that register the callbacks, the latest first.\<close>

definition registrations :: "env \<Rightarrow> cptr \<Rightarrow> call list" where
  "registrations E stack =
     rev (Osip (O_set_cb_send_message stack F_es_internal_send_msg_cb)
       # map (\<lambda>i. Osip (O_set_kill_cb stack i F_es_internal_kill_transaction_cb)) [0..<k_kill E]
       @ map (\<lambda>i. Osip (O_set_transport_error_cb stack i F_es_internal_transport_error_cb)) [0..<k_transport_error E]
       @ map (\<lambda>i. Osip (O_set_message_cb stack i F_es_internal_message_cb)) [0..<k_message E])"

lemma set_internal_callbacksD:
  "es_osip_set_internal_callbacks E p w = Some (st, w') \<Longrightarrow>
    heap w' = heap w \<and> brk w' = brk w \<and> fds w' = fds w \<and> dlog w' = dlog w \<and>
    (st = ES_OK \<or> st = ES_ERROR_OUTOFRESOURCES) \<and>
    (\<forall>s. load as_osip p w = Some s \<longrightarrow> osip s \<noteq> None \<longrightarrow>
       st = ES_OK \<and> hist w' = registrations E (osip s) @ hist w)"
  unfolding es_osip_set_internal_callbacks_def registrations_def
  by (elim run_elims; clarsimp dest!: run_dests esip_traceD)

lemma set_internal_callbacks_defined:
  "heap w a = Some (C_osip s) \<Longrightarrow> es_osip_set_internal_callbacks E (Some a) w \<noteq> None"
  by (simp add: es_osip_set_internal_callbacks_def esip_trace_eval osip_cell.load_heap call_simps Let_def)

text \<open>The transport context that a live SIP context at \<open>a\<close> uses.\<close>

definition new_transport :: "ptr \<Rightarrow> cptr \<Rightarrow> int \<Rightarrow> es_transport_s" where
  "new_transport a base fd = zero_transport\<lparr>t_magic := ES_TRANSPORT_MAGIC, udp_socket := fd, t_base := base,
     callbacks := osip_callbacks a\<rparr>"

definition new_osip :: "ptr \<Rightarrow> cptr \<Rightarrow> ptr \<Rightarrow> ptr \<Rightarrow> es_osip_s" where
  "new_osip a base t stack = \<lparr>o_magic = ES_OSIP_MAGIC, osip = Some stack, transportCtx = Some t,
     o_base = base, pendingEv = [], osipDialog = []\<rparr>"

lemma osip_init_failD:
  "osip_init_fail p a ret w = Some (x, w') \<Longrightarrow> x = (ret, None) \<and> brk w' = brk w \<and> fds w' = fds w \<and> dlog w' = dlog w \<and>
     heap w' = (case p of None \<Rightarrow> heap w | Some b \<Rightarrow> (heap w)(b := None))(a := None)"
  unfolding osip_init_fail_def
  by (cases p) (auto simp: cfree_def split: if_splits elim!: bind_SomeE)

lemma set_callbacksD:
  "es_transport_set_callbacks E (Some t) (Some cs) w = Some (st, w') \<Longrightarrow>
    \<exists>x. heap w t = Some (C_transport x) \<and>
      (if t_magic x = ES_TRANSPORT_MAGIC then st = ES_OK \<and> w' = put t (C_transport (x\<lparr>callbacks := cs\<rparr>)) w
       else st = ES_ERROR_NULLPTR \<and> same_but_trace w w')"
  unfolding es_transport_set_callbacks_def
  by (elim run_elims; cases cs; clarsimp simp: transport_cell.load_iff esip_trace_eval split: if_splits)

lemma set_internal_callbacks_run:
  assumes "heap w a = Some (C_osip s)" and "osip s = Some b"
  shows "\<exists>w'. es_osip_set_internal_callbacks E (Some a) w = Some (ES_OK, w') \<and>
    heap w' = heap w \<and> brk w' = brk w \<and> fds w' = fds w \<and> dlog w' = dlog w \<and>
    hist w' = registrations E (Some b) @ hist w"
proof -
  from set_internal_callbacks_defined [OF assms(1), of E] obtain st w' where
    "es_osip_set_internal_callbacks E (Some a) w = Some (st, w')" by auto
  with set_internal_callbacksD [OF this] assms show ?thesis by (auto simp: osip_cell.load_heap)
qed

lemma osip_init_fail_run:
  assumes "heap w b \<noteq> None" and "heap w a \<noteq> None" and "a \<noteq> b"
  shows "\<exists>w'. osip_init_fail (Some b) a ret w = Some ((ret, None), w') \<and> brk w' = brk w \<and> fds w' = fds w \<and>
    dlog w' = dlog w \<and> heap w' = (heap w)(b := None, a := None)"
  using assms by (simp add: osip_init_fail_def cfree_def)

lemma osip_init_stack_result:
  assumes a: "heap w a = Some (C_osip s0)" and s: "osip s = None" and ok: "heap_ok w"
  shows "\<exists>st p w'. osip_init_stack E base s a w = Some ((st, p), w') \<and> fds w' = fds w \<and> dlog w' = dlog w \<and>
    (st = ES_OK \<and> p = Some a \<and> brk w' = Suc (brk w) \<and>
       heap w' = (heap w)(a \<mapsto> C_osip (s\<lparr>osip := Some (brk w), o_base := base\<rparr>), brk w \<mapsto> C_osip_stack) \<and>
       take (length (registrations E (Some (brk w)))) (hist w') = registrations E (Some (brk w))
     \<or> st \<in> {ES_ERROR_UNKNOWN, ES_ERROR_OUTOFRESOURCES} \<and> p = None \<and> brk w \<le> brk w' \<and>
       heap w' = (heap w)(a := None))"
proof -
  have ne: "brk w \<noteq> a" and fresh: "heap w (brk w) = None"
    using heap_ok_live [OF ok a] heap_ok_fresh [OF ok] by auto
  have upd: "(heap w)(brk w := None, a := None) = (heap w)(a := None)"
    using fresh by (simp add: fun_upd_idem)
  let ?v = "put a (C_osip (s\<lparr>osip := Some (brk w)\<rparr>)) (new_cell C_osip_stack (did (Osip O_init) w))"
  let ?c = "Osip O_list_init"
  have v: "heap ?v (brk w) = Some C_osip_stack" "heap ?v a = Some (C_osip (s\<lparr>osip := Some (brk w)\<rparr>))"
    using ne by simp_all
  consider (stack) "e_int E w (Osip O_init) \<noteq> 0" | (list1) "e_int E w (Osip O_init) = 0" "e_int E ?v ?c \<noteq> 0"
    | (list2) "e_int E w (Osip O_init) = 0" "e_int E ?v ?c = 0" "e_int E (did ?c ?v) ?c \<noteq> 0"
    | (all) "e_int E w (Osip O_init) = 0" "e_int E ?v ?c = 0" "e_int E (did ?c ?v) ?c = 0" by blast
  then show ?thesis
  proof cases
    case stack
    then show ?thesis by (simp add: osip_init_stack_def ext_new_st_def call_simps esip_trace_eval cfree_def Let_def)
  next
    case list1
    let ?u = "wrote (trace_text E (did ?c ?v) 3 ''es_osip_init'' 152) (did ?c ?v)"
    from osip_init_fail_run [of ?u "brk w" a ES_ERROR_OUTOFRESOURCES] v ne obtain w' where
      "osip_init_fail (Some (brk w)) a ES_ERROR_OUTOFRESOURCES ?u = Some ((ES_ERROR_OUTOFRESOURCES, None), w')"
      "brk w' = brk ?u" "fds w' = fds w" "dlog w' = dlog w" "heap w' = (heap w)(a := None)" using upd by auto
    with list1 show ?thesis
      by (simp add: osip_init_stack_def ext_new_st_def call_simps esip_trace_eval Let_def)
  next
    case list2
    let ?u = "wrote (trace_text E (did ?c (did ?c ?v)) 3 ''es_osip_init'' 160) (did ?c (did ?c ?v))"
    from osip_init_fail_run [of ?u "brk w" a ES_ERROR_OUTOFRESOURCES] v ne obtain w' where
      "osip_init_fail (Some (brk w)) a ES_ERROR_OUTOFRESOURCES ?u = Some ((ES_ERROR_OUTOFRESOURCES, None), w')"
      "brk w' = brk ?u" "fds w' = fds w" "dlog w' = dlog w" "heap w' = (heap w)(a := None)" using upd by auto
    with list2 show ?thesis
      by (simp add: osip_init_stack_def ext_new_st_def call_simps esip_trace_eval Let_def)
  next
    case all
    from set_internal_callbacks_run [of "did ?c (did ?c ?v)" a "s\<lparr>osip := Some (brk w)\<rparr>" "brk w" E] v(2) obtain w' where
      "es_osip_set_internal_callbacks E (Some a) (did ?c (did ?c ?v)) = Some (ES_OK, w')"
      "heap w' = heap ?v" "brk w' = Suc (brk w)" "fds w' = fds w" "dlog w' = dlog w"
      "hist w' = registrations E (Some (brk w)) @ ?c # ?c # hist ?v" by auto
    with all ne show ?thesis
      by (simp add: osip_init_stack_def ext_new_st_def call_simps Let_def fun_upd_twist [of a "brk w"])
  qed
qed

text \<open>The two ways \<open>es_osip_init\<close> can fail: with everything given back, or with the transport
  context and its socket left behind.\<close>

definition init_failed :: "world \<Rightarrow> cptr \<Rightarrow> es_status \<Rightarrow> world \<Rightarrow> bool" where
  "init_failed w base st w' \<longleftrightarrow> st \<noteq> ES_OK \<and>
     (heap w' = heap w \<and> fds w' = fds w
      \<or> st \<in> {ES_ERROR_UNKNOWN, ES_ERROR_OUTOFRESOURCES} \<and>
        (\<exists>fd. 0 \<le> fd \<and> fds w' = insert fd (fds w) \<and>
           heap w' = (heap w)(brk w + 1 \<mapsto> C_transport (new_transport (brk w) base fd))))"

definition init_done :: "env \<Rightarrow> world \<Rightarrow> cptr \<Rightarrow> world \<Rightarrow> bool" where
  "init_done E w base w' \<longleftrightarrow> base \<noteq> None \<and> brk w' = brk w + 3 \<and>
     (\<exists>fd. 0 \<le> fd \<and> fds w' = insert fd (fds w) \<and>
        heap w' = (heap w)(brk w \<mapsto> C_osip (new_osip (brk w) base (brk w + 1) (brk w + 2)),
          brk w + 1 \<mapsto> C_transport (new_transport (brk w) base fd), brk w + 2 \<mapsto> C_osip_stack)) \<and>
     take (length (registrations E (Some (brk w + 2)))) (hist w') = registrations E (Some (brk w + 2))"

text \<open>The second half, from the state in which the transport is there.\<close>

lemma osip_init_attached:
  fixes w u :: world
  defines "s1 \<equiv> zero_osip\<lparr>o_magic := ES_OSIP_MAGIC, transportCtx := Some (Suc (brk w))\<rparr>"
  assumes ok: "heap_ok w" and fd: "0 \<le> fd" and base: "base \<noteq> None"
    and u: "heap u = (heap w)(brk w \<mapsto> C_osip s1, Suc (brk w) \<mapsto> C_transport (new_transport (brk w) base fd))"
      "brk u = Suc (Suc (brk w))" "fds u = insert fd (fds w)" "dlog u = dlog w"
  shows "\<exists>st p w'. osip_init_stack E base s1 (brk w) u = Some ((st, p), w') \<and> dlog w' = dlog w \<and>
    (st = ES_OK \<and> p = Some (brk w) \<and> init_done E w base w' \<or> p = None \<and> init_failed w base st w')"
proof -
  have "heap_ok u" unfolding heap_ok_def u using ok by (simp add: heap_ok_def)
  from osip_init_stack_result [of u "brk w" s1 s1 E base, OF _ _ this] obtain st p w' where
    run: "osip_init_stack E base s1 (brk w) u = Some ((st, p), w')" "fds w' = insert fd (fds w)" "dlog w' = dlog w" and
    res: "st = ES_OK \<and> p = Some (brk w) \<and> brk w' = Suc (Suc (Suc (brk w))) \<and>
       heap w' = (heap u)(brk w \<mapsto> C_osip (s1\<lparr>osip := Some (Suc (Suc (brk w))), o_base := base\<rparr>),
         Suc (Suc (brk w)) \<mapsto> C_osip_stack) \<and>
       take (length (registrations E (Some (Suc (Suc (brk w)))))) (hist w') = registrations E (Some (Suc (Suc (brk w))))
     \<or> st \<in> {ES_ERROR_UNKNOWN, ES_ERROR_OUTOFRESOURCES} \<and> p = None \<and> heap w' = (heap u)(brk w := None)"
    using u by (auto simp: zero_osip_def s1_def)
  from res have "st = ES_OK \<and> p = Some (brk w) \<and> init_done E w base w' \<or> p = None \<and> init_failed w base st w'"
  proof (elim disjE conjE)
    assume h: "heap w' = (heap u)(brk w \<mapsto> C_osip (s1\<lparr>osip := Some (Suc (Suc (brk w))), o_base := base\<rparr>), Suc (Suc (brk w)) \<mapsto> C_osip_stack)"
      and *: "st = ES_OK" "p = Some (brk w)" "brk w' = Suc (Suc (Suc (brk w)))"
        "take (length (registrations E (Some (Suc (Suc (brk w)))))) (hist w') = registrations E (Some (Suc (Suc (brk w))))"
    have "heap w' = (heap w)(brk w \<mapsto> C_osip (new_osip (brk w) base (brk w + 1) (brk w + 2)),
        brk w + 1 \<mapsto> C_transport (new_transport (brk w) base fd), brk w + 2 \<mapsto> C_osip_stack)"
      unfolding h u(1) by (auto simp: s1_def new_osip_def zero_osip_def fun_eq_iff)
    with * show ?thesis unfolding init_done_def using fd base run(2) by (auto simp: numeral_eq_Suc)
  next
    assume h: "heap w' = (heap u)(brk w := None)" and *: "st \<in> {ES_ERROR_UNKNOWN, ES_ERROR_OUTOFRESOURCES}" "p = None"
    have "heap w' = (heap w)(brk w + 1 \<mapsto> C_transport (new_transport (brk w) base fd))"
      unfolding h u(1) using ok by (auto simp: heap_ok_def fun_eq_iff)
    with * fd run(2) show ?thesis by (auto simp: init_failed_def)
  qed
  with run show ?thesis by blast
qed

lemma es_osip_init_result:
  assumes ok: "heap_ok w"
  shows "\<exists>st p w'. es_osip_init E base w = Some ((st, p), w') \<and> dlog w' = dlog w \<and>
    (st = ES_OK \<and> p = Some (brk w) \<and> init_done E w base w' \<or> p = None \<and> init_failed w base st w')"
proof (cases "e_ok E w (Libc (L_malloc B_osip))")
  case False
  then show ?thesis by (simp add: es_osip_init_def malloc_eval esip_trace_eval init_failed_def)
next
  case True
  let ?s = "zero_osip\<lparr>o_magic := ES_OSIP_MAGIC\<rparr>"
  let ?v = "put (brk w) (C_osip ?s) (new_cell (C_raw B_osip) (did (Libc (L_malloc B_osip)) w))"
  have v: "heap ?v = (heap w)(brk w \<mapsto> C_osip ?s)" "brk ?v = Suc (brk w)" by simp_all
  have fresh: "heap w (brk w) = None" "heap w (Suc (brk w)) = None" using ok by (simp_all add: heap_ok_def)
  have okv: "heap_ok ?v" using ok by (intro heap_ok_keep) simp_all
  from es_transport_init_returns [of E base ?v] obtain ret t v1 where
    init: "es_transport_init E base ?v = Some ((ret, t), v1)" by auto
  let ?s1 = "?s\<lparr>transportCtx := t\<rparr>"
  let ?v1 = "put (brk w) (C_osip ?s1) v1"
  have unfold: "es_osip_init E base w =
     (if ret \<noteq> ES_OK then do {
        w1 \<leftarrow> esip_trace E ESIP_LOG_ERROR ''es_osip_init'' 122 ?v1;
        w2 \<leftarrow> cfree (Some (brk w)) w1;
        Some ((ret, None), w2) }
      else do {
        (ret, w1) \<leftarrow> es_transport_set_callbacks E t (Some (osip_callbacks (brk w))) ?v1;
        if ret \<noteq> ES_OK then do {
          w2 \<leftarrow> esip_trace E ESIP_LOG_ERROR ''es_osip_init'' 137 w1;
          w3 \<leftarrow> cfree (Some (brk w)) w2;
          Some ((ret, None), w3) }
        else osip_init_stack E base ?s1 (brk w) w1 })"
    using True init by (simp add: es_osip_init_def malloc_eval Let_def)
  show ?thesis
  proof (cases "ret = ES_OK")
    case False
    from es_transport_init_error [OF okv init False] have
      "heap v1 = (heap w)(brk w \<mapsto> C_osip ?s)" "fds v1 = fds w" "dlog v1 = dlog w" by simp_all
    then show ?thesis unfolding unfold using False fresh
      by (simp add: esip_trace_eval cfree_def init_failed_def fun_upd_idem)
  next
    case ret: True
    from es_transport_init_OK [OF init [unfolded ret]] obtain fd where fd:
      "0 \<le> fd" "base \<noteq> None" "t = Some (Suc (brk w))" "brk v1 = Suc (Suc (brk w))" "fds v1 = insert fd (fds w)" "dlog v1 = dlog w"
      "heap v1 = (heap w)(brk w \<mapsto> C_osip ?s, Suc (brk w) \<mapsto> C_transport (zero_transport\<lparr>t_magic := ES_TRANSPORT_MAGIC,
         udp_socket := fd, t_base := base\<rparr>))" by auto
    let ?t = "zero_transport\<lparr>t_magic := ES_TRANSPORT_MAGIC, udp_socket := fd, t_base := base\<rparr>"
    let ?u = "put (Suc (brk w)) (C_transport (?t\<lparr>callbacks := osip_callbacks (brk w)\<rparr>)) ?v1"
    have set: "es_transport_set_callbacks E t (Some (osip_callbacks (brk w))) ?v1 = Some (ES_OK, ?u)"
      unfolding fd(3) by (rule es_transport_set_callbacks_heap) (simp_all add: fd)
    have u: "heap ?u = (heap w)(brk w \<mapsto> C_osip ?s1, Suc (brk w) \<mapsto> C_transport (new_transport (brk w) base fd))"
      "brk ?u = Suc (Suc (brk w))" "fds ?u = insert fd (fds w)" "dlog ?u = dlog w"
      by (auto simp: fd new_transport_def fun_eq_iff)
    have "?s1 = zero_osip\<lparr>o_magic := ES_OSIP_MAGIC, transportCtx := Some (Suc (brk w))\<rparr>" by (simp add: fd(3))
    note run = osip_init_attached [OF ok fd(1,2), of ?u E, folded this, OF u]
    show ?thesis unfolding unfold using ret set run by simp
  qed
qed

section \<open>The invariant of a live context\<close>

text \<open>An operation that keeps every block of the program: it may make new blocks and
  release objects of libosip2. No address is given out twice.\<close>

definition keeps :: "world \<Rightarrow> world \<Rightarrow> bool" where
  "keeps w w' \<longleftrightarrow> fds w' = fds w \<and> dlog w' = dlog w \<and> brk w \<le> brk w' \<and> (heap_ok w \<longrightarrow> heap_ok w') \<and>
     (heap_ok w \<longrightarrow> (\<forall>x c. heap w x = Some c \<longrightarrow> \<not> lib_object c \<longrightarrow> heap w' x = Some c)) \<and>
     (\<forall>y < brk w. heap w y = None \<longrightarrow> heap w' y = None)"

lemma keeps_refl [simp]: "keeps w w"
  by (simp add: keeps_def)

lemma keeps_trans [trans]: "keeps u v \<Longrightarrow> keeps v w \<Longrightarrow> keeps u w"
  by (auto simp: keeps_def)

lemma keeps_steps [simp]:
  "keeps u (did c w) = keeps u w" "keeps u (wrote s w) = keeps u w"
  "keeps (did c u) w = keeps u w" "keeps (wrote s u) w = keeps u w"
  by (auto simp: keeps_def heap_ok_def)

lemma keeps_new: "keeps u w \<Longrightarrow> keeps u (new_cell c w)"
  by (auto simp: keeps_def heap_ok_keep dest: heap_ok_live)

lemma keeps_drop_lib: "keeps u w \<Longrightarrow> heap w x = Some c \<Longrightarrow> lib_object c \<Longrightarrow> keeps u (drop_cell x w)"
  by (clarsimp simp: keeps_def heap_ok_keep) (metis option.inject)

lemma keeps_drop_new: "keeps u w \<Longrightarrow> brk u \<le> x \<Longrightarrow> keeps u (drop_cell x w)"
  by (auto simp: keeps_def heap_ok_keep dest: heap_ok_live)

definition pending_ok :: "ptr \<Rightarrow> world \<Rightarrow> ptr list \<Rightarrow> bool" where
  "pending_ok a w evs \<longleftrightarrow> distinct evs \<and>
     (\<forall>e \<in> set evs. \<exists>ev. heap w e = Some (C_event ev) \<and> ev_fn ev = F_es_osip_loop \<and> ev_arg ev = Some a)"

definition osip_live :: "ptr \<Rightarrow> es_osip_s \<Rightarrow> es_transport_s \<Rightarrow> world \<Rightarrow> bool" where
  "osip_live a s t w \<longleftrightarrow> heap w a = Some (C_osip s) \<and> o_magic s = ES_OSIP_MAGIC \<and>
     (\<exists>b. osip s = Some b \<and> heap w b = Some C_osip_stack) \<and>
     (\<exists>p. transportCtx s = Some p \<and> heap w p = Some (C_transport t)) \<and>
     t_magic t = ES_TRANSPORT_MAGIC \<and> callbacks t = osip_callbacks a \<and>
     (\<forall>e. evudpsock t = Some e \<longrightarrow> e < brk w)"

text \<open>A live context: the handle, the stack and the transport are there, every element of
  the queue is a live event of the loop for this context, no event is queued twice, the
  transport's own event is not queued, and every known dialog is live.\<close>

definition osip_ok :: "ptr \<Rightarrow> world \<Rightarrow> bool" where
  "osip_ok a w \<longleftrightarrow> heap_ok w \<and> (\<exists>s t. osip_live a s t w \<and> pending_ok a w (pendingEv s) \<and>
     (\<forall>e. evudpsock t = Some e \<longrightarrow> e \<notin> set (pendingEv s)) \<and>
     (\<forall>d \<in> set (osipDialog s). heap w d = Some C_dialog))"

definition grown :: "es_osip_s \<Rightarrow> ptr list \<Rightarrow> ptr list \<Rightarrow> es_osip_s" where
  "grown s es ds = s\<lparr>pendingEv := es @ pendingEv s, osipDialog := ds @ osipDialog s\<rparr>"

definition grows :: "ptr \<Rightarrow> world \<Rightarrow> world \<Rightarrow> bool" where
  "grows a w w' \<longleftrightarrow> osip_ok a w' \<and> fds w' = fds w \<and> dlog w' = dlog w \<and> brk w \<le> brk w' \<and>
     (\<forall>x c. heap w x = Some c \<longrightarrow> \<not> lib_object c \<longrightarrow> x \<noteq> a \<longrightarrow> heap w' x = Some c) \<and>
     (\<forall>y < brk w. heap w y = None \<longrightarrow> heap w' y = None) \<and>
     (\<exists>s es ds. heap w a = Some (C_osip s) \<and> heap w' a = Some (C_osip (grown s es ds)) \<and> (\<forall>e \<in> set es. brk w \<le> e))"

lemma grown_simps [simp]:
  "grown s [] [] = s" "grown (grown s es ds) es' ds' = grown s (es' @ es) (ds' @ ds)"
  "osip (grown s es ds) = osip s" "o_magic (grown s es ds) = o_magic s" "o_base (grown s es ds) = o_base s"
  "transportCtx (grown s es ds) = transportCtx s"
  "pendingEv (grown s es ds) = es @ pendingEv s" "osipDialog (grown s es ds) = ds @ osipDialog s"
  by (simp_all add: grown_def)

lemma lib_object_simps [simp]:
  "\<not> lib_object (C_osip s)" "\<not> lib_object C_osip_stack" "\<not> lib_object (C_transport t)" "\<not> lib_object (C_event e)"
  "\<not> lib_object C_dialog" "\<not> lib_object (C_raw b)" "lib_object (C_evt oe)" "lib_object (C_sip m)" "lib_object (C_hdr h)"
  "lib_object (C_tr k)" "\<not> lib_object (C_text d)"
  by (simp_all add: lib_object_def)

lemma growsI:
  assumes ok: "osip_ok a w" and s: "heap w a = Some (C_osip s)" "heap w' a = Some (C_osip (grown s es ds))"
    and h: "heap_ok w'" "fds w' = fds w" "dlog w' = dlog w" "brk w \<le> brk w'"
      "\<And>x c. heap w x = Some c \<Longrightarrow> \<not> lib_object c \<Longrightarrow> x \<noteq> a \<Longrightarrow> heap w' x = Some c"
      "\<And>y. y < brk w \<Longrightarrow> heap w y = None \<Longrightarrow> heap w' y = None"
    and es: "pending_ok a w' es" "\<And>e. e \<in> set es \<Longrightarrow> brk w \<le> e" and ds: "\<And>d. d \<in> set ds \<Longrightarrow> heap w' d = Some C_dialog"
  shows "grows a w w'"
proof -
  from ok s obtain t where live: "osip_live a s t w" and p: "pending_ok a w (pendingEv s)" and
    u: "\<forall>e. evudpsock t = Some e \<longrightarrow> e \<notin> set (pendingEv s)" and d: "\<forall>d \<in> set (osipDialog s). heap w d = Some C_dialog"
    and hw: "heap_ok w"
    by (auto simp: osip_ok_def osip_live_def)
  have old: "heap w' x = Some c" if "heap w x = Some c" "\<not> lib_object c" "\<And>s. c \<noteq> C_osip s" for x c
    using h(5) [of x c] that s(1) by (cases "x = a") auto
  have "osip_live a (grown s es ds) t w'"
    using live s(2) old h(4) unfolding osip_live_def by (auto; force)
  moreover have fresh: "e \<notin> set es" if "e < brk w" for e
    using es(2) that by (auto simp: not_less [symmetric])
  have "pending_ok a w' (es @ pendingEv s)"
    using p es(1) fresh old heap_ok_live [OF hw] unfolding pending_ok_def by (auto; metis cell.distinct lib_object_simps)
  moreover have "\<forall>e. evudpsock t = Some e \<longrightarrow> e \<notin> set (es @ pendingEv s)"
    using u live fresh by (auto simp: osip_live_def)
  moreover have "\<forall>d \<in> set (ds @ osipDialog s). heap w' d = Some C_dialog"
    using d ds old by auto
  ultimately have "osip_ok a w'" using h(1) unfolding osip_ok_def by (intro conjI exI [of _ "grown s es ds"] exI [of _ t]) simp_all
  with s h es(2) show ?thesis unfolding grows_def by blast
qed

lemma osip_okD:
  assumes "osip_ok a w"
  obtains s t where "osip_live a s t w" and "heap w a = Some (C_osip s)" and "pending_ok a w (pendingEv s)"
    and "heap_ok w" and "\<forall>e. evudpsock t = Some e \<longrightarrow> e \<notin> set (pendingEv s)"
    and "\<forall>d \<in> set (osipDialog s). heap w d = Some C_dialog"
  using assms by (auto simp: osip_ok_def osip_live_def)

lemma osip_ok_load:
  assumes "osip_ok a w"
  obtains s t b p where "load as_osip (Some a) w = Some s" and "heap w a = Some (C_osip s)"
    and "o_magic s = ES_OSIP_MAGIC" and "osip s = Some b" and "heap w b = Some C_osip_stack"
    and "transportCtx s = Some p" and "heap w p = Some (C_transport t)" and "t_magic t = ES_TRANSPORT_MAGIC"
    and "heap_ok w"
  using assms by (auto simp: osip_ok_def osip_live_def osip_cell.load_iff)

lemma grows_refl: "osip_ok a w \<Longrightarrow> grows a w w"
  unfolding grows_def by (auto elim!: osip_okD intro!: exI [of _ "[] :: ptr list"])

lemma grows_trans [trans]:
  assumes "grows a u v" and "grows a v w"
  shows "grows a u w"
proof -
  from assms(1) obtain s es ds where s: "heap u a = Some (C_osip s)" "heap v a = Some (C_osip (grown s es ds))"
    and es: "\<forall>e \<in> set es. brk u \<le> e" by (auto simp: grows_def)
  with assms(2) obtain es' ds' where "heap w a = Some (C_osip (grown s (es' @ es) (ds' @ ds)))"
    and "\<forall>e \<in> set es'. brk v \<le> e" by (auto simp: grows_def)
  moreover from this assms(1) es have "\<forall>e \<in> set (es' @ es). brk u \<le> e" by (fastforce simp: grows_def)
  ultimately show ?thesis using assms s unfolding grows_def by (auto intro: exI [of _ s])
qed

lemma grows_keeps:
  assumes "osip_ok a w" and "keeps w w'"
  shows "grows a w w'"
proof -
  from assms(1) obtain s where s: "heap w a = Some (C_osip s)" and ok: "heap_ok w" by (auto elim: osip_okD)
  with assms(2) have "heap w' a = Some (C_osip (grown s [] []))" by (auto simp: keeps_def)
  from growsI [OF assms(1) s this] assms(2) ok show ?thesis by (auto simp: keeps_def pending_ok_def)
qed

lemma grows_ok: "grows a w w' \<Longrightarrow> osip_ok a w'"
  by (simp add: grows_def)

lemma grows_keeps_trans: "grows a u v \<Longrightarrow> keeps v w \<Longrightarrow> grows a u w"
  using grows_trans grows_keeps grows_ok by blast

lemma grows_steps [simp]:
  "osip_ok a (did c w) = osip_ok a w" "osip_ok a (wrote t w) = osip_ok a w"
  "grows a u (did c w) = grows a u w" "grows a u (wrote t w) = grows a u w"
  "grows a (did c w) u = grows a w u" "grows a (wrote t w) u = grows a w u"
  by (simp_all add: osip_ok_def osip_live_def pending_ok_def grows_def heap_ok_def)

text \<open>Building a response keeps every block.\<close>

lemma es_msg_initResponse_keeps:
  assumes "osip_list_laws E" and "heap_ok w" and "heap w r = Some (C_sip rq)" and "m_to rq \<noteq> None" and "m_from rq \<noteq> None"
    and "es_msg_initResponse E c (Some r) w = Some ((st, p), w')"
  shows "keeps w w'" and "st = ES_OK \<longleftrightarrow> p = Some (brk w)" and "st \<noteq> ES_OK \<longleftrightarrow> p = None"
proof -
  have res: "response_result E w rq st p w'" by (rule es_msg_initResponse_result [OF assms])
  have same: "heap w' y = heap w y" if y: "y < brk w" for y
    using res unfolding response_result_def
  proof (elim conjE disjE exE)
    fix m L assume "msg_stage w {} (brk w) L m w'"
    with y have "heap w' y = (heap w ++ L) y" "L y = None" by (auto simp: msg_stage_def not_le [symmetric])
    then show ?thesis by (simp add: map_add_def)
  next
    fix L assume "heap w' = heap w ++ L" "dom L \<subseteq> {brk w..}"
    with y show ?thesis by (auto simp: map_add_def split: option.splits)
  qed
  then have "heap w' x = Some c" if "heap w x = Some c" for x c using that heap_ok_live [OF assms(2) that] by simp
  with res same show "keeps w w'" by (simp add: keeps_def response_result_def)
  from res show "st = ES_OK \<longleftrightarrow> p = Some (brk w)" "st \<noteq> ES_OK \<longleftrightarrow> p = None" by (auto simp: response_result_def)
qed

section \<open>The wake-up queue\<close>

definition wake_event :: "ptr \<Rightarrow> es_osip_s \<Rightarrow> event_s" where
  "wake_event a s = \<lparr>ev_base = o_base s, ev_fd = - 1, ev_flags = EV_READ, ev_fn = F_es_osip_loop, ev_arg = Some a\<rparr>"

text \<open>What a wake-up does to the context \<open>s\<close> at \<open>a\<close>: a new event, in front of the queue unless the
  list refuses it; or a failure, which loses the event when \<^verbatim>\<open>event_add\<close> refused it.\<close>

definition front_refused :: "env \<Rightarrow> ptr list \<Rightarrow> ptr \<Rightarrow> bool" where
  "front_refused E xs x \<longleftrightarrow> (\<exists>v. fst (l_add E v xs (Some x) 0) < 0)"

definition wake_calls :: "ptr \<Rightarrow> es_osip_s \<Rightarrow> ptr \<Rightarrow> call list" where
  "wake_calls a s e = [Lev (Ev_active (Some e) EV_READ), Lev (Ev_add (Some e)), Lev (Ev_priority_set (Some e) 0),
     Lev (Ev_new (o_base s) (- 1) EV_READ F_es_osip_loop (Some a))]"

definition woken :: "env \<Rightarrow> ptr \<Rightarrow> es_osip_s \<Rightarrow> world \<Rightarrow> es_status \<Rightarrow> world \<Rightarrow> bool" where
  "woken E a s w st w' \<longleftrightarrow> fds w' = fds w \<and> dlog w' = dlog w \<and>
     (st = ES_OK \<and> brk w' = Suc (brk w) \<and> hist w' = wake_calls a s (brk w) @ hist w \<and>
        (\<exists>q. heap w' = (heap w)(brk w \<mapsto> C_event (wake_event a s), a \<mapsto> C_osip (s\<lparr>pendingEv := q\<rparr>)) \<and>
           (q = brk w # pendingEv s \<or> q = pendingEv s \<and> front_refused E (pendingEv s) (brk w)))
      \<or> st = ES_ERROR_OUTOFRESOURCES \<and> (\<exists>cs. set cs \<subseteq> range Lev \<and> hist w' = cs @ hist w) \<and>
        (heap w' = heap w \<and> brk w' = brk w
         \<or> heap w' = (heap w)(brk w \<mapsto> C_event (wake_event a s)) \<and> brk w' = Suc (brk w)))"

lemma front_cases:
  assumes "osip_list_laws E"
  shows "snd (l_add E v xs (Some x) 0) = x # xs \<or> snd (l_add E v xs (Some x) 0) = xs \<and> front_refused E xs x"
  using osip_list_lawsD(5) [OF assms, of v xs x] by (auto simp: front_refused_def split: if_splits)

lemma es_osip_wakeup_result:
  assumes laws: "osip_list_laws E" and ok: "heap_ok w" and a: "heap w a = Some (C_osip s)"
  shows "es_osip_wakeup E (Some a) w = Some (st, w') \<Longrightarrow> woken E a s w st w'"
  unfolding es_osip_wakeup_def
  apply (elim run_elims; clarsimp simp: osip_cell.load_iff a woken_def wake_event_def wake_calls_def EV_READ_def
      dest!: run_dests esip_traceD)
  using heap_ok_live [OF ok a]
  by (auto intro!: exI [of _ "snd (l_add E v (pendingEv s) (Some (brk w)) 0)" for v] front_cases [OF laws])

lemma es_osip_wakeup_event:
  assumes "es_osip_wakeup E (Some a) w = Some (ES_OK, w')" and "heap w a = Some (C_osip s)"
  shows "\<exists>v. e_ok E v (Lev (Ev_new (o_base s) (- 1) EV_READ F_es_osip_loop (Some a)))"
proof (rule ccontr)
  assume "\<not> ?thesis"
  with assms show False
    by (simp add: es_osip_wakeup_def esip_trace_eval osip_cell.load_heap [OF assms(2)] ev_new_def ext_new_def)
qed

lemma es_osip_wakeup_defined:
  assumes ok: "heap_ok w" and a: "heap w a = Some (C_osip s)"
  shows "es_osip_wakeup E (Some a) w \<noteq> None"
  using heap_ok_live [OF ok a]
  by (simp add: es_osip_wakeup_def esip_trace_eval osip_cell.load_heap [OF a] ev_new_def ext_new_def ev_priority_set_def
      ev_add_def ev_del_def ev_active_def call_simps Let_def live_event_iff bind_if)

lemma woken_grows:
  assumes ok: "osip_ok a w" and a: "heap w a = Some (C_osip s)" and w': "woken E a s w st w'"
  shows "grows a w w'"
proof -
  from ok have h: "heap_ok w" by (simp add: osip_ok_def)
  have lt: "a < brk w" by (rule heap_ok_live [OF h a])
  have live: "x \<noteq> brk w" if "heap w x = Some c" for x c using heap_ok_live [OF h that] by simp
  from w' have f: "fds w' = fds w" "dlog w' = dlog w" by (simp_all add: woken_def)
  from w' show ?thesis unfolding woken_def
  proof (elim conjE disjE exE)
    fix q assume *: "heap w' = (heap w)(brk w \<mapsto> C_event (wake_event a s), a \<mapsto> C_osip (s\<lparr>pendingEv := q\<rparr>))"
      "q = brk w # pendingEv s" "brk w' = Suc (brk w)"
    then have "heap w' a = Some (C_osip (grown s [brk w] []))" by (simp add: grown_def)
    then show ?thesis
      by (rule growsI [OF ok a]) (use * f h lt live a in \<open>auto simp: heap_ok_def pending_ok_def wake_event_def\<close>)
  next
    fix q assume *: "heap w' = (heap w)(brk w \<mapsto> C_event (wake_event a s), a \<mapsto> C_osip (s\<lparr>pendingEv := q\<rparr>))"
      "q = pendingEv s" "brk w' = Suc (brk w)"
    then have "heap w' a = Some (C_osip (grown s [] []))" by simp
    then show ?thesis
      by (rule growsI [OF ok a]) (use * f h lt live a in \<open>auto simp: heap_ok_def pending_ok_def\<close>)
  next
    assume "heap w' = heap w" "brk w' = brk w"
    with h f have "keeps w w'" by (auto simp: keeps_def heap_ok_def)
    with ok show ?thesis by (rule grows_keeps)
  next
    assume "heap w' = (heap w)(brk w \<mapsto> C_event (wake_event a s))" "brk w' = Suc (brk w)"
    with h f have "keeps w w'" by (auto simp: keeps_def heap_ok_def)
    with ok show ?thesis by (rule grows_keeps)
  qed
qed

lemma es_osip_wakeup_grows:
  assumes "osip_list_laws E" and "osip_ok a w"
  shows "\<exists>st w'. es_osip_wakeup E (Some a) w = Some (st, w') \<and> grows a w w'"
proof -
  from assms(2) obtain s where s: "heap w a = Some (C_osip s)" and ok: "heap_ok w" by (auto elim: osip_okD)
  from es_osip_wakeup_defined [OF ok s, of E] obtain st w' where run: "es_osip_wakeup E (Some a) w = Some (st, w')" by auto
  from es_osip_wakeup_result [OF assms(1) ok s run] woken_grows [OF assms(2) s] run show ?thesis by blast
qed

text \<open>A fresh context is live.\<close>

lemma init_done_ok:
  assumes "heap_ok w" and "init_done E w base w'"
  shows "osip_ok (brk w) w'"
proof -
  let ?s = "new_osip (brk w) base (brk w + 1) (brk w + 2)"
  from assms(2) obtain fd where h: "heap w' = (heap w)(brk w \<mapsto> C_osip ?s,
      brk w + 1 \<mapsto> C_transport (new_transport (brk w) base fd), brk w + 2 \<mapsto> C_osip_stack)" and b: "brk w' = brk w + 3"
    by (auto simp: init_done_def)
  with assms(1) have "heap_ok w'" by (simp add: heap_ok_def)
  with h show ?thesis
    unfolding osip_ok_def osip_live_def
    by (intro conjI exI [of _ ?s] exI [of _ "new_transport (brk w) base fd"])
       (simp_all add: new_osip_def new_transport_def zero_transport_def pending_ok_def)
qed

section \<open>Release\<close>

lemma special_free_events:
  assumes "distinct evs" and "\<forall>e \<in> set evs. \<exists>ev. heap w e = Some (C_event ev)"
  shows "\<exists>w'. special_free es_osip_list_freeEl evs w = Some w' \<and> brk w' = brk w \<and> fds w' = fds w \<and> dlog w' = dlog w \<and>
    hist w' = map (\<lambda>e. Lev (Ev_free (Some e))) (rev evs) @ hist w \<and>
    heap w' = (\<lambda>y. if y \<in> set evs then None else heap w y)"
  using assms
proof (induction evs arbitrary: w)
  case (Cons e evs)
  let ?v = "drop_cell e (did (Lev (Ev_free (Some e))) w)"
  have "live_event (Some e) w" using Cons.prems by (auto simp: live_event_iff)
  then have "special_free es_osip_list_freeEl (e # evs) w = special_free es_osip_list_freeEl evs ?v"
    by (simp add: es_osip_list_freeEl_def ev_free_eval)
  moreover have "\<forall>x \<in> set evs. \<exists>ev. heap ?v x = Some (C_event ev)" using Cons.prems by auto
  from Cons.IH [OF _ this] Cons.prems obtain w' where "special_free es_osip_list_freeEl evs ?v = Some w'"
    "brk w' = brk w" "fds w' = fds w" "dlog w' = dlog w"
    "hist w' = map (\<lambda>e. Lev (Ev_free (Some e))) (rev evs) @ Lev (Ev_free (Some e)) # hist w"
    "heap w' = (\<lambda>y. if y \<in> set evs then None else heap ?v y)" by auto
  ultimately show ?case by (auto simp: fun_eq_iff)
qed simp

text \<open>A live context is released with its queue, its transport and the stack. The socket is
  closed. The known dialogs, and the event of a listening transport, stay.\<close>

lemma es_osip_deinit_result:
  assumes laws: "osip_list_laws E" and "osip_live a s t w" and "pending_ok a w (pendingEv s)" and "transportCtx s = Some p" and "osip s = Some b"
  shows "\<exists>w'. es_osip_deinit E (Some a) w = Some (ES_OK, w') \<and> fds w' = fds w - {udp_socket t} \<and> dlog w' = dlog w \<and>
    brk w' = brk w \<and> heap w' = (\<lambda>y. if y \<in> {a, b, p} \<union> set (pendingEv s) then None else heap w y)"
proof -
  from assms(2-) have a: "heap w a = Some (C_osip s)" "o_magic s = ES_OSIP_MAGIC" and b: "heap w b = Some C_osip_stack"
    and p: "heap w p = Some (C_transport t)" "t_magic t = ES_TRANSPORT_MAGIC" by (auto simp: osip_live_def)
  then have ne: "a \<noteq> b" "a \<noteq> p" "b \<noteq> p" by auto
  have out: "a \<notin> set (pendingEv s)" "b \<notin> set (pendingEv s)" "p \<notin> set (pendingEv s)"
    using assms(3) a(1) b p(1) by (auto simp: pending_ok_def)
  from special_free_events [of "pendingEv s" w] assms(3) obtain v where
    v: "special_free es_osip_list_freeEl (pendingEv s) w = Some v" "brk v = brk w" "fds v = fds w" "dlog v = dlog w"
    "heap v = (\<lambda>y. if y \<in> set (pendingEv s) then None else heap w y)" by (auto simp: pending_ok_def)
  let ?v = "put a (C_osip (s\<lparr>pendingEv := []\<rparr>)) v"
  have "heap ?v p = Some (C_transport t)" using v(5) p out ne by simp
  from es_transport_destroy_heap [OF this p(2), of E] obtain w1 where
    w1: "es_transport_destroy E (Some p) ?v = Some (ES_OK, w1)" "heap w1 = (heap ?v)(p := None)"
    "fds w1 = fds ?v - {udp_socket t}" "dlog w1 = dlog ?v" "brk w1 = brk ?v" by blast
  have "heap w1 b = Some C_osip_stack" using w1(2) v(5) b out ne by simp
  moreover have "heap w1 a = Some (C_osip (s\<lparr>pendingEv := []\<rparr>))" using w1(2) ne by simp
  moreover have "load as_osip (Some a) w = Some s" by (rule osip_cell.load_heap [OF a(1)])
  ultimately have "es_osip_deinit E (Some a) w = Some (ES_OK,
      drop_cell a (did (Libc (L_free (Some a))) (drop_cell b (did (Osip (O_release (Some b))) w1))))"
    using a(2) v(1) w1(1) ne assms(4,5) osip_list_lawsD(7) [OF laws] by (simp add: es_osip_deinit_def lib_free_def is_stack_def cfree_def)
  then show ?thesis using w1(2-) v(2-) by (auto simp: fun_eq_iff)
qed

section \<open>Properties\<close>

text \<open>C20. \<open>es_osip_init\<close> always returns. On success the new handle, with address \<open>brk w\<close>,
  satisfies the invariant of a live context, its transport has a socket of its own and
  every callback of libosip2 is registered with the new stack. On failure the caller gets
  nothing, and either nothing is left behind or, when libosip2 is what failed, the
  transport context and its open socket are lost.\<close>

theorem osip_init_outcomes:
  assumes "heap_ok w"
  shows "\<exists>st p w'. es_osip_init E base w = Some ((st, p), w') \<and>
    (st = ES_OK \<and> p = Some (brk w) \<and> osip_ok (brk w) w' \<and>
       (\<exists>fd. fds w' = insert fd (fds w)) \<and>
       set (registrations E (Some (brk w + 2))) \<subseteq> set (hist w')
     \<or> st \<noteq> ES_OK \<and> p = None \<and>
       (heap w' = heap w \<and> fds w' = fds w
        \<or> (\<exists>fd t. fds w' = insert fd (fds w) \<and> udp_socket t = fd \<and> heap w' = (heap w)(brk w + 1 \<mapsto> C_transport t))))"
proof -
  from es_osip_init_result [OF assms, of E base] obtain st p w' where
    run: "es_osip_init E base w = Some ((st, p), w')" and
    cases: "st = ES_OK \<and> p = Some (brk w) \<and> init_done E w base w' \<or> p = None \<and> init_failed w base st w'" by blast
  from cases show ?thesis
  proof (elim disjE conjE)
    assume ok: "st = ES_OK" "p = Some (brk w)" and "init_done E w base w'"
    moreover from this(3) have "\<exists>fd. fds w' = insert fd (fds w)" and
      "set (registrations E (Some (brk w + 2))) \<subseteq> set (hist w')"
      by (auto simp: init_done_def, metis in_set_takeD)
    ultimately show ?thesis using run init_done_ok [OF assms] by blast
  next
    assume p: "p = None" and failed: "init_failed w base st w'"
    then have "st \<noteq> ES_OK" and "heap w' = heap w \<and> fds w' = fds w
        \<or> (\<exists>fd t. fds w' = insert fd (fds w) \<and> udp_socket t = fd \<and> heap w' = (heap w)(brk w + 1 \<mapsto> C_transport t))"
      unfolding init_failed_def by (auto intro!: exI [of _ "new_transport (brk w) base fd" for fd] simp: new_transport_def)
    with p run show ?thesis by blast
  qed
qed

text \<open>A wake-up of a live context always returns and keeps the invariant of the context.
  When it succeeds, one new event of the loop has been made and activated, and stands in
  front of the queue (unless the list refused it, and then nothing refers to it any more);
  when it fails, the queue is unchanged, but an event that \<^verbatim>\<open>event_add\<close> refused is lost.\<close>

theorem osip_wakeup_outcomes:
  assumes "osip_list_laws E" and "osip_ok a w" and "load as_osip (Some a) w = Some s"
  shows "\<exists>st w'. es_osip_wakeup E (Some a) w = Some (st, w') \<and> osip_ok a w' \<and> woken E a s w st w'"
proof -
  from assms(2) have h: "heap_ok w" by (simp add: osip_ok_def)
  from assms(3) have s: "heap w a = Some (C_osip s)" by (simp add: osip_cell.load_iff)
  from es_osip_wakeup_defined [OF h s, of E] obtain st w' where run: "es_osip_wakeup E (Some a) w = Some (st, w')" by auto
  from es_osip_wakeup_result [OF assms(1) h s run] have "woken E a s w st w'" .
  with woken_grows [OF assms(2) s this] run show ?thesis by (blast dest: grows_ok)
qed

text \<open>C15. Releasing a live context always succeeds: the context, its stack, its transport and
  every queued event are freed, each exactly once, and the socket is closed. Nothing else is:
  the dialogs the context knew are lost with its list, and so is the event of a transport
  that still listens.\<close>

theorem osip_deinit_frees:
  assumes "osip_list_laws E" and "osip_ok a w"
  shows "\<exists>s t w'. load as_osip (Some a) w = Some s \<and> load as_transport (transportCtx s) w = Some t \<and>
    es_osip_deinit E (Some a) w = Some (ES_OK, w') \<and> fds w' = fds w - {udp_socket t} \<and>
    {y. heap w y \<noteq> None \<and> heap w' y = None} = {a, the (osip s), the (transportCtx s)} \<union> set (pendingEv s) \<and>
    (\<forall>y. heap w' y \<noteq> None \<longrightarrow> heap w' y = heap w y) \<and>
    (\<forall>d \<in> set (osipDialog s). heap w' d = Some C_dialog) \<and>
    (live_event (evudpsock t) w \<longrightarrow> live_event (evudpsock t) w')"
proof -
  from assms(2) obtain s t where live: "osip_live a s t w" and p: "pending_ok a w (pendingEv s)"
    and u: "\<forall>e. evudpsock t = Some e \<longrightarrow> e \<notin> set (pendingEv s)" and d: "\<forall>d \<in> set (osipDialog s). heap w d = Some C_dialog"
    by (auto simp: osip_ok_def)
  from live obtain b tp where h: "heap w a = Some (C_osip s)" "osip s = Some b" "heap w b = Some C_osip_stack"
    "transportCtx s = Some tp" "heap w tp = Some (C_transport t)" by (auto simp: osip_live_def)
  from es_osip_deinit_result [OF assms(1) live p h(4,2)] obtain w' where
    run: "es_osip_deinit E (Some a) w = Some (ES_OK, w')" "fds w' = fds w - {udp_socket t}" and
    w': "heap w' = (\<lambda>y. if y \<in> {a, b, tp} \<union> set (pendingEv s) then None else heap w y)" by blast
  have "{y. heap w y \<noteq> None \<and> heap w' y = None} = {a, b, tp} \<union> set (pendingEv s)"
    using h p by (auto simp: w' pending_ok_def)
  moreover have "\<forall>d \<in> set (osipDialog s). heap w' d = Some C_dialog"
    using d h p by (fastforce simp: w' pending_ok_def)
  moreover have "live_event (evudpsock t) w \<longrightarrow> live_event (evudpsock t) w'"
    using u h by (cases "evudpsock t") (auto simp: live_event_def w' is_event_def)
  ultimately show ?thesis using run h w'
    by (intro exI [of _ s] exI [of _ t] exI [of _ w']) (simp add: osip_cell.load_heap transport_cell.load_heap)
qed

text \<open>Wake-ups in a row, as the parser makes them while the loop does not run.\<close>

primrec wakeups :: "env \<Rightarrow> cptr \<Rightarrow> nat \<Rightarrow> world \<Rightarrow> es_status list run" where
  "wakeups E p 0 w = Some ([], w)"
| "wakeups E p (Suc n) w = do {
     (st, w) \<leftarrow> es_osip_wakeup E p w;
     (sts, w) \<leftarrow> wakeups E p n w;
     Some (st # sts, w) }"

definition list_front_accepts :: "env \<Rightarrow> bool" where
  "list_front_accepts E \<longleftrightarrow> (\<forall>v xs a. 0 \<le> fst (l_add E v xs (Some a) 0))"

text \<open>After \<open>n\<close> successful wake-ups the queue has grown by the \<open>n\<close> new events, the last one
  first, and nothing else has changed.\<close>

definition queued :: "ptr \<Rightarrow> es_osip_s \<Rightarrow> nat \<Rightarrow> world \<Rightarrow> world \<Rightarrow> bool" where
  "queued a s n w w' \<longleftrightarrow> fds w' = fds w \<and> brk w' = brk w + n \<and> heap w' a = Some (C_osip (grown s (rev [brk w ..< brk w + n]) [])) \<and>
     (\<forall>y < brk w. y \<noteq> a \<longrightarrow> heap w' y = heap w y)"

lemma wakeups_queued:
  assumes "osip_list_laws E" and "list_front_accepts E"
  shows "wakeups E (Some a) n w = Some (sts, w') \<Longrightarrow> set sts \<subseteq> {ES_OK} \<Longrightarrow> osip_ok a w \<Longrightarrow>
    heap w a = Some (C_osip s) \<Longrightarrow> osip_ok a w' \<and> queued a s n w w'"
proof (induction n arbitrary: w s sts)
  case 0
  then show ?case by (simp add: queued_def)
next
  case (Suc n)
  from Suc.prems obtain v sts' where v: "es_osip_wakeup E (Some a) w = Some (ES_OK, v)"
    and rest: "wakeups E (Some a) n v = Some (sts', w')" "set sts' \<subseteq> {ES_OK}" by (auto elim!: run_elims)
  from Suc.prems have h: "heap_ok w" by (simp add: osip_ok_def)
  from es_osip_wakeup_result [OF assms(1) h Suc.prems(4) v] have wk: "woken E a s w ES_OK v" .
  then have "brk v = Suc (brk w)" "fds v = fds w"
    "heap v = (heap w)(brk w \<mapsto> C_event (wake_event a s), a \<mapsto> C_osip (s\<lparr>pendingEv := brk w # pendingEv s\<rparr>))"
    using assms(2) by (auto simp: woken_def front_refused_def list_front_accepts_def not_less [symmetric])
  note v = this
  then have "heap v a = Some (C_osip (grown s [brk w] []))" by (simp add: grown_def)
  from Suc.IH [OF rest grows_ok [OF woken_grows [OF Suc.prems(3,4) wk]] this]
  have ok: "osip_ok a w'" and q: "queued a (grown s [brk w] []) n v w'" by simp_all
  have upt: "rev [Suc (brk w) ..< Suc (brk w) + n] @ [brk w] = rev [brk w ..< brk w + Suc n]"
    by (simp add: upt_conv_Cons del: upt_Suc)
  have "heap w' a = Some (C_osip (grown s (rev [brk w ..< brk w + Suc n]) []))"
    using q unfolding queued_def v(1) upt [symmetric] by simp
  moreover have "heap w' y = heap w y" if "y < brk w" "y \<noteq> a" for y
    using q that by (simp add: queued_def v)
  ultimately show ?case using ok q v(1,2) unfolding queued_def by simp
qed

text \<open>C14. A context that is created, woken any number of times and released leaves the heap as it was:
  every event of the queue has been freed with it. Its socket is closed.\<close>

theorem osip_life_cycle:
  assumes "osip_list_laws E" and "list_front_accepts E" and "heap_ok w"
    and "es_osip_init E base w = Some ((ES_OK, p), w1)"
    and "wakeups E p n w1 = Some (sts, w2)" and "set sts \<subseteq> {ES_OK}"
  shows "\<exists>fd w3. es_osip_deinit E p w2 = Some (ES_OK, w3) \<and> heap w3 = heap w \<and>
    fds w2 = insert fd (fds w) \<and> fds w3 = fds w - {fd}"
proof -
  from es_osip_init_result [OF assms(3), of E base] assms(4) have p: "p = Some (brk w)" and
    init: "init_done E w base w1" by (auto simp: init_failed_def)
  from init obtain fd where w1: "fds w1 = insert fd (fds w)" "brk w1 = brk w + 3" "heap w1 = (heap w)(brk w \<mapsto> C_osip (new_osip (brk w) base (brk w + 1) (brk w + 2)),
          brk w + 1 \<mapsto> C_transport (new_transport (brk w) base fd), brk w + 2 \<mapsto> C_osip_stack)" by (auto simp: init_done_def)
  let ?s = "new_osip (brk w) base (brk w + 1) (brk w + 2)" and ?q = "rev [brk w + 3 ..< brk w + 3 + n]"
  from w1(3) have s: "heap w1 (brk w) = Some (C_osip ?s)" by simp
  from wakeups_queued [OF assms(1,2) assms(5) [unfolded p] assms(6) init_done_ok [OF assms(3) init] s]
  have ok: "osip_ok (brk w) w2" and q: "queued (brk w) ?s n w1 w2" by simp_all
  have s2: "heap w2 (brk w) = Some (C_osip (grown ?s ?q []))" using q w1(2) by (simp add: queued_def)
  from ok obtain s' t where l: "osip_live (brk w) s' t w2" "heap w2 (brk w) = Some (C_osip s')"
    "pending_ok (brk w) w2 (pendingEv s')" by (rule osip_okD)
  with s2 have s': "s' = grown ?s ?q []" by simp
  note live = l(1) [unfolded s'] and pend = l(3) [unfolded s']
  have h2: "heap w2 (brk w + 1) = Some (C_transport (new_transport (brk w) base fd))"
    using q w1(2,3) by (simp add: queued_def)
  with live have t: "t = new_transport (brk w) base fd" by (auto simp: osip_live_def new_osip_def)
  from es_osip_deinit_result [OF assms(1) live pend, of "brk w + 1" "brk w + 2"] obtain w3 where
    w3: "es_osip_deinit E (Some (brk w)) w2 = Some (ES_OK, w3)" "fds w3 = fds w2 - {fd}"
    "heap w3 = (\<lambda>y. if y \<in> {brk w, brk w + 2, brk w + 1} \<union> set ?q then None else heap w2 y)"
    by (auto simp: new_osip_def t new_transport_def)
  have "heap w3 y = heap w y" for y
  proof (cases "y < brk w + 3 + n")
    case True
    then show ?thesis using q w1(2,3) w3(3) assms(3) by (auto simp: queued_def heap_ok_def)
  next
    case False
    then show ?thesis using q w1(2) w3(3) assms(3) ok by (auto simp: queued_def heap_ok_def osip_ok_def)
  qed
  then have "heap w3 = heap w" by (rule ext)
  with w3(1,2) w1(1) q p show ?thesis by (auto simp: queued_def)
qed

text \<open>A live context at address 100, for the witnesses.\<close>

definition demo_sip :: world where
  "demo_sip = new_cell C_osip_stack (new_cell (C_transport (new_transport 100 (Some 9) 3))
     (new_cell (C_osip (new_osip 100 (Some 9) 101 102)) boot))"

lemma demo_sip_facts [simp]:
  "heap demo_sip = [100 \<mapsto> C_osip (new_osip 100 (Some 9) 101 102), 101 \<mapsto> C_transport (new_transport 100 (Some 9) 3),
     102 \<mapsto> C_osip_stack]"
  "brk demo_sip = 103"
  by (auto simp: demo_sip_def)

lemma demo_sip_ok: "osip_ok 100 demo_sip"
  unfolding osip_ok_def osip_live_def
  by (intro conjI exI [of _ "new_osip 100 (Some 9) 101 102"] exI [of _ "new_transport 100 (Some 9) 3"])
     (auto simp: heap_ok_def new_osip_def new_transport_def zero_transport_def pending_ok_def)

lemma demo_sip_load: "load as_osip (Some 100) demo_sip = Some (new_osip 100 (Some 9) 101 102)"
  by (rule osip_cell.load_heap) simp

lemma plain_env_front: "list_front_accepts plain_env"
  by (simp add: list_front_accepts_def plain_env_def)

lemma demo_init: "\<exists>w'. es_osip_init plain_env (Some 9) boot = Some ((ES_OK, Some 100), w')"
  by (simp add: es_osip_init_def es_transport_init_def es_transport_set_callbacks_def osip_init_stack_def
      es_osip_set_internal_callbacks_def malloc_eval ext_new_st_def call_simps esip_trace_eval Let_def sys_socket_def
      load_def as_transport_def as_osip_def plain_int_def SOCK_DGRAM_def osip_callbacks_def zero_transport_def)

lemma demo_wakeups:
  "osip_ok a w \<Longrightarrow> \<exists>w'. wakeups plain_env (Some a) n w = Some (replicate n ES_OK, w')"
proof (induction n arbitrary: w)
  case (Suc n)
  then obtain s where s: "heap w a = Some (C_osip s)" and h: "heap_ok w" by (auto elim: osip_okD)
  have "\<exists>v. es_osip_wakeup plain_env (Some a) w = Some (ES_OK, v)"
    using heap_ok_live [OF h s]
    by (simp add: es_osip_wakeup_def esip_trace_eval osip_cell.load_heap [OF s] ev_new_def ext_new_def ev_priority_set_def
      ev_add_def ev_del_def ev_active_def call_simps Let_def live_event_iff plain_int_def)
  then obtain v where v: "es_osip_wakeup plain_env (Some a) w = Some (ES_OK, v)" by blast
  from woken_grows [OF Suc.prems s es_osip_wakeup_result [OF plain_env_lists h s v]] have "osip_ok a v"
    by (rule grows_ok)
  from Suc.IH [OF this] v show ?case by auto
qed simp

theorem osip_init_outcomes_witness:
  "heap_ok boot \<and> (\<exists>w'. es_osip_init plain_env (Some 9) boot = Some ((ES_OK, Some 100), w') \<and> osip_ok 100 w')"
  using osip_init_outcomes [OF boot_heap_ok, of plain_env "Some 9"] demo_init boot_heap_ok by auto

theorem osip_wakeup_outcomes_witness:
  "osip_ok 100 demo_sip \<and> (\<exists>st w'. es_osip_wakeup plain_env (Some 100) demo_sip = Some (st, w') \<and> osip_ok 100 w')"
  using osip_wakeup_outcomes [OF plain_env_lists demo_sip_ok demo_sip_load] demo_sip_ok by blast

theorem osip_deinit_frees_witness:
  "osip_ok 100 demo_sip \<and> (\<exists>w'. es_osip_deinit plain_env (Some 100) demo_sip = Some (ES_OK, w') \<and>
     {y. heap demo_sip y \<noteq> None \<and> heap w' y = None} = {100, 101, 102})"
  using osip_deinit_frees [OF plain_env_lists demo_sip_ok] demo_sip_ok
  by (auto simp: demo_sip_load new_osip_def)

theorem osip_life_cycle_witness:
  "\<exists>w1 w2 w3. es_osip_init plain_env (Some 9) boot = Some ((ES_OK, Some 100), w1) \<and>
     wakeups plain_env (Some 100) 2 w1 = Some ([ES_OK, ES_OK], w2) \<and>
     es_osip_deinit plain_env (Some 100) w2 = Some (ES_OK, w3) \<and> heap w3 = Map.empty"
proof -
  from demo_init obtain w1 where w1: "es_osip_init plain_env (Some 9) boot = Some ((ES_OK, Some 100), w1)" by blast
  with es_osip_init_result [OF boot_heap_ok, of plain_env "Some 9"] have "osip_ok 100 w1"
    using init_done_ok [OF boot_heap_ok] by (auto simp: init_failed_def)
  from demo_wakeups [OF this, of 2] obtain w2 where w2: "wakeups plain_env (Some 100) 2 w1 = Some ([ES_OK, ES_OK], w2)"
    by (auto simp: numeral_2_eq_2)
  from osip_life_cycle [OF plain_env_lists plain_env_front boot_heap_ok w1 w2] w1 w2 show ?thesis by auto
qed

end
