(* ===== verification/Es_Osip_Parse.thy ===== *)
theory Es_Osip_Parse
  imports Es_Osip_Context "HOL-Library.Sublist"
begin

text \<open>
  A received packet, \<open>es_osip_parse_msg\<close>: what each kind of message does to the context,
  that every branch keeps the invariant \<open>osip_ok\<close>, and the path of a datagram from the
  transport's read handler to an event in the queue.
\<close>

section \<open>Handing an event to its transaction\<close>

text \<open>What the parser relies on in libosip2's transaction table: the transaction it finds is a live one.\<close>

definition finds_live :: "env \<Rightarrow> bool" where
  "finds_live E \<longleftrightarrow> (\<forall>w p evt t. e_ptr E w (Osip (O_tr_find p evt)) = Some t \<longrightarrow> (\<exists>k. heap w t = Some (C_tr k)))"

definition dispatch_calls :: "ptr \<Rightarrow> ptr \<Rightarrow> ptr \<Rightarrow> int \<Rightarrow> call list" where
  "dispatch_calls a evt t fd = [Osip (O_tr_add_event (Some t) (Some evt)), Osip (O_tr_set_instance (Some t) (Some a)),
     Osip (O_tr_set_out_socket (Some t) fd)]"

text \<open>The state in which the wake-up is made: only calls were made since \<open>v\<close>.\<close>

definition handed :: "ptr \<Rightarrow> ptr \<Rightarrow> ptr \<Rightarrow> int \<Rightarrow> world \<Rightarrow> world \<Rightarrow> bool" where
  "handed a evt t fd v u \<longleftrightarrow> heap u = heap v \<and> brk u = brk v \<and> fds u = fds v \<and> dlog u = dlog v \<and>
     hist u = dispatch_calls a evt t fd @ hist v"

text \<open>The outcomes: the event is queued and the loop woken; the transaction refused it, and both
  are freed; or the loop could not be woken, and the event is freed though the transaction has it.\<close>

definition dispatched :: "env \<Rightarrow> ptr \<Rightarrow> es_osip_s \<Rightarrow> ptr \<Rightarrow> ptr \<Rightarrow> int \<Rightarrow> world \<Rightarrow> es_status \<Rightarrow> world \<Rightarrow> bool" where
  "dispatched E a s evt t fd v st w' \<longleftrightarrow>
     (\<exists>u. handed a evt t fd v u \<and> st = ES_OK \<and> woken E a s u ES_OK w' \<and>
       (\<exists>v. e_ok E v (Lev (Ev_new (o_base s) (- 1) EV_READ F_es_osip_loop (Some a)))))
   \<or> st \<in> {ES_ERROR_UNKNOWN, ES_ERROR_OUTOFRESOURCES} \<and> (\<exists>v c. e_int E v (Osip c) \<noteq> 0) \<and> heap w' = (heap v)(t := None, evt := None) \<and>
       brk w' = brk v \<and> fds w' = fds v \<and> dlog w' = dlog v
   \<or> (\<exists>u u'. handed a evt t fd v u \<and> st = ES_ERROR_UNKNOWN \<and> woken E a s u ES_ERROR_OUTOFRESOURCES u' \<and>
       heap w' = (heap u')(evt := None) \<and> brk w' = brk u' \<and> fds w' = fds u' \<and> dlog w' = dlog u' \<and> hist w' = Libc (L_free (Some evt)) # hist u')"

text \<open>The descriptor handed to libosip2; \<open>es_transport_get_udp_socket\<close> refuses descriptor 0, and then it is -1.\<close>

definition out_fd :: "es_transport_s \<Rightarrow> int" where
  "out_fd t = (if udp_socket t > 0 then udp_socket t else - 1)"

lemma get_udp_socket_run:
  assumes "heap w p = Some (C_transport t)" and "t_magic t = ES_TRANSPORT_MAGIC"
  obtains st fd where "es_transport_get_udp_socket E (Some p) w = Some ((st, fd), w)"
    and "(case fd of None \<Rightarrow> - 1 | Some fd \<Rightarrow> fd) = out_fd t"
  using assms by (cases "0 < udp_socket t") (auto simp: es_transport_get_udp_socket_def transport_cell.load_heap out_fd_def)

lemma dispatch_event_result:
  assumes laws: "osip_list_laws E" and ok: "heap_ok v" and a: "heap v a = Some (C_osip s)"
    and p: "transportCtx s = Some p" "heap v p = Some (C_transport x)" "t_magic x = ES_TRANSPORT_MAGIC"
    and evt: "heap v evt = Some (C_evt e)" and t: "heap v t = Some (C_tr k)"
  shows "\<exists>st w'. dispatch_event E a evt t v = Some (st, w') \<and> dispatched E a s evt t (out_fd x) v st w'"
proof -
  let ?c1 = "Osip (O_tr_set_out_socket (Some t) (out_fd x))"
  let ?c2 = "Osip (O_tr_set_instance (Some t) (Some a))"
  let ?c3 = "Osip (O_tr_add_event (Some t) (Some evt))"
  let ?u = "did ?c3 (did ?c2 (did ?c1 v))"
  have ne: "evt \<noteq> t" using evt t by auto
  from get_udp_socket_run [OF p(2,3)] obtain st fd where
    fd: "es_transport_get_udp_socket E (Some p) v = Some ((st, fd), v)" "(case fd of None \<Rightarrow> - 1 | Some fd \<Rightarrow> fd) = out_fd x" .
  note eval = dispatch_event_def osip_cell.load_heap [OF a] p(1) fd call_simps esip_trace_eval
    lib_free_def is_tr_def cfree_def evt t ne
  consider (socket) "e_int E v ?c1 \<noteq> 0" | (add) "e_int E v ?c1 = 0" "e_int E (did ?c2 (did ?c1 v)) ?c3 \<noteq> 0"
    | (wake) "e_int E v ?c1 = 0" "e_int E (did ?c2 (did ?c1 v)) ?c3 = 0" by blast
  then show ?thesis
  proof cases
    case socket
    then show ?thesis by (auto simp: eval dispatched_def)
  next
    case add
    then show ?thesis by (auto simp: eval dispatched_def)
  next
    case wake
    have hu: "handed a evt t (out_fd x) v ?u" by (simp add: handed_def dispatch_calls_def)
    from a ok have u: "heap ?u a = Some (C_osip s)" "heap_ok ?u" by (simp_all add: heap_ok_keep)
    from es_osip_wakeup_defined [OF u(2,1), of E] obtain st u' where run: "es_osip_wakeup E (Some a) ?u = Some (st, u')" by auto
    from es_osip_wakeup_result [OF laws u(2,1) run] have wk: "woken E a s ?u st u'" .
    show ?thesis
    proof (cases "st = ES_OK")
      case True
      with wake run wk hu es_osip_wakeup_event [OF run [unfolded True] u(1)] show ?thesis by (auto simp: eval dispatched_def)
    next
      case False
      with wk have st: "st = ES_ERROR_OUTOFRESOURCES" by (auto simp: woken_def)
      have "evt < brk ?u" using heap_ok_live [OF ok evt] by simp
      with wk st have "heap u' evt = Some (C_evt e)" using evt by (auto simp: woken_def)
      with wake run wk hu st show ?thesis by (auto simp: eval dispatched_def)
    qed
  qed
qed

section \<open>The search for a dialog\<close>

text \<open>A state that differs by calls and traces only.\<close>

definition only_calls :: "world \<Rightarrow> world \<Rightarrow> bool" where
  "only_calls w w' \<longleftrightarrow> heap w' = heap w \<and> brk w' = brk w \<and> fds w' = fds w \<and> dlog w' = dlog w \<and> sout w' = sout w"

lemma only_calls_simps [simp]:
  "only_calls w w" "only_calls w (did c v) = only_calls w v" "only_calls w (wrote t v) = only_calls w v"
  by (simp_all add: only_calls_def)

lemma only_calls_keeps: "only_calls w w' \<Longrightarrow> keeps w w'"
  by (auto simp: only_calls_def keeps_def heap_ok_def)

text \<open>The calls of a search that has asked the dialogs \<open>ds\<close>.\<close>

definition match_calls :: "cptr \<Rightarrow> ptr list \<Rightarrow> call list" where
  "match_calls msg ds = rev (map (\<lambda>d. Osip (O_dialog_match (Some d) msg)) ds)"

text \<open>The search ends, at the first dialog for which libosip2 answers \<^verbatim>\<open>OSIP_SUCCESS\<close> or past the
  last one.\<close>

definition may_match :: "env \<Rightarrow> cptr \<Rightarrow> bool \<Rightarrow> ptr \<Rightarrow> bool" where
  "may_match E msg b d \<longleftrightarrow> (\<exists>v. (e_int E v (Osip (O_dialog_match (Some d) msg)) = OSIP_SUCCESS) = b)"

definition searched :: "env \<Rightarrow> cptr \<Rightarrow> ptr list \<Rightarrow> world \<Rightarrow> cptr \<Rightarrow> world \<Rightarrow> bool" where
  "searched E msg ds w d w' \<longleftrightarrow> only_calls w w' \<and>
     (d = None \<and> hist w' = match_calls msg ds @ hist w \<and> (\<forall>x \<in> set ds. may_match E msg False x)
      \<or> (\<exists>xs x ys. ds = xs @ x # ys \<and> d = Some x \<and> hist w' = match_calls msg (xs @ [x]) @ hist w \<and>
           (\<forall>y \<in> set xs. may_match E msg False y) \<and> may_match E msg True x))"

lemma find_append_first: "\<forall>x \<in> set xs. \<not> P x \<Longrightarrow> find P (xs @ ys) = find P ys"
  by (induction xs) auto

text \<open>When libosip2's answer depends on the dialog alone, the result is that of \<open>find\<close>.\<close>

lemma searched_find:
  assumes "searched E msg ds w d w'" and "\<And>v x. e_int E v (Osip (O_dialog_match (Some x) msg)) = r x"
  shows "d = find (\<lambda>x. r x = OSIP_SUCCESS) ds"
  using assms(1) unfolding searched_def may_match_def assms(2)
  by (auto simp: find_None_iff find_None_iff2 find_append_first)

text \<open>The dialogs that a search has asked are the first ones of the list.\<close>

lemma searched_asked:
  assumes "searched E msg ds w d w'"
  obtains asked where "hist w' = match_calls msg asked @ hist w" "prefix asked ds"
  using assms by (auto simp: searched_def)

lemma find_dialog_searched:
  assumes laws: "osip_list_laws E"
  shows "heap w a = Some (C_osip s) \<Longrightarrow> length (osipDialog s) - i = n \<Longrightarrow> \<forall>d \<in> set (osipDialog s). heap w d \<noteq> None \<Longrightarrow>
    \<exists>d w'. find_dialog E func line (Some a) msg (int i) w = Some (d, w') \<and> searched E msg (drop i (osipDialog s)) w d w'"
proof (induction n arbitrary: i w)
  case 0
  then have "l_eol E (osipDialog s) (int i)" by (simp add: osip_list_lawsD(2) [OF laws])
  with 0 show ?case
    by (subst find_dialog.simps) (simp add: osip_cell.load_heap searched_def match_calls_def)
next
  case (Suc n)
  let ?ds = "osipDialog s"
  from Suc.prems(2) have i: "i < length ?ds" by simp
  let ?d = "?ds ! i" and ?c = "Osip (O_dialog_match (Some (?ds ! i)) msg)"
  have drop: "drop i ?ds = ?d # drop (Suc i) ?ds" using i by (simp add: Cons_nth_drop_Suc)
  from Suc.prems(3) i obtain x where x: "heap w ?d = Some x" using nth_mem by fastforce
  have unfold: "find_dialog E func line (Some a) msg (int i) w =
      (if e_int E w ?c = OSIP_SUCCESS then do { v \<leftarrow> esip_trace E ESIP_LOG_DEBUG func line (did ?c w); Some (Some ?d, v) }
       else find_dialog E func line (Some a) msg (int i + 1) (did ?c w))"
    using i by (subst find_dialog.simps)
      (simp add: osip_cell.load_heap [OF Suc.prems(1)] osip_list_lawsD(2,3) [OF laws] call_simps x Let_def)
  show ?case
  proof (cases "e_int E w ?c = OSIP_SUCCESS")
    case True
    then show ?thesis unfolding unfold drop
      by (auto simp: esip_trace_eval searched_def match_calls_def may_match_def intro!: exI [of _ "[]"] exI [of _ ?d])
  next
    case False
    have "heap (did ?c w) a = Some (C_osip s)" "length ?ds - Suc i = n" "\<forall>d \<in> set ?ds. heap (did ?c w) d \<noteq> None"
      using Suc.prems by auto
    from Suc.IH [OF this] obtain d w' where
      run: "find_dialog E func line (Some a) msg (int (Suc i)) (did ?c w) = Some (d, w')" and
      res: "searched E msg (drop (Suc i) ?ds) (did ?c w) d w'" by blast
    from res have "searched E msg (?d # drop (Suc i) ?ds) w d w'"
      unfolding searched_def
      apply (elim conjE disjE exE)
      using False apply (fastforce simp: match_calls_def only_calls_def may_match_def)
      subgoal for xs x ys
        using False by (intro conjI disjI2 exI [of _ "?d # xs"] exI [of _ x] exI [of _ ys])
           (auto simp: match_calls_def only_calls_def may_match_def)
      done
    with run False show ?thesis unfolding unfold drop by (auto simp: add.commute)
  qed
qed

section \<open>The outcomes of a packet\<close>

text \<open>The state after \<^verbatim>\<open>osip_parse\<close> has made the message at \<open>brk w\<close> and the event behind it.\<close>

abbreviation evt_of :: "world \<Rightarrow> ptr" where
  "evt_of w \<equiv> Suc (brk w)"

definition parsed :: "byte list \<Rightarrow> u32 \<Rightarrow> evt_kind \<Rightarrow> osip_message_s \<Rightarrow> world \<Rightarrow> world \<Rightarrow> bool" where
  "parsed buf len k m w v \<longleftrightarrow> brk v = brk w + 2 \<and> fds v = fds w \<and> dlog v = dlog w \<and>
     hist v = Osip (O_parse (take (unat len) buf) len) # hist w \<and>
     heap v = (heap w)(brk w \<mapsto> C_sip m, evt_of w \<mapsto> C_evt \<lparr>evt_type = k, evt_sip = Some (brk w)\<rparr>)"

text \<open>The event is freed; its message stays behind.\<close>

definition rejected :: "ptr \<Rightarrow> world \<Rightarrow> world \<Rightarrow> bool" where
  "rejected evt v w' \<longleftrightarrow> heap w' = (heap v)(evt := None) \<and> brk w' = brk v \<and> fds w' = fds v \<and> dlog w' = dlog v"

definition status_outcome :: "env \<Rightarrow> ptr \<Rightarrow> es_osip_s \<Rightarrow> int \<Rightarrow> ptr \<Rightarrow> world \<Rightarrow> es_status \<Rightarrow> world \<Rightarrow> bool" where
  "status_outcome E a s fd evt v st w' \<longleftrightarrow>
     st = ES_ERROR_ILLEGAL_ACTION \<and> rejected evt v w'
   \<or> (\<exists>t k u. heap v t = Some (C_tr k) \<and> only_calls v u \<and> hist u = Osip (O_tr_find (osip s) (Some evt)) # hist v \<and>
        dispatched E a s evt t fd u st w')"

definition request_outcome ::
  "env \<Rightarrow> ptr \<Rightarrow> es_osip_s \<Rightarrow> int \<Rightarrow> ptr \<Rightarrow> ptr \<Rightarrow> trans_kind \<Rightarrow> world \<Rightarrow> es_status \<Rightarrow> world \<Rightarrow> bool" where
  "request_outcome E a s fd evt sip k v st w' \<longleftrightarrow>
     st = ES_ERROR_OUTOFRESOURCES \<and> rejected evt v w' \<and> (\<exists>v c. e_int E v (Osip c) \<noteq> 0)
   \<or> (\<exists>u. heap u = (heap v)(brk v \<mapsto> C_tr k) \<and> brk u = Suc (brk v) \<and> fds u = fds v \<and> dlog u = dlog v \<and>
        hist u = Osip (O_tr_init k (osip s) (Some sip)) # hist v \<and> dispatched E a s evt (brk v) fd u st w')"

definition ack_outcome :: "env \<Rightarrow> es_osip_s \<Rightarrow> ptr \<Rightarrow> ptr \<Rightarrow> world \<Rightarrow> es_status \<Rightarrow> world \<Rightarrow> bool" where
  "ack_outcome E s evt sip v st w' \<longleftrightarrow> st = ES_OK \<and> rejected evt v w' \<and>
     (\<exists>d u. searched E (Some sip) (osipDialog s) v d u \<and>
        hist w' = Libc (L_free (Some evt)) # Osip (O_stop_retransmissions (osip s) d) # hist u)"

definition branch_outcome ::
  "env \<Rightarrow> ptr \<Rightarrow> es_osip_s \<Rightarrow> int \<Rightarrow> ptr \<Rightarrow> ptr \<Rightarrow> evt_kind \<Rightarrow> world \<Rightarrow> es_status \<Rightarrow> world \<Rightarrow> bool" where
  "branch_outcome E a s fd evt sip k v st w' \<longleftrightarrow>
     (case k of
        RCV_STATUS_1XX \<Rightarrow> status_outcome E a s fd evt v st w'
      | RCV_STATUS_2XX \<Rightarrow> status_outcome E a s fd evt v st w'
      | RCV_STATUS_3456XX \<Rightarrow> status_outcome E a s fd evt v st w'
      | RCV_REQACK \<Rightarrow> ack_outcome E s evt sip v st w'
      | RCV_REQINVITE \<Rightarrow> request_outcome E a s fd evt sip IST v st w'
      | RCV_REQUEST \<Rightarrow> request_outcome E a s fd evt sip NIST v st w'
      | EVT_OTHER \<Rightarrow> st = ES_OK \<and> rejected evt v w')"

definition parse_outcome ::
  "env \<Rightarrow> ptr \<Rightarrow> es_osip_s \<Rightarrow> int \<Rightarrow> byte list \<Rightarrow> u32 \<Rightarrow> world \<Rightarrow> es_status \<Rightarrow> world \<Rightarrow> bool" where
  "parse_outcome E a s fd buf len w st w' \<longleftrightarrow>
     (st = ES_ERROR_NETWORK_PROBLEM \<and> only_calls w w') \<or>
     (\<exists>k m v. parsed buf len k m w v \<and> branch_outcome E a s fd (evt_of w) (brk w) k v st w')"

text \<open>A context as the branches of the parser see it.\<close>

definition parsing :: "ptr \<Rightarrow> es_osip_s \<Rightarrow> es_transport_s \<Rightarrow> ptr \<Rightarrow> world \<Rightarrow> bool" where
  "parsing a s x evt v \<longleftrightarrow> heap_ok v \<and> heap v a = Some (C_osip s) \<and>
     (\<exists>b. osip s = Some b \<and> heap v b = Some C_osip_stack) \<and>
     (\<exists>p. transportCtx s = Some p \<and> heap v p = Some (C_transport x)) \<and> t_magic x = ES_TRANSPORT_MAGIC \<and>
     (\<exists>e. heap v evt = Some (C_evt e)) \<and> (\<forall>d \<in> set (osipDialog s). heap v d \<noteq> None)"

lemma parse_status_outcome:
  assumes "osip_list_laws E" and live: "finds_live E" and v: "parsing a s x evt v"
  shows "\<exists>st w'. parse_status E a evt line v = Some (st, w') \<and> status_outcome E a s (out_fd x) evt v st w'"
proof -
  from v obtain b p e where a: "heap v a = Some (C_osip s)" and b: "osip s = Some b" "heap v b = Some C_osip_stack"
    and p: "transportCtx s = Some p" "heap v p = Some (C_transport x)" "t_magic x = ES_TRANSPORT_MAGIC"
    and evt: "heap v evt = Some (C_evt e)" and ok: "heap_ok v" by (auto simp: parsing_def)
  let ?c = "Osip (O_tr_find (osip s) (Some evt))"
  note eval = parse_status_def osip_cell.load_heap [OF a] find_transaction_def b ext_ptr_def esip_trace_eval cfree_def evt
  show ?thesis
  proof (cases "e_ptr E v ?c")
    case None
    then show ?thesis by (simp add: eval status_outcome_def rejected_def)
  next
    case (Some t)
    with live obtain k where t: "heap v t = Some (C_tr k)" unfolding finds_live_def by blast
    have "heap_ok (did ?c v)" using ok by (simp add: heap_ok_keep)
    from dispatch_event_result [OF assms(1) this _ p(1) _ p(3), of a evt e t k] a p evt t obtain st w' where
      run: "dispatch_event E a evt t (did ?c v) = Some (st, w')" "dispatched E a s evt t (out_fd x) (did ?c v) st w'" by auto
    moreover have "parse_status E a evt line v = Some (st, w')" using Some run(1) by (simp add: eval)
    moreover have "status_outcome E a s (out_fd x) evt v st w'"
      unfolding status_outcome_def using t run(2)
      by (intro disjI2 exI [of _ t] exI [of _ k] exI [of _ "did ?c v"]) simp
    ultimately show ?thesis by blast
  qed
qed

lemma parse_request_outcome:
  assumes "osip_list_laws E" and v: "parsing a s x evt v"
  shows "\<exists>st w'. parse_request E k line a evt sip v = Some (st, w') \<and> request_outcome E a s (out_fd x) evt sip k v st w'"
proof -
  from v obtain p e where a: "heap v a = Some (C_osip s)"
    and p: "transportCtx s = Some p" "heap v p = Some (C_transport x)" "t_magic x = ES_TRANSPORT_MAGIC"
    and evt: "heap v evt = Some (C_evt e)" and ok: "heap_ok v" by (auto simp: parsing_def)
  let ?c = "Osip (O_tr_init k (osip s) (Some sip))"
  let ?v = "wrote (trace_text E v 6 ''es_osip_parse_msg'' line) v"
  note eval = parse_request_def osip_cell.load_heap [OF a] init_transaction_def ext_new_st_def esip_trace_eval cfree_def evt
  show ?thesis
  proof (cases "e_int E ?v ?c = 0")
    case False
    then show ?thesis by (auto simp: eval request_outcome_def rejected_def)
  next
    case True
    let ?u = "new_cell (C_tr k) (did ?c ?v)"
    have h: "heap_ok ?u" using ok by (simp add: heap_ok_keep)
    have "a < brk v" "evt < brk v" "p < brk v" using heap_ok_live [OF ok] a evt p by blast+
    with a evt p have "heap ?u a = Some (C_osip s)" "heap ?u evt = Some (C_evt e)" "heap ?u p = Some (C_transport x)"
      "heap ?u (brk v) = Some (C_tr k)" by simp_all
    from dispatch_event_result [OF assms(1) h this(1) p(1) this(3) p(3) this(2,4)] obtain st w' where
      run: "dispatch_event E a evt (brk v) ?u = Some (st, w')" "dispatched E a s evt (brk v) (out_fd x) ?u st w'" by auto
    moreover have "parse_request E k line a evt sip v = Some (st, w')" using True run(1) by (simp add: eval)
    moreover have "request_outcome E a s (out_fd x) evt sip k v st w'"
      unfolding request_outcome_def using run(2) by (intro disjI2 exI [of _ ?u]) simp
    ultimately show ?thesis by blast
  qed
qed

lemma parse_ack_outcome:
  assumes "osip_list_laws E" and v: "parsing a s x evt v"
  shows "\<exists>st w'. parse_ack E a evt sip v = Some (st, w') \<and> ack_outcome E s evt sip v st w'"
proof -
  from v obtain e where a: "heap v a = Some (C_osip s)" and evt: "heap v evt = Some (C_evt e)"
    and d: "\<forall>d \<in> set (osipDialog s). heap v d \<noteq> None" by (auto simp: parsing_def)
  from find_dialog_searched [OF assms(1) a _ d, of 0 _ "''es_osip_parse_msg''" 314 "Some sip"] obtain d u where
    run: "find_dialog E ''es_osip_parse_msg'' 314 (Some a) (Some sip) 0 v = Some (d, u)" and
    s: "searched E (Some sip) (osipDialog s) v d u" by auto
  then have u: "heap u = heap v" "brk u = brk v" "fds u = fds v" "dlog u = dlog v" by (auto simp: searched_def only_calls_def)
  have "load as_osip (Some a) u = Some s" using a u by (simp add: osip_cell.load_heap)
  then show ?thesis using run s evt u
    by (auto simp: parse_ack_def call_simps cfree_def ack_outcome_def rejected_def)
qed

text \<open>The branches of the parser by themselves.\<close>

definition parse_branch :: "env \<Rightarrow> ptr \<Rightarrow> ptr \<Rightarrow> ptr \<Rightarrow> evt_kind \<Rightarrow> world \<Rightarrow> es_status run" where
  "parse_branch E a evt sip k v =
     (case k of
        RCV_STATUS_1XX \<Rightarrow> parse_status E a evt 293 v
      | RCV_STATUS_2XX \<Rightarrow> parse_status E a evt 302 v
      | RCV_STATUS_3456XX \<Rightarrow> parse_status E a evt 302 v
      | RCV_REQACK \<Rightarrow> parse_ack E a evt sip v
      | RCV_REQINVITE \<Rightarrow> parse_request E IST 328 a evt sip v
      | RCV_REQUEST \<Rightarrow> parse_request E NIST 338 a evt sip v
      | EVT_OTHER \<Rightarrow> do { v \<leftarrow> cfree (Some evt) v; Some (ES_OK, v) })"

lemma parse_branch_outcome:
  assumes laws: "osip_list_laws E" "finds_live E" and v: "parsing a s x evt v"
  shows "\<exists>st w'. parse_branch E a evt sip k v = Some (st, w') \<and> branch_outcome E a s (out_fd x) evt sip k v st w'"
proof (cases k)
  case EVT_OTHER
  with v show ?thesis by (auto simp: parse_branch_def branch_outcome_def parsing_def cfree_def rejected_def)
qed (use parse_status_outcome [OF laws v] parse_ack_outcome [OF laws(1) v] parse_request_outcome [OF laws(1) v]
     in \<open>simp_all add: parse_branch_def branch_outcome_def\<close>)

text \<open>What libosip2 makes of the packet, in some state: nothing, or an event of kind \<open>k\<close> with message \<open>m\<close>.\<close>

definition may_read :: "env \<Rightarrow> byte list \<Rightarrow> u32 \<Rightarrow> (evt_kind \<times> osip_message_s) option \<Rightarrow> bool" where
  "may_read E buf len r \<longleftrightarrow> (\<exists>v. e_parse E v (Osip (O_parse (take (unat len) buf) len)) = r)"

lemma parse_msg_split:
  assumes ok: "osip_ok a w" and a: "heap w a = Some (C_osip s)"
    and x: "load as_transport (transportCtx s) w = Some x" and len: "unat len \<le> length buf"
  obtains (bad) v where "es_osip_parse_msg E (Some a) buf len w = Some (ES_ERROR_NETWORK_PROBLEM, v)" and "only_calls w v"
      and "may_read E buf len None"
  | (good) k m v where "es_osip_parse_msg E (Some a) buf len w = parse_branch E a (evt_of w) (brk w) k v"
      and "parsed buf len k m w v" and "parsing a s x (evt_of w) v" and "may_read E buf len (Some (k, m))"
proof -
  let ?w = "wrote (trace_text E w 7 ''es_osip_parse_msg'' 264) w"
  let ?c = "Osip (O_parse (take (unat len) buf) len)"
  from ok a x obtain b p where m: "o_magic s = ES_OSIP_MAGIC" and b: "osip s = Some b" "heap w b = Some C_osip_stack" and
    p: "transportCtx s = Some p" "heap w p = Some (C_transport x)" "t_magic x = ES_TRANSPORT_MAGIC" and
    d: "\<forall>d \<in> set (osipDialog s). heap w d = Some C_dialog" and h: "heap_ok w"
    by (auto simp: osip_ok_def osip_live_def transport_cell.load_iff)
  have lt: "a < brk w" "b < brk w" "p < brk w" "\<forall>d \<in> set (osipDialog s). d < brk w"
    using heap_ok_live [OF h] a b p d by blast+
  note eval = es_osip_parse_msg_def esip_trace_eval osip_cell.load_heap [OF a] osip_parse_def m
  show thesis
  proof (cases "e_parse E ?w ?c")
    case None
    show thesis by (rule bad) (simp add: eval None len not_less, simp, use None in \<open>auto simp: may_read_def\<close>)
  next
    case (Some km)
    obtain k m where km: "km = (k, m)" by (cases km)
    let ?u = "new_cell (C_evt \<lparr>evt_type = k, evt_sip = Some (brk w)\<rparr>) (new_cell (C_sip m) (did ?c ?w))"
    let ?v = "wrote (trace_text E ?u 6 ''es_osip_parse_msg'' 285) ?u"
    have "heap_ok ?v" using h by (simp add: heap_ok_keep)
    with a b p d lt have pv: "parsing a s x (evt_of w) ?v" by (auto simp: parsing_def)
    have v: "parsed buf len k m w ?v" by (simp add: parsed_def)
    have "es_osip_parse_msg E (Some a) buf len w = parse_branch E a (evt_of w) (brk w) k ?v"
      using len Some km by (simp add: eval parse_branch_def Let_def split: evt_kind.split)
    moreover have "may_read E buf len (Some (k, m))" using Some km by (auto simp: may_read_def)
    ultimately show thesis using good v pv by blast
  qed
qed

lemma es_osip_parse_msg_outcome:
  assumes laws: "osip_list_laws E" "finds_live E" and ok: "osip_ok a w" and a: "heap w a = Some (C_osip s)"
    and x: "load as_transport (transportCtx s) w = Some x" and len: "unat len \<le> length buf"
  shows "\<exists>st w'. es_osip_parse_msg E (Some a) buf len w = Some (st, w') \<and> parse_outcome E a s (out_fd x) buf len w st w'"
proof (cases rule: parse_msg_split [OF ok a x len, of E])
  case (1 v)
  then show ?thesis by (auto simp: parse_outcome_def)
next
  case (2 k m v)
  from parse_branch_outcome [OF laws 2(3), of "brk w" k] 2(1,2) show ?thesis by (auto simp: parse_outcome_def)
qed

section \<open>The invariant\<close>

lemma rejected_keeps:
  assumes "rejected evt v w'" and "heap v evt = Some (C_evt e)"
  shows "keeps v w'"
proof -
  have "keeps v (drop_cell evt v)" by (rule keeps_drop_lib [OF keeps_refl assms(2)]) simp
  with assms(1) show ?thesis by (simp add: rejected_def keeps_def heap_ok_def)
qed

lemma parsed_keeps: "heap_ok w \<Longrightarrow> parsed buf len k m w v \<Longrightarrow> keeps w v"
  by (auto simp: parsed_def keeps_def heap_ok_def)

lemma handed_keeps: "handed a evt t fd v u \<Longrightarrow> keeps v u"
  by (auto simp: handed_def keeps_def heap_ok_def)

lemma dispatched_grows:
  assumes ok: "osip_ok a v" and a: "heap v a = Some (C_osip s)"
    and evt: "heap v evt = Some (C_evt e)" and t: "heap v t = Some (C_tr k)" and d: "dispatched E a s evt t fd v st w'"
  shows "grows a v w'"
  using d unfolding dispatched_def
proof (elim disjE conjE exE)
  fix u assume hu: "handed a evt t fd v u" and wk: "woken E a s u ES_OK w'"
  note g = grows_keeps [OF ok handed_keeps [OF hu]]
  have "heap u a = Some (C_osip s)" using a hu by (simp add: handed_def)
  from grows_trans [OF g woken_grows [OF grows_ok [OF g] this wk]] show ?thesis .
next
  assume h: "heap w' = (heap v)(t := None, evt := None)" "brk w' = brk v" "fds w' = fds v" "dlog w' = dlog v"
  have "keeps v w'"
    using h evt t by (auto simp: keeps_def heap_ok_def)
  with ok show ?thesis by (rule grows_keeps)
next
  fix u u' assume hu: "handed a evt t fd v u" and wk: "woken E a s u ES_ERROR_OUTOFRESOURCES u'"
    and h: "heap w' = (heap u')(evt := None)" "brk w' = brk u'" "fds w' = fds u'" "dlog w' = dlog u'"
  note g = grows_keeps [OF ok handed_keeps [OF hu]]
  have ua: "heap u a = Some (C_osip s)" "heap u evt = Some (C_evt e)" "heap_ok u"
    using a evt hu ok by (simp_all add: handed_def osip_ok_def heap_ok_def)
  note g2 = grows_trans [OF g woken_grows [OF grows_ok [OF g] ua(1) wk]]
  have "heap u' evt = Some (C_evt e)" using wk ua heap_ok_live [OF ua(3,2)] by (auto simp: woken_def)
  then have "keeps u' (drop_cell evt u')" by (rule keeps_drop_lib [OF keeps_refl]) simp
  with h have "keeps u' w'" by (simp add: keeps_def heap_ok_def)
  with g2 show ?thesis by (rule grows_keeps_trans)
qed

lemma branch_outcome_grows:
  assumes ok: "osip_ok a v" and a: "heap v a = Some (C_osip s)" and evt: "heap v evt = Some (C_evt e)"
    and b: "branch_outcome E a s fd evt sip k v st w'"
  shows "grows a v w'"
proof -
  have rej: "grows a v w'" if "rejected evt v w'" using rejected_keeps [OF that evt] ok by (rule grows_keeps [rotated])
  have status: "grows a v w'" if "status_outcome E a s fd evt v st w'"
    using that unfolding status_outcome_def
  proof (elim disjE conjE exE)
    fix t k u assume t: "heap v t = Some (C_tr k)" and u: "only_calls v u" and d: "dispatched E a s evt t fd u st w'"
    have g: "grows a v u" by (rule grows_keeps [OF ok only_calls_keeps [OF u]])
    have "heap u = heap v" using u by (simp add: only_calls_def)
    with dispatched_grows [OF grows_ok [OF g] _ _ _ d] a evt t have "grows a u w'" by simp
    with g show ?thesis by (rule grows_trans)
  qed (rule rej)
  have request: "grows a v w'" if "request_outcome E a s fd evt sip k v st w'" for k
    using that unfolding request_outcome_def
  proof (elim disjE conjE exE)
    fix u assume u: "heap u = (heap v)(brk v \<mapsto> C_tr k)" "brk u = Suc (brk v)" "fds u = fds v" "dlog u = dlog v"
      and d: "dispatched E a s evt (brk v) fd u st w'"
    have h: "heap_ok v" using ok by (simp add: osip_ok_def)
    have "keeps v u" using u h by (auto simp: keeps_def heap_ok_def)
    with ok have g: "grows a v u" by (rule grows_keeps)
    have "a \<noteq> brk v" "evt \<noteq> brk v" using heap_ok_live [OF h] a evt by blast+
    with dispatched_grows [OF grows_ok [OF g] _ _ _ d] a evt u have "grows a u w'" by simp
    with g show ?thesis by (rule grows_trans)
  qed (rule rej)
  from b show ?thesis
    unfolding branch_outcome_def using rej status request
    by (cases k) (auto simp: ack_outcome_def)
qed

lemma es_osip_parse_msg_grows:
  assumes laws: "osip_list_laws E" "finds_live E" and ok: "osip_ok a w" and len: "unat len \<le> length buf"
  shows "\<exists>st w'. es_osip_parse_msg E (Some a) buf len w = Some (st, w') \<and> grows a w w'"
proof -
  from ok obtain s t p where a: "heap w a = Some (C_osip s)" and x: "load as_transport (transportCtx s) w = Some t"
    by (auto elim!: osip_ok_load simp: transport_cell.load_heap)
  have h: "heap_ok w" using ok by (simp add: osip_ok_def)
  show ?thesis
  proof (cases rule: parse_msg_split [OF ok a x len, of E])
    case (1 v)
    with grows_keeps [OF ok only_calls_keeps] show ?thesis by auto
  next
    case (2 k m v)
    note g = grows_keeps [OF ok parsed_keeps [OF h 2(2)]]
    from 2(3) obtain e where v: "heap v a = Some (C_osip s)" "heap v (evt_of w) = Some (C_evt e)" by (auto simp: parsing_def)
    from parse_branch_outcome [OF laws 2(3), of "brk w" k] obtain st w' where
      "parse_branch E a (evt_of w) (brk w) k v = Some (st, w')"
      "branch_outcome E a s (out_fd t) (evt_of w) (brk w) k v st w'" by blast
    with 2(1) grows_trans [OF g branch_outcome_grows [OF grows_ok [OF g] v]] show ?thesis by auto
  qed
qed

text \<open>The branch that libosip2's verdict selects.\<close>

lemma parse_msg_branch:
  assumes laws: "osip_list_laws E" "finds_live E" and ok: "osip_ok a w" and a: "heap w a = Some (C_osip s)"
    and x: "load as_transport (transportCtx s) w = Some x" and len: "unat len \<le> length buf"
    and read: "\<And>r. may_read E buf len r \<Longrightarrow> r = Some (k, m)"
  obtains st w' v where "es_osip_parse_msg E (Some a) buf len w = Some (st, w')" and "parsed buf len k m w v"
    and "parsing a s x (evt_of w) v" and "branch_outcome E a s (out_fd x) (evt_of w) (brk w) k v st w'"
proof (cases rule: parse_msg_split [OF ok a x len, of E])
  case (1 v)
  with read [of None] show ?thesis by simp
next
  case (2 k' m' v)
  with read have [simp]: "k' = k" "m' = m" by fastforce+
  from parse_branch_outcome [OF laws 2(3), of "brk w" k] 2 that show ?thesis by auto
qed

section \<open>Refused packets\<close>

text \<open>The two shapes of a refusal: only the event was there and is freed, or its transaction was
  there too. In both the context and the message \<open>sip\<close> are as before.\<close>

definition refused_state :: "ptr \<Rightarrow> ptr \<Rightarrow> ptr \<Rightarrow> world \<Rightarrow> es_status \<Rightarrow> world \<Rightarrow> bool" where
  "refused_state a evt sip v st w' \<longleftrightarrow>
     st \<in> {ES_ERROR_ILLEGAL_ACTION, ES_ERROR_OUTOFRESOURCES} \<and> rejected evt v w'
   \<or> st \<in> {ES_ERROR_UNKNOWN, ES_ERROR_OUTOFRESOURCES} \<and> heap w' a = heap v a \<and> heap w' evt = None \<and> heap w' sip = heap v sip"

lemma dispatched_refused:
  assumes "dispatched E a s evt t fd u st w'" and "st \<noteq> ES_OK" and "a \<notin> {t, evt}" and "sip \<notin> {t, evt}"
    and "a < brk u" and "sip < brk u" and "heap u a = heap v a" and "heap u sip = heap v sip"
  shows "refused_state a evt sip v st w'"
  using assms(2-) assms(1) unfolding dispatched_def woken_def handed_def refused_state_def by (elim disjE conjE exE) auto

lemma branch_refused:
  assumes b: "branch_outcome E a s fd evt sip k v st w'" and st: "st \<noteq> ES_OK" and h: "heap_ok v"
    and a: "heap v a = Some (C_osip s)" and sip: "heap v sip = Some (C_sip m)" and evt: "heap v evt = Some (C_evt e)"
  shows "refused_state a evt sip v st w'"
proof -
  have lt: "a < brk v" "sip < brk v" "evt < brk v" using heap_ok_live [OF h] a sip evt by blast+
  have ne: "a \<noteq> evt" "sip \<noteq> evt" using a sip evt by auto
  have status: "refused_state a evt sip v st w'" if "status_outcome E a s fd evt v st w'"
    using that unfolding status_outcome_def
  proof (elim disjE conjE exE)
    fix t k u assume t: "heap v t = Some (C_tr k)" and u: "only_calls v u" and d: "dispatched E a s evt t fd u st w'"
    from t a sip have "a \<noteq> t" "sip \<noteq> t" by auto
    with dispatched_refused [OF d st] u lt ne show ?thesis by (simp add: only_calls_def)
  qed (simp add: refused_state_def)
  have request: "refused_state a evt sip v st w'" if "request_outcome E a s fd evt sip kind v st w'" for kind
    using that unfolding request_outcome_def
  proof (elim disjE conjE exE)
    fix u assume "heap u = (heap v)(brk v \<mapsto> C_tr kind)" "brk u = Suc (brk v)" and d: "dispatched E a s evt (brk v) fd u st w'"
    with dispatched_refused [OF d st] lt ne show ?thesis by simp
  qed (simp add: refused_state_def)
  from b show ?thesis
  proof (cases k)
    case RCV_REQINVITE
    with b show ?thesis by (intro request) (simp add: branch_outcome_def)
  next
    case RCV_REQUEST
    with b show ?thesis by (intro request) (simp add: branch_outcome_def)
  qed (use b st status in \<open>simp_all add: branch_outcome_def ack_outcome_def\<close>)
qed

section \<open>Accepted requests\<close>

lemma parse_request_effects:
  assumes laws: "osip_list_laws E" "list_front_accepts E" "finds_live E" and ok: "osip_ok a w"
    and s: "load as_osip (Some a) w = Some s" and x: "load as_transport (transportCtx s) w = Some x" and len: "unat len \<le> length buf"
    and read: "\<And>v. e_parse E v (Osip (O_parse (take (unat len) buf) len)) = Some (k, m)"
    and k: "(k, kind) \<in> {(RCV_REQINVITE, IST), (RCV_REQUEST, NIST)}"
    and run: "es_osip_parse_msg E (Some a) buf len w = Some (ES_OK, w')"
  shows "load as_osip (Some a) w' = Some (s\<lparr>pendingEv := (brk w + 3) # pendingEv s\<rparr>) \<and>
    load as_event (Some (brk w + 3)) w' = Some (wake_event a s) \<and>
    load as_tr (Some (brk w + 2)) w' = Some kind \<and>
    load as_evt (Some (brk w + 1)) w' = Some \<lparr>evt_type = k, evt_sip = Some (brk w)\<rparr> \<and>
    load as_sip (Some (brk w)) w' = Some m \<and> brk w' = brk w + 4 \<and>
    hist w' = wake_calls a s (brk w + 3) @ dispatch_calls a (brk w + 1) (brk w + 2) (out_fd x) @
      [Osip (O_tr_init kind (osip s) (Some (brk w))), Osip (O_parse (take (unat len) buf) len)] @ hist w"
proof -
  from s have a: "heap w a = Some (C_osip s)" by (simp add: osip_cell.load_iff)
  have h: "heap_ok w" using ok by (simp add: osip_ok_def)
  have lt: "a < brk w" by (rule heap_ok_live [OF h a])
  have "r = Some (k, m)" if "may_read E buf len r" for r using that read by (auto simp: may_read_def)
  from parse_msg_branch [OF laws(1,3) ok a x len this] run obtain v where
    v: "parsed buf len k m w v" and b: "branch_outcome E a s (out_fd x) (evt_of w) (brk w) k v ES_OK w'" by auto
  from b k have "request_outcome E a s (out_fd x) (evt_of w) (brk w) kind v ES_OK w'" by (auto simp: branch_outcome_def)
  then obtain u u' where u: "heap u = (heap v)(brk v \<mapsto> C_tr kind)" "brk u = Suc (brk v)"
      "hist u = Osip (O_tr_init kind (osip s) (Some (brk w))) # hist v"
    and u': "handed a (evt_of w) (brk v) (out_fd x) u u'" and wk: "woken E a s u' ES_OK w'"
    by (auto simp: request_outcome_def dispatched_def)
  have b: "brk v = brk w + 2" "brk u' = brk w + 3" using v u u' by (auto simp: parsed_def handed_def)
  from wk laws(2) have w': "heap w' = (heap u')(brk u' \<mapsto> C_event (wake_event a s), a \<mapsto> C_osip (s\<lparr>pendingEv := brk u' # pendingEv s\<rparr>))"
    "hist w' = wake_calls a s (brk u') @ hist u'" "brk w' = Suc (brk u')"
    by (auto simp: woken_def front_refused_def list_front_accepts_def not_less [symmetric])
  have "heap w' = (heap w)(brk w \<mapsto> C_sip m, brk w + 1 \<mapsto> C_evt \<lparr>evt_type = k, evt_sip = Some (brk w)\<rparr>,
     brk w + 2 \<mapsto> C_tr kind, brk w + 3 \<mapsto> C_event (wake_event a s), a \<mapsto> C_osip (s\<lparr>pendingEv := (brk w + 3) # pendingEv s\<rparr>))"
    using w'(1) u'  u(1) v b by (simp add: handed_def parsed_def)
  then show ?thesis using lt w'(2,3) u' u(3) v b
    by (simp add: osip_cell.load_iff event_cell.load_iff tr_cell.load_iff evt_cell.load_iff sip_cell.load_iff handed_def parsed_def)
qed

section \<open>Properties\<close>

text \<open>C10. On a live context the parser always returns, whatever the packet is and whatever libosip2,
  libevent and the lists answer. The context stays live: its handle, its stack and its
  transport are where they were, its queue and its dialogs keep all they had, new
  events stand in front, and no block of the program is lost or changed.\<close>

theorem osip_parse_keeps:
  assumes "osip_list_laws E" and "finds_live E" and "osip_ok a w" and "unat len \<le> length buf"
  shows "\<exists>st w' s es ds. es_osip_parse_msg E (Some a) buf len w = Some (st, w') \<and> osip_ok a w' \<and>
    heap w a = Some (C_osip s) \<and> heap w' a = Some (C_osip (grown s es ds)) \<and>
    (\<forall>e \<in> set es. brk w \<le> e) \<and> fds w' = fds w \<and>
    (\<forall>x c. heap w x = Some c \<longrightarrow> \<not> lib_object c \<longrightarrow> x \<noteq> a \<longrightarrow> heap w' x = Some c)"
  using es_osip_parse_msg_grows [OF assms] unfolding grows_def by blast

text \<open>C9. An INVITE, or another request, that is accepted makes these calls and no others, in this
  order: the packet is parsed, a server transaction of the right kind is made, it gets the
  socket, the context and the event, and then the loop is woken by a new event that
  stands in front of the queue.\<close>

theorem osip_parse_request:
  assumes laws: "osip_list_laws E" "list_front_accepts E" "finds_live E" and ok: "osip_ok a w"
    and s: "load as_osip (Some a) w = Some s" and x: "load as_transport (transportCtx s) w = Some x" and len: "unat len \<le> length buf"
    and read: "\<And>v. e_parse E v (Osip (O_parse (take (unat len) buf) len)) = Some (k, m)"
    and k: "(k, kind) \<in> {(RCV_REQINVITE, IST), (RCV_REQUEST, NIST)}"
    and run: "es_osip_parse_msg E (Some a) buf len w = Some (ES_OK, w')"
  shows "load as_osip (Some a) w' = Some (s\<lparr>pendingEv := (brk w + 3) # pendingEv s\<rparr>) \<and>
    load as_event (Some (brk w + 3)) w' = Some (wake_event a s) \<and>
    load as_tr (Some (brk w + 2)) w' = Some kind \<and>
    load as_evt (Some (brk w + 1)) w' = Some \<lparr>evt_type = k, evt_sip = Some (brk w)\<rparr> \<and>
    load as_sip (Some (brk w)) w' = Some m \<and>
    hist w' = wake_calls a s (brk w + 3) @ dispatch_calls a (brk w + 1) (brk w + 2) (out_fd x) @
      [Osip (O_tr_init kind (osip s) (Some (brk w))), Osip (O_parse (take (unat len) buf) len)] @ hist w"
  using parse_request_effects [OF assms] by blast

text \<open>C25. A packet that is refused is answered with one of four codes and leaves the context as it was:
  no event is queued. Bytes that are no SIP message leave the heap as it was. In every other case
  the event that libosip2 made is freed but its message is not: the parsed message is lost, and for
  a response without a transaction it is all that is left behind.\<close>

theorem osip_parse_errors:
  assumes laws: "osip_list_laws E" "finds_live E" and ok: "osip_ok a w" and len: "unat len \<le> length buf"
    and run: "es_osip_parse_msg E (Some a) buf len w = Some (st, w')" and st: "st \<noteq> ES_OK"
  shows "st \<in> {ES_ERROR_NETWORK_PROBLEM, ES_ERROR_ILLEGAL_ACTION, ES_ERROR_OUTOFRESOURCES, ES_ERROR_UNKNOWN} \<and>
    heap w' a = heap w a \<and>
    (st = ES_ERROR_NETWORK_PROBLEM \<longrightarrow> heap w' = heap w) \<and>
    (st = ES_ERROR_ILLEGAL_ACTION \<longrightarrow> (\<exists>m. heap w' = (heap w)(brk w \<mapsto> C_sip m))) \<and>
    (st \<noteq> ES_ERROR_NETWORK_PROBLEM \<longrightarrow> (\<exists>m. heap w' (brk w) = Some (C_sip m) \<and> heap w' (brk w + 1) = None))"
proof -
  from ok obtain s x p where a: "heap w a = Some (C_osip s)" and x: "load as_transport (transportCtx s) w = Some x"
    by (auto elim!: osip_ok_load simp: transport_cell.load_heap)
  have h: "heap_ok w" using ok by (simp add: osip_ok_def)
  have lt: "a < brk w" by (rule heap_ok_live [OF h a])
  have fresh: "heap w (Suc (brk w)) = None" using h by (simp add: heap_ok_def)
  show ?thesis
  proof (cases rule: parse_msg_split [OF ok a x len, of E])
    case (1 v)
    with run show ?thesis by (auto simp: only_calls_def)
  next
    case (2 k m v)
    from parse_branch_outcome [OF laws 2(3), of "brk w" k] 2(1) run have
      b: "branch_outcome E a s (out_fd x) (evt_of w) (brk w) k v st w'" by auto
    from 2(2) have v: "heap v = (heap w)(brk w \<mapsto> C_sip m, evt_of w \<mapsto> C_evt \<lparr>evt_type = k, evt_sip = Some (brk w)\<rparr>)"
      by (simp add: parsed_def)
    from 2(3) have "heap_ok v" by (simp add: parsing_def)
    with branch_refused [OF b st, of m "\<lparr>evt_type = k, evt_sip = Some (brk w)\<rparr>"] a lt have
      "refused_state a (evt_of w) (brk w) v st w'" by (simp add: v)
    moreover have "heap w' = (heap w)(brk w \<mapsto> C_sip m)" if "rejected (evt_of w) v w'"
      using that fresh by (auto simp: rejected_def v fun_eq_iff)
    ultimately show ?thesis using lt fresh by (auto simp: refused_state_def v)
  qed
qed

text \<open>C34. An ACK is answered with \<^verbatim>\<open>ES_OK\<close>, and libosip2 is told to stop the retransmissions of the first
  dialog that matches it, in the order of the list; when none matches, the call is made all the
  same, with a null dialog: the test before it guards an empty statement.\<close>

theorem osip_parse_ack:
  assumes laws: "osip_list_laws E" "finds_live E" and ok: "osip_ok a w"
    and s: "load as_osip (Some a) w = Some s" and len: "unat len \<le> length buf"
    and read: "\<And>v. e_parse E v (Osip (O_parse (take (unat len) buf) len)) = Some (RCV_REQACK, m)"
    and matching: "\<And>v d. e_int E v (Osip (O_dialog_match (Some d) (Some (brk w)))) = r d"
  shows "\<exists>w' asked. es_osip_parse_msg E (Some a) buf len w = Some (ES_OK, w') \<and>
    hist w' = Libc (L_free (Some (brk w + 1)))
      # Osip (O_stop_retransmissions (osip s) (find (\<lambda>d. r d = OSIP_SUCCESS) (osipDialog s)))
      # match_calls (Some (brk w)) asked @ Osip (O_parse (take (unat len) buf) len) # hist w \<and>
    prefix asked (osipDialog s)"
proof -
  from s have a: "heap w a = Some (C_osip s)" by (simp add: osip_cell.load_iff)
  from ok a obtain x where x: "load as_transport (transportCtx s) w = Some x"
    by (auto elim!: osip_ok_load simp: transport_cell.load_heap)
  have only: "r = Some (RCV_REQACK, m)" if "may_read E buf len r" for r using that read by (auto simp: may_read_def)
  from parse_msg_branch [OF laws ok a x len only] obtain st w' v where
    run: "es_osip_parse_msg E (Some a) buf len w = Some (st, w')" and v: "parsed buf len RCV_REQACK m w v"
    and b: "branch_outcome E a s (out_fd x) (evt_of w) (brk w) RCV_REQACK v st w'" by metis
  from b obtain d u where st: "st = ES_OK" and sr: "searched E (Some (brk w)) (osipDialog s) v d u"
    and h: "hist w' = Libc (L_free (Some (evt_of w))) # Osip (O_stop_retransmissions (osip s) d) # hist u"
    by (auto simp: branch_outcome_def ack_outcome_def)
  from sr obtain asked where "hist u = match_calls (Some (brk w)) asked @ hist v" "prefix asked (osipDialog s)"
    by (rule searched_asked)
  with run st h v searched_find [OF sr matching] show ?thesis by (auto simp: parsed_def)
qed

text \<open>When the loop cannot be woken because \<^verbatim>\<open>event_new\<close> fails, the parser frees the event that it has
  just handed to the new transaction. The transaction lives on and holds a dangling event.\<close>

theorem osip_parse_dangling:
  assumes laws: "osip_list_laws E" "finds_live E" and ok: "osip_ok a w" and len: "unat len \<le> length buf"
    and read: "\<And>v. e_parse E v (Osip (O_parse (take (unat len) buf) len)) = Some (RCV_REQINVITE, m)"
    and accepts: "\<And>v c. e_int E v (Osip c) = 0"
    and no_event: "\<And>v c. \<not> e_ok E v (Lev c)"
  shows "\<exists>w' t. es_osip_parse_msg E (Some a) buf len w = Some (ES_ERROR_UNKNOWN, w') \<and>
    load as_tr (Some t) w' = Some IST \<and> Osip (O_tr_free (Some t)) \<notin> set (hist w') - set (hist w) \<and>
    Osip (O_tr_add_event (Some t) (Some (brk w + 1))) \<in> set (hist w') \<and> load as_evt (Some (brk w + 1)) w' = None"
proof -
  from ok obtain s x p where a: "heap w a = Some (C_osip s)" and x: "load as_transport (transportCtx s) w = Some x"
    by (auto elim!: osip_ok_load simp: transport_cell.load_heap)
  have only: "r = Some (RCV_REQINVITE, m)" if "may_read E buf len r" for r using that read by (auto simp: may_read_def)
  from parse_msg_branch [OF laws ok a x len only] obtain st w' v where
    run: "es_osip_parse_msg E (Some a) buf len w = Some (st, w')" and v: "parsed buf len RCV_REQINVITE m w v"
    and b: "branch_outcome E a s (out_fd x) (evt_of w) (brk w) RCV_REQINVITE v st w'" by metis
  from b accepts obtain u where u: "heap u = (heap v)(brk v \<mapsto> C_tr IST)" "brk u = Suc (brk v)"
    "hist u = Osip (O_tr_init IST (osip s) (Some (brk w))) # hist v" and "dispatched E a s (evt_of w) (brk v) (out_fd x) u st w'"
    by (auto simp: branch_outcome_def request_outcome_def)
  with accepts no_event obtain u1 u2 where st: "st = ES_ERROR_UNKNOWN"
    and u1: "handed a (evt_of w) (brk v) (out_fd x) u u1" and wk: "woken E a s u1 ES_ERROR_OUTOFRESOURCES u2"
    and w': "heap w' = (heap u2)(evt_of w := None)" "hist w' = Libc (L_free (Some (evt_of w))) # hist u2"
    unfolding dispatched_def by blast
  from wk obtain cs where u2: "heap u2 = heap u1 \<or> heap u2 = (heap u1)(brk u1 \<mapsto> C_event (wake_event a s))"
      "hist u2 = cs @ hist u1" "set cs \<subseteq> range Lev"
    by (auto simp: woken_def)
  have brk: "brk v = brk w + 2" "brk u1 = brk w + 3" using v u u1 by (simp_all add: parsed_def handed_def)
  have "heap w' (brk v) = Some (C_tr IST)" using u2(1) w'(1) u1 u(1) brk by (auto simp: handed_def)
  moreover have "Osip (O_tr_free (Some (brk v))) \<notin> set (hist w') - set (hist w)"
    using w'(2) u2(2,3) u1 u(3) v by (auto simp: handed_def dispatch_calls_def parsed_def)
  moreover have "Osip (O_tr_add_event (Some (brk v)) (Some (brk w + 1))) \<in> set (hist w')"
    using w'(2) u2(2) u1 by (simp add: handed_def dispatch_calls_def)
  moreover have "load as_evt (Some (brk w + 1)) w' = None" using w'(1) by (simp add: load_def)
  ultimately show ?thesis using run st
    by (intro exI [of _ w'] exI [of _ "brk v"]) (simp add: tr_cell.load_heap)
qed

text \<open>Environments in which libosip2 takes every packet for one kind of message.\<close>

definition reading_env :: "evt_kind \<Rightarrow> env" where
  "reading_env k = plain_env\<lparr>e_parse := (\<lambda>w c. Some (k, empty_message))\<rparr>"

lemma reading_env_sel [simp]:
  "e_int (reading_env k) = plain_int" "e_ok (reading_env k) = (\<lambda>w c. True)" "e_ptr (reading_env k) = (\<lambda>w c. None)"
  "e_parse (reading_env k) = (\<lambda>w c. Some (k, empty_message))"
  by (simp_all add: reading_env_def)

lemma reading_env_laws: "osip_list_laws (reading_env k)" "list_front_accepts (reading_env k)" "finds_live (reading_env k)"
  using plain_env_lists plain_env_front
  by (simp_all add: reading_env_def osip_list_laws_def list_front_accepts_def finds_live_def)

lemma demo_packet: "unat (3 :: u32) \<le> length [73, 78, 86 :: byte]"
  by simp

lemma demo_transport_load:
  "load as_transport (transportCtx (new_osip 100 (Some 9) 101 102)) demo_sip = Some (new_transport 100 (Some 9) 3)"
  by (simp add: new_osip_def transport_cell.load_heap)

lemma demo_parse_invite:
  "\<exists>w'. es_osip_parse_msg (reading_env RCV_REQINVITE) (Some 100) [73, 78, 86] 3 demo_sip = Some (ES_OK, w')"
  by (simp add: es_osip_parse_msg_def osip_parse_def parse_request_def init_transaction_def ext_new_st_def dispatch_event_def
      es_transport_get_udp_socket_def es_osip_wakeup_def ev_new_def ext_new_def ev_priority_set_def ev_add_def ev_active_def
      live_event_iff call_simps esip_trace_eval Let_def load_def as_osip_def as_transport_def plain_int_def new_osip_def
      new_transport_def zero_transport_def)

lemma demo_parse_status:
  "\<exists>w'. es_osip_parse_msg (reading_env RCV_STATUS_1XX) (Some 100) [73, 78, 86] 3 demo_sip = Some (ES_ERROR_ILLEGAL_ACTION, w')"
  by (simp add: es_osip_parse_msg_def osip_parse_def parse_status_def find_transaction_def call_simps esip_trace_eval Let_def
      load_def as_osip_def new_osip_def cfree_def)

theorem osip_parse_keeps_witness:
  "\<exists>st w'. es_osip_parse_msg (reading_env RCV_REQINVITE) (Some 100) [73, 78, 86] 3 demo_sip = Some (st, w') \<and> osip_ok 100 w'"
  using osip_parse_keeps [OF reading_env_laws(1,3) demo_sip_ok demo_packet, of RCV_REQINVITE] by blast

theorem osip_parse_request_witness:
  "\<exists>w'. es_osip_parse_msg (reading_env RCV_REQINVITE) (Some 100) [73, 78, 86] 3 demo_sip = Some (ES_OK, w') \<and>
     load as_osip (Some 100) w' = Some (new_osip 100 (Some 9) 101 102\<lparr>pendingEv := [106]\<rparr>) \<and>
     load as_tr (Some 105) w' = Some IST"
proof -
  from demo_parse_invite obtain w' where
    run: "es_osip_parse_msg (reading_env RCV_REQINVITE) (Some 100) [73, 78, 86] 3 demo_sip = Some (ES_OK, w')" by blast
  from osip_parse_request [OF reading_env_laws demo_sip_ok demo_sip_load demo_transport_load demo_packet _ _ run,
      of RCV_REQINVITE empty_message IST] run
  show ?thesis by (auto simp: new_osip_def)
qed

theorem osip_parse_errors_witness:
  "\<exists>w' m. es_osip_parse_msg (reading_env RCV_STATUS_1XX) (Some 100) [73, 78, 86] 3 demo_sip = Some (ES_ERROR_ILLEGAL_ACTION, w') \<and>
     heap w' = (heap demo_sip)(103 \<mapsto> C_sip m)"
proof -
  from demo_parse_status obtain w' where
    run: "es_osip_parse_msg (reading_env RCV_STATUS_1XX) (Some 100) [73, 78, 86] 3 demo_sip = Some (ES_ERROR_ILLEGAL_ACTION, w')"
    by blast
  from osip_parse_errors [OF reading_env_laws(1,3) demo_sip_ok demo_packet run] run show ?thesis by auto
qed

theorem osip_parse_ack_witness:
  "\<exists>w'. es_osip_parse_msg (reading_env RCV_REQACK) (Some 100) [73, 78, 86] 3 demo_sip = Some (ES_OK, w') \<and>
     Osip (O_stop_retransmissions (Some 102) None) \<in> set (hist w')"
  using osip_parse_ack [OF reading_env_laws(1,3) demo_sip_ok demo_sip_load demo_packet, of RCV_REQACK empty_message "\<lambda>d. 0"]
  by (auto simp: plain_int_def new_osip_def)

definition no_events_env :: env where
  "no_events_env = reading_env RCV_REQINVITE\<lparr>e_ok := (\<lambda>w c. case c of Lev e \<Rightarrow> False | _ \<Rightarrow> True)\<rparr>"

theorem osip_parse_dangling_witness:
  "\<exists>w' t. es_osip_parse_msg no_events_env (Some 100) [73, 78, 86] 3 demo_sip = Some (ES_ERROR_UNKNOWN, w') \<and>
     load as_tr (Some t) w' = Some IST \<and> Osip (O_tr_add_event (Some t) (Some 104)) \<in> set (hist w') \<and>
     load as_evt (Some 104) w' = None"
proof -
  have laws: "osip_list_laws no_events_env" "finds_live no_events_env"
    using reading_env_laws(1,3) by (simp_all add: no_events_env_def osip_list_laws_def finds_live_def)
  from osip_parse_dangling [OF laws demo_sip_ok demo_packet, of empty_message] show ?thesis
    by (auto simp: no_events_env_def plain_int_def)
qed

end
