(* ===== verification/Es_Osip_Loop.thy ===== *)
theory Es_Osip_Loop
  imports Es_Osip_Parse
begin

text \<open>
  The loop that drains the wake-up queue, and the callbacks libosip2 makes while it
  executes its transactions. libosip2 itself is outside code: the hypotheses say what its
  documentation promises of its callbacks. Under them every callback returns and keeps the
  invariant of the context, and the loop ends with an empty queue once libosip2 has
  nothing more to do.
\<close>

section \<open>The history only grows\<close>

abbreviation calls :: "world \<Rightarrow> nat" where
  "calls w \<equiv> length (hist w)"

lemma copy_vias_calls:
  "copy_vias E req i b w = Some r \<Longrightarrow> calls w \<le> calls (snd r)"
  apply (erule copy_vias.raw_induct [where P = "\<lambda>E req i b w r. calls w \<le> calls (snd r)", rotated])
  apply (elim run_elims; clarsimp dest!: msg_dests osip_message_freeD)
  subgoal premises prems using prems(2-) by (auto dest!: prems(1))
  done

lemma find_dialog_calls:
  "find_dialog E func line p msg i w = Some r \<Longrightarrow> calls w \<le> calls (snd r)"
  apply (erule find_dialog.raw_induct [where P = "\<lambda>E func line p msg i w r. calls w \<le> calls (snd r)", rotated])
  apply (elim run_elims; clarsimp dest!: msg_dests)
  subgoal premises prems using prems(2-) by (auto dest!: prems(1))
  done

lemma msg_calls:
  "set_to_tag E p w = Some w1 \<Longrightarrow> calls w \<le> calls w1"
  "set_status E p c w = Some w1 \<Longrightarrow> calls w \<le> calls w1"
  "set_names p w = Some w1 \<Longrightarrow> calls w \<le> calls w1"
  "response_fail E line b w = Some (x, w2) \<Longrightarrow> calls w \<le> calls w2"
  subgoal unfolding set_to_tag_def by (elim run_elims; clarsimp dest!: msg_dests)
  subgoal unfolding set_status_def by (elim run_elims; clarsimp dest!: msg_dests)
  subgoal unfolding set_names_def by (elim run_elims; clarsimp dest!: msg_dests)
  subgoal unfolding response_fail_def by (elim run_elims; clarsimp dest!: msg_dests osip_message_freeD)
  done

lemma hdr_clone_calls: "hdr_clone E h p w = Some (r, w') \<Longrightarrow> calls w \<le> calls w'"
  by (cases r) (auto dest!: hdr_cloneD)

lemma response_headers_calls:
  "response_headers E c req rq b w = Some (x, w') \<Longrightarrow> calls w \<le> calls w'"
  unfolding response_headers_def
  by (elim run_elims; clarsimp dest!: ext_doD; (drule hdr_clone_calls msg_calls copy_vias_calls)+; simp)

lemma es_msg_initResponse_calls:
  "es_msg_initResponse E c req w = Some (x, w') \<Longrightarrow> calls w \<le> calls w'"
  unfolding es_msg_initResponse_def
  by (elim run_elims; clarsimp dest!: msg_dests; drule response_headers_calls; simp)

lemma es_osip_wakeup_calls:
  "es_osip_wakeup E p w = Some (x, w') \<Longrightarrow> calls w \<le> calls w'"
  unfolding es_osip_wakeup_def by (elim run_elims; clarsimp dest!: msg_dests)

lemma es_transport_send_calls:
  "es_transport_send E p ip port msg len w = Some (x, w') \<Longrightarrow> calls w \<le> calls w'"
  unfolding es_transport_send_def by (elim run_elims; clarsimp dest!: msg_dests split: if_splits)

lemma cfree_calls: "cfree p w = Some w' \<Longrightarrow> calls w \<le> calls w'"
  by (cases p) (auto simp: cfree_def split: if_splits)

lemma make_response_calls:
  "make_response E line msg w = Some (x, w') \<Longrightarrow> calls w \<le> calls w'"
  unfolding make_response_def
  by (elim run_elims; clarsimp dest!: msg_dests; drule es_msg_initResponse_calls; simp)

lemma queue_response_calls:
  "queue_response E a tr resp w = Some w' \<Longrightarrow> calls w \<le> calls w'"
  unfolding queue_response_def ext_new_def
  by (elim run_elims; clarsimp dest!: msg_dests; (drule es_osip_wakeup_calls cfree_calls)+; simp)

lemma dialog_established_calls:
  "dialog_established E a tr msg w = Some w' \<Longrightarrow> calls w \<le> calls w'"
  unfolding dialog_established_def Let_def by (elim run_elims; clarsimp dest!: msg_dests)

lemma run_callback_calls:
  "es_internal_send_msg_cb E tr msg addr port sock w = Some (x, w') \<Longrightarrow> calls w \<le> calls w'"
  "es_internal_kill_transaction_cb E ty tr w = Some w' \<Longrightarrow> calls w \<le> calls w'"
  "es_internal_message_cb E mty tr msg w = Some w' \<Longrightarrow> calls w \<le> calls w'"
  subgoal unfolding es_internal_send_msg_cb_def message_to_str_def Let_def
    by (elim run_elims; clarsimp dest!: msg_dests; (drule es_transport_send_calls cfree_calls)+; fastforce)
  subgoal unfolding es_internal_kill_transaction_cb_def by (elim run_elims; clarsimp dest!: msg_dests)
  subgoal unfolding es_internal_message_cb_def
    apply (elim run_elims; clarsimp dest!: msg_dests)
    apply (simp split: msg_type.split_asm)
    by (((elim run_elims)?; clarsimp dest!: msg_dests;
      ((drule make_response_calls queue_response_calls dialog_established_calls find_dialog_calls)+; simp)?)+)
  done

section \<open>What the loop relies on in libosip2\<close>

text \<open>The arguments of a callback: a message event of a transaction comes with the live transaction
  and its live message, which has the headers every parsed message has; a message is sent to some address.\<close>

definition callback_args :: "world \<Rightarrow> callback \<Rightarrow> bool" where
  "callback_args w cb \<longleftrightarrow>
     (case cb of
        Cb_send tr msg addr port sock \<Rightarrow> addr \<noteq> None
      | Cb_message ty tr msg \<Rightarrow> (\<exists>t k. tr = Some t \<and> heap w t = Some (C_tr k)) \<and>
          (\<exists>r rq. msg = Some r \<and> heap w r = Some (C_sip rq) \<and> m_to rq \<noteq> None \<and> m_from rq \<noteq> None)
      | _ \<Rightarrow> True)"

text \<open>The lists behave as documented, the instance of a transaction is the context \<open>a\<close> that
  \<^verbatim>\<open>osip_transaction_set_your_instance\<close> stored or null, the copy of a To header succeeds (without
  that \<open>es_msg_initResponse\<close> is undefined), and callbacks get proper arguments.\<close>

definition osip_lib :: "env \<Rightarrow> ptr \<Rightarrow> bool" where
  "osip_lib E a \<longleftrightarrow> osip_list_laws E \<and>
     (\<forall>w tr. e_ptr E w (Osip (O_tr_get_instance tr)) \<in> {None, Some a}) \<and>
     (\<forall>w p. e_int E w (Omsg (M_hdr_clone Hdr_to p)) = 0) \<and>
     (\<forall>w. callback_args w (e_callback E w))"

lemma osip_lib_instance: "osip_lib E a \<Longrightarrow> e_ptr E w (Osip (O_tr_get_instance tr)) \<in> {None, Some a}"
  unfolding osip_lib_def by blast

section \<open>The callbacks keep the context\<close>

lemma make_response_keeps:
  assumes laws: "osip_list_laws E" and to: "\<And>w p. e_int E w (Omsg (M_hdr_clone Hdr_to p)) = 0" and ok: "heap_ok w"
    and r: "heap w r = Some (C_sip rq)" "m_to rq \<noteq> None" "m_from rq \<noteq> None"
  shows "\<exists>resp w'. make_response E line (Some r) w = Some (resp, w') \<and> keeps w w'"
proof -
  from es_msg_initResponse_defined [OF laws ok r(1) to, of SIP_OK] obtain st p v where
    run: "es_msg_initResponse E SIP_OK (Some r) w = Some ((st, p), v)" by auto
  have "keeps w v" by (rule es_msg_initResponse_keeps [OF laws ok r run])
  with run show ?thesis by (simp add: make_response_def esip_trace_eval)
qed

lemma queue_response_grows:
  assumes laws: "osip_list_laws E" and ok: "osip_ok a w"
  shows "\<exists>w'. queue_response E a tr resp w = Some w' \<and> grows a w w'"
proof -
  let ?e = "C_evt \<lparr>evt_type = EVT_OTHER, evt_sip = resp\<rparr>"
  obtain evt v where evt: "ext_new E (Osip (O_new_outgoing resp)) ?e w = Some (evt, v)"
    using calls_defined(4) by fastforce
  then have v: "keeps w v" "\<And>x. evt = Some x \<Longrightarrow> heap v x = Some ?e"
    by (cases evt; auto dest!: ext_newD intro: keeps_new)+
  let ?u = "did (Osip (O_tr_add_event tr evt)) v"
  from grows_keeps [OF ok v(1)] have g: "grows a w ?u" by simp
  then have oku: "osip_ok a ?u" by (rule grows_ok)
  then obtain s where s: "heap ?u a = Some (C_osip s)" and h: "heap_ok ?u" by (rule osip_okD) blast
  from es_osip_wakeup_defined [OF h s, of E] obtain st u' where run: "es_osip_wakeup E (Some a) ?u = Some (st, u')" by auto
  from es_osip_wakeup_result [OF laws h s run] have wk: "woken E a s ?u st u'" .
  from grows_trans [OF g woken_grows [OF oku s wk]] have gu: "grows a w u'" .
  show ?thesis
  proof (cases "st = ES_OK")
    case True
    with evt run gu show ?thesis by (simp add: queue_response_def call_simps)
  next
    case False
    then have live: "heap u' x = Some ?e" if "evt = Some x" for x
      using wk v(2) [OF that] heap_ok_live [OF h, of x ?e] by (auto simp: woken_def)
    have "\<exists>w'. cfree evt (wrote t u') = Some w' \<and> keeps u' w'" for t
    proof (cases evt)
      case (Some x)
      from keeps_drop_lib [OF keeps_refl live [OF Some]] live [OF Some] Some show ?thesis
        by (simp add: cfree_def keeps_def heap_ok_def)
    qed (simp add: cfree_def)
    with evt run gu False show ?thesis
      by (auto simp: queue_response_def call_simps esip_trace_eval intro: grows_keeps_trans)
  qed
qed

lemma respond_grows:
  assumes laws: "osip_list_laws E" and to: "\<And>w p. e_int E w (Omsg (M_hdr_clone Hdr_to p)) = 0" and ok: "osip_ok a w"
    and r: "heap w r = Some (C_sip rq)" "m_to rq \<noteq> None" "m_from rq \<noteq> None"
  shows "\<exists>w'. do { (resp, w) \<leftarrow> make_response E line (Some r) w;
    if resp = None then Some w else queue_response E a tr resp w } = Some w' \<and> grows a w w'"
proof -
  have h: "heap_ok w" using ok by (simp add: osip_ok_def)
  from make_response_keeps [OF laws to h r] obtain resp v where
    v: "make_response E line (Some r) w = Some (resp, v)" "keeps w v" by blast
  note g = grows_keeps [OF ok v(2)]
  from queue_response_grows [OF laws grows_ok [OF g]] grows_trans [OF g] v g show ?thesis by (cases resp) fastforce+
qed

lemma dialog_established_grows:
  assumes laws: "osip_list_laws E" and ok: "osip_ok a w" and t: "heap w t = Some (C_tr k)" and r: "heap w r = Some (C_sip rq)"
  shows "\<exists>w'. dialog_established E a (Some t) (Some r) w = Some w' \<and> grows a w w'"
proof -
  from ok obtain s where s: "heap w a = Some (C_osip s)" and h: "heap_ok w" by (auto elim: osip_okD)
  have lt: "a < brk w" by (rule heap_ok_live [OF h s])
  let ?c = "Osip (O_dialog_init_as_uas (e_orig E w t) (Some r))"
  let ?d = "Some (brk w)"
  let ?u = "did (Osip (O_dialog_set_instance ?d (Some a))) (new_cell C_dialog (did ?c w))"
  let ?v = "did (Osip (O_dialog_update_route ?d (e_orig E ?u t))) ?u"
  let ?ds = "snd (l_add E ?v (osipDialog s) ?d 0)"
  let ?w = "put a (C_osip (s\<lparr>osipDialog := ?ds\<rparr>)) ?v"
  note eval = dialog_established_def sip_cell.load_heap [OF r] tr_cell.load_heap [OF t] ext_new_st_def esip_trace_eval call_simps
  have v: "heap ?v a = Some (C_osip s)" "heap_ok ?v" using s lt h by (simp_all add: heap_ok_keep)
  from front_cases [OF laws, of ?v "osipDialog s" "brk w"] obtain ds where "?ds = ds @ osipDialog s" and ds: "set ds \<subseteq> {brk w}"
    by (metis append_Cons append_Nil empty_subsetI empty_set list.simps(15) order_refl)
  then have w': "heap ?w a = Some (C_osip (grown s [] ds))" by (simp add: grown_def)
  have "grows a w ?w"
    by (rule growsI [OF ok s w'])
       (use s lt h ds heap_ok_live [OF h] in \<open>auto simp: heap_ok_def pending_ok_def dest: subsetD\<close>)
  moreover have "dialog_established E a (Some t) (Some r) w \<in> {Some w, Some ?w} \<or>
      (\<exists>z. dialog_established E a (Some t) (Some r) w = Some (wrote z (did ?c w)))"
    using v(1) by (auto simp: eval osip_cell.load_heap Let_def)
  ultimately show ?thesis using grows_refl [OF ok] by auto
qed

lemma message_cb_grows:
  assumes lib: "osip_lib E a" and ok: "osip_ok a w" and args: "callback_args w (Cb_message ty tr msg)"
  shows "\<exists>w'. es_internal_message_cb E ty tr msg w = Some w' \<and> grows a w w'"
proof -
  from args obtain t k r rq where t: "tr = Some t" "heap w t = Some (C_tr k)" and
    r: "msg = Some r" "heap w r = Some (C_sip rq)" "m_to rq \<noteq> None" "m_from rq \<noteq> None" by (auto simp: callback_args_def)
  from lib have laws: "osip_list_laws E" and to: "\<And>w p. e_int E w (Omsg (M_hdr_clone Hdr_to p)) = 0"
    by (auto simp: osip_lib_def)
  let ?w = "wrote (trace_text E w 7 ''_es_internal_message_cb'' 580) w"
  let ?c = "Osip (O_tr_get_instance tr)"
  let ?v = "did ?c ?w"
  show ?thesis
  proof (cases "e_ptr E ?w ?c")
    case None
    then show ?thesis using ok grows_refl [OF ok] by (simp add: es_internal_message_cb_def esip_trace_eval ext_ptr_def)
  next
    case (Some p)
    with osip_lib_instance [OF lib, of ?w tr] have p: "e_ptr E ?w ?c = Some a" by auto
    from ok obtain s where s: "heap w a = Some (C_osip s)" "o_magic s = ES_OSIP_MAGIC" and
      d: "\<forall>d \<in> set (osipDialog s). heap w d = Some C_dialog"
      by (auto elim!: osip_okD simp: osip_live_def)
    have okv: "osip_ok a (wrote z ?v)" for z using ok by simp
    have answer: "\<exists>w'. do { (resp, w) \<leftarrow> make_response E line msg (wrote z ?v);
        if resp = None then Some w else queue_response E a tr resp w } = Some w' \<and> grows a w w'" for line z
      using respond_grows [OF laws to okv [of z], where r = r and line = line and tr = tr] r by simp
    note eval = es_internal_message_cb_def esip_trace_eval ext_ptr_def p osip_cell.load_heap [OF s(1)] s(2)
    show ?thesis
    proof (cases ty)
      case OSIP_IST_INVITE_RECEIVED
      with answer show ?thesis by (simp add: eval)
    next
      case OSIP_NIST_REGISTER_RECEIVED
      with answer show ?thesis by (simp add: eval)
    next
      case OSIP_IST_STATUS_2XX_SENT
      with dialog_established_grows [OF laws okv, of _ t k r rq] t r show ?thesis by (simp add: eval p [unfolded t(1)])
    next
      case OSIP_NIST_BYE_RECEIVED
      from find_dialog_searched [OF laws, of ?v a s 0 _ "''_es_internal_message_cb''" 658 msg] s(1) d obtain dlg u where
        run: "find_dialog E ''_es_internal_message_cb'' 658 (Some a) msg 0 ?v = Some (dlg, u)" and
        "searched E msg (osipDialog s) ?v dlg u" by auto
      then have "only_calls ?v u" by (simp add: searched_def)
      then have u: "only_calls w u" by (simp add: only_calls_def)
      let ?u = "wrote (trace_text E u 6 ''_es_internal_message_cb'' 663) u"
      from grows_keeps [OF ok only_calls_keeps [OF u]] have g: "grows a w ?u" by simp
      have "heap ?u r = Some (C_sip rq)" using u r by (simp add: only_calls_def)
      from respond_grows [OF laws to grows_ok [OF g] this r(3,4), where line = 665 and tr = tr] grows_trans [OF g] run OSIP_NIST_BYE_RECEIVED r(1)
      show ?thesis by (auto simp: eval)
    qed (use grows_refl [OF ok] in \<open>simp_all add: eval\<close>)
  qed
qed

lemma send_cb_grows:
  assumes lib: "osip_lib E a" and ok: "osip_ok a w" and args: "callback_args w (Cb_send tr msg addr port sock)"
  shows "\<exists>r w'. es_internal_send_msg_cb E tr msg addr port sock w = Some (r, w') \<and> grows a w w'"
proof -
  let ?c = "Osip (O_tr_get_instance tr)"
  from args obtain ip where ip: "addr = Some ip" by (auto simp: callback_args_def)
  from ok obtain s t b p where s: "heap w a = Some (C_osip s)" "o_magic s = ES_OSIP_MAGIC" and
    p: "transportCtx s = Some p" "heap w p = Some (C_transport t)" "t_magic t = ES_TRANSPORT_MAGIC" and h: "heap_ok w"
    by (rule osip_ok_load)
  show ?thesis
  proof (cases "e_ptr E w ?c")
    case None
    then show ?thesis using grows_refl [OF ok] by (simp add: es_internal_send_msg_cb_def esip_trace_eval ext_ptr_def)
  next
    case (Some q)
    with osip_lib_instance [OF lib, of w tr] have q: "e_ptr E w ?c = Some a" by auto
    let ?d = "e_bytes E (did ?c w) (Osip (O_message_to_str msg))"
    obtain buf v where v: "message_to_str E msg (did ?c w) = Some ((buf, if buf = None then [] else ?d), v)"
      and buf: "buf = None \<and> v = did (Osip (O_message_to_str msg)) (did ?c w) \<or>
        buf = Some (brk w) \<and> v = new_cell (C_text ?d) (did (Osip (O_message_to_str msg)) (did ?c w))"
      by (cases "e_int E (did ?c w) (Osip (O_message_to_str msg)) = 0") (auto simp: message_to_str_def ext_new_st_def Let_def)
    have k: "keeps w v" using buf by (auto intro: keeps_new)
    with h p have "heap v p = Some (C_transport t)" by (auto simp: keeps_def)
    then have send: "\<exists>u. es_transport_send E (Some p) addr port d (length d) (wrote z v) = Some (ES_OK, u) \<and> only_calls v u" for d z
      using p(3) by (simp add: es_transport_send_def transport_cell.load_heap ip call_simps)
    have free: "\<exists>u'. cfree buf u = Some u' \<and> keeps w u'" if "only_calls v u" for u
      using that buf k
      by (auto simp: cfree_def only_calls_def keeps_def heap_ok_def dest: heap_ok_live [OF h])
    let ?dd = "if buf = None then [] else ?d"
    from send [of ?dd "trace_text E v 7 ''_es_internal_send_msg_cb'' 544"] free obtain u u' where
      u: "es_transport_send E (Some p) addr port ?dd (length ?dd) (wrote (trace_text E v 7 ''_es_internal_send_msg_cb'' 544) v) = Some (ES_OK, u)"
      "cfree buf u = Some u'" "keeps w u'" by blast
    then show ?thesis using v q grows_keeps [OF ok u(3)]
      by (simp add: es_internal_send_msg_cb_def esip_trace_eval ext_ptr_def osip_cell.load_heap [OF s(1)] s(2) p(1) del: length_0_conv)
  qed
qed

lemma kill_cb_grows:
  assumes lib: "osip_lib E a" and ok: "osip_ok a w"
  shows "\<exists>w'. es_internal_kill_transaction_cb E ty tr w = Some w' \<and> grows a w w'"
proof -
  let ?w = "wrote (trace_text E w 6 ''_es_internal_kill_transaction_cb'' 560) w"
  from ok obtain s where s: "load as_osip (Some a) w = Some s" "o_magic s = ES_OSIP_MAGIC" by (rule osip_ok_load)
  from osip_lib_instance [OF lib, of ?w tr] show ?thesis using s grows_refl [OF ok]
    by (auto simp: es_internal_kill_transaction_cb_def esip_trace_eval ext_ptr_def)
qed

lemma run_callback_grows:
  assumes lib: "osip_lib E a" and ok: "osip_ok a w" and args: "callback_args w cb"
  shows "\<exists>w'. run_callback E cb w = Some w' \<and> grows a w w'"
proof (cases cb)
  case (Cb_send tr msg addr port sock)
  with send_cb_grows [OF lib ok, of tr msg addr port sock] args show ?thesis by (auto simp: run_callback_def)
next
  case (Cb_kill ty tr)
  with kill_cb_grows [OF lib ok] show ?thesis by (simp add: run_callback_def)
next
  case (Cb_transport_error ty tr err)
  with grows_refl [OF ok] show ?thesis by (simp add: run_callback_def es_internal_transport_error_cb_def esip_trace_eval)
next
  case (Cb_message ty tr msg)
  with message_cb_grows [OF lib ok] args show ?thesis by (simp add: run_callback_def)
qed

lemma run_callbacks_grows:
  assumes lib: "osip_lib E a"
  shows "osip_ok a w \<Longrightarrow> \<exists>w'. run_callbacks E n w = Some w' \<and> grows a w w'"
proof (induction n arbitrary: w)
  case 0
  then show ?case by (simp add: grows_refl)
next
  case (Suc n)
  let ?cb = "e_callback E w"
  have "callback_args (did (Enter_cb ?cb) w) ?cb"
    using lib by (cases ?cb) (auto simp: osip_lib_def callback_args_def dest!: spec [of _ w])
  from run_callback_grows [OF lib _ this] Suc.prems obtain v where
    v: "run_callback E ?cb (did (Enter_cb ?cb) w) = Some v" "grows a w v" by auto
  from Suc.IH [OF grows_ok [OF v(2)]] grows_trans [OF v(2)] v(1) show ?case by auto
qed

lemma lib_release_keeps: "keeps w (lib_release E w)"
  by (auto simp: keeps_def lib_release_def heap_ok_def)

lemma osip_execute_grows:
  assumes lib: "osip_lib E a" and ok: "osip_ok a w"
  shows "\<exists>r w'. osip_execute E ph stack w = Some (r, w') \<and> grows a w w'"
proof -
  from run_callbacks_grows [OF lib, of "did (Osip (O_execute ph stack)) w"] ok obtain v where
    "run_callbacks E (e_callbacks E w (Osip (O_execute ph stack))) (did (Osip (O_execute ph stack)) w) = Some v" "grows a w v"
    by auto
  with grows_keeps_trans [OF _ lib_release_keeps] show ?thesis by (simp add: osip_execute_def Let_def)
qed

lemma execute_grows:
  assumes lib: "osip_lib E a" and ok: "osip_ok a w"
  shows "\<exists>w'. execute_queue E ph line stack w = Some w' \<and> grows a w w'"
    and "\<exists>w'. execute_timers E ph line stack w = Some w' \<and> grows a w w'"
proof -
  have "osip_ok a (wrote z w)" for z using ok by simp
  note run = osip_execute_grows [OF lib this, where ph = ph and stack = stack, simplified]
  show "\<exists>w'. execute_queue E ph line stack w = Some w' \<and> grows a w w'"
    using run [of "trace_text E w 7 ''_es_osip_loop'' line"] by (auto simp: execute_queue_def esip_trace_eval)
  show "\<exists>w'. execute_timers E ph line stack w = Some w' \<and> grows a w w'"
    using run [of "trace_text E w 7 ''_es_osip_loop'' line"] by (auto simp: execute_timers_def esip_trace_eval)
qed

text \<open>One of the eight executions of an iteration, before whatever follows.\<close>

lemma bind_grows:
  assumes "\<exists>v. m = Some v \<and> grows a w v" and "\<And>v. osip_ok a v \<Longrightarrow> \<exists>w'. f v = Some w' \<and> grows a v w'"
  shows "\<exists>w'. Option.bind m f = Some w' \<and> grows a w w'"
proof -
  from assms(1) obtain v where v: "m = Some v" "grows a w v" by blast
  from assms(2) [OF grows_ok [OF v(2)]] obtain w' where "f v = Some w'" "grows a v w'" by blast
  with v grows_trans show ?thesis by auto
qed

lemma execute_bind:
  assumes lib: "osip_lib E a" and ok: "osip_ok a w" and rest: "\<And>v. osip_ok a v \<Longrightarrow> \<exists>w'. f v = Some w' \<and> grows a v w'"
  shows "\<exists>w'. Option.bind (load as_osip (Some a) w) (\<lambda>s. Option.bind (execute_queue E ph line (osip s) w) f) = Some w' \<and> grows a w w'"
    and "\<exists>w'. Option.bind (load as_osip (Some a) w) (\<lambda>s. Option.bind (execute_timers E ph line (osip s) w) f) = Some w' \<and> grows a w w'"
proof -
  from ok obtain s where s: "load as_osip (Some a) w = Some s" by (rule osip_ok_load)
  show "\<exists>w'. Option.bind (load as_osip (Some a) w) (\<lambda>s. Option.bind (execute_queue E ph line (osip s) w) f) = Some w' \<and> grows a w w'"
    unfolding s bind.bind_lunit by (rule bind_grows [OF execute_grows(1) [OF lib ok] rest])
  show "\<exists>w'. Option.bind (load as_osip (Some a) w) (\<lambda>s. Option.bind (execute_timers E ph line (osip s) w) f) = Some w' \<and> grows a w w'"
    unfolding s bind.bind_lunit by (rule bind_grows [OF execute_grows(2) [OF lib ok] rest])
qed

lemma execute_all_grows:
  assumes lib: "osip_lib E a" and ok: "osip_ok a w"
  shows "\<exists>w'. execute_all E (Some a) w = Some w' \<and> grows a w w'"
proof -
  have last: "\<exists>w'. do { s \<leftarrow> load as_osip (Some a) v; execute_timers E ph line (osip s) v } = Some w' \<and> grows a v w'"
    if v: "osip_ok a v" for v ph line
    using osip_ok_load [OF v] execute_grows(2) [OF lib v] by (metis bind.bind_lunit)
  show ?thesis unfolding execute_all_def
    by (intro execute_bind [OF lib] ok last) assumption+
qed

lemma execute_calls:
  "run_callback E cb w = Some w' \<Longrightarrow> calls w \<le> calls w'"
  "run_callbacks E n w = Some w' \<Longrightarrow> calls w \<le> calls w'"
  "osip_execute E ph stack w = Some (r, w') \<Longrightarrow> calls w \<le> calls w'"
  "execute_queue E ph line stack w = Some w' \<Longrightarrow> calls w \<le> calls w'"
  "execute_timers E ph line stack w = Some w' \<Longrightarrow> calls w \<le> calls w'"
  "execute_all E p w = Some w' \<Longrightarrow> calls w \<le> calls w'"
proof -
  have cb: "calls w \<le> calls w'" if "run_callback E cb w = Some w'" for cb w w'
    using that unfolding run_callback_def es_internal_transport_error_cb_def
    by (cases cb; simp) (auto elim!: run_elims dest: run_callback_calls dest!: esip_traceD)
  have cbs: "run_callbacks E n w = Some w' \<Longrightarrow> calls w \<le> calls w'" for n w w'
  proof (induction n arbitrary: w)
    case (Suc n)
    from Suc.prems obtain v where v: "run_callback E (e_callback E w) (did (Enter_cb (e_callback E w)) w) = Some v"
      "run_callbacks E n v = Some w'" by (auto elim!: run_elims)
    from cb [OF v(1)] Suc.IH [OF v(2)] show ?case by simp
  qed simp
  have ex: "calls w \<le> calls w'" if "osip_execute E ph stack w = Some (r, w')" for ph stack w r w'
    using that unfolding osip_execute_def Let_def by (auto simp: lib_release_def dest!: cbs elim!: run_elims)
  have q: "calls w \<le> calls w'" if "execute_queue E ph line stack w = Some w'" for ph line stack w w'
    using that unfolding execute_queue_def by (elim run_elims) (auto dest!: ex esip_traceD)
  have t: "calls w \<le> calls w'" if "execute_timers E ph line stack w = Some w'" for ph line stack w w'
    using that unfolding execute_timers_def by (elim run_elims) (auto dest!: ex esip_traceD)
  show "run_callback E cb w = Some w' \<Longrightarrow> calls w \<le> calls w'" "run_callbacks E n w = Some w' \<Longrightarrow> calls w \<le> calls w'"
    "osip_execute E ph stack w = Some (r, w') \<Longrightarrow> calls w \<le> calls w'" "execute_queue E ph line stack w = Some w' \<Longrightarrow> calls w \<le> calls w'"
    "execute_timers E ph line stack w = Some w' \<Longrightarrow> calls w \<le> calls w'" by (fact cb cbs ex q t)+
  show "execute_all E p w = Some w' \<Longrightarrow> calls w \<le> calls w'"
    unfolding execute_all_def by (elim run_elims) (auto dest!: q t)
qed

section \<open>The loop ends\<close>

text \<open>libosip2 has a bounded amount of work: after \<open>N\<close> calls it calls back no more.\<close>

definition quiet_after :: "env \<Rightarrow> nat \<Rightarrow> bool" where
  "quiet_after E N \<longleftrightarrow> (\<forall>w c. N \<le> calls w \<longrightarrow> e_callbacks E w c = 0)"

lemma execute_quiet:
  assumes "quiet_after E N"
  shows "osip_execute E ph stack w = Some (r, w') \<Longrightarrow> N \<le> calls w \<Longrightarrow> heap w a = Some (C_osip s) \<Longrightarrow>
      heap w' a = Some (C_osip s) \<and> N \<le> calls w'"
    and "execute_queue E ph line stack w = Some w' \<Longrightarrow> N \<le> calls w \<Longrightarrow> heap w a = Some (C_osip s) \<Longrightarrow>
      heap w' a = Some (C_osip s) \<and> N \<le> calls w'"
    and "execute_timers E ph line stack w = Some w' \<Longrightarrow> N \<le> calls w \<Longrightarrow> heap w a = Some (C_osip s) \<Longrightarrow>
      heap w' a = Some (C_osip s) \<and> N \<le> calls w'"
proof -
  have ex: "heap w' a = Some (C_osip s) \<and> N \<le> calls w'"
    if "osip_execute E ph stack w = Some (r, w')" "N \<le> calls w" "heap w a = Some (C_osip s)" for ph stack w r w'
    using that assms by (auto simp: osip_execute_def Let_def quiet_after_def lib_release_def)
  show "osip_execute E ph stack w = Some (r, w') \<Longrightarrow> N \<le> calls w \<Longrightarrow> heap w a = Some (C_osip s) \<Longrightarrow>
      heap w' a = Some (C_osip s) \<and> N \<le> calls w'" by (rule ex)
  show "execute_queue E ph line stack w = Some w' \<Longrightarrow> N \<le> calls w \<Longrightarrow> heap w a = Some (C_osip s) \<Longrightarrow>
      heap w' a = Some (C_osip s) \<and> N \<le> calls w'"
    unfolding execute_queue_def by (elim run_elims) (auto dest!: ex esip_traceD)
  show "execute_timers E ph line stack w = Some w' \<Longrightarrow> N \<le> calls w \<Longrightarrow> heap w a = Some (C_osip s) \<Longrightarrow>
      heap w' a = Some (C_osip s) \<and> N \<le> calls w'"
    unfolding execute_timers_def by (elim run_elims) (auto dest!: ex esip_traceD)
qed

lemma execute_all_quiet:
  assumes "quiet_after E N"
  shows "execute_all E p w = Some w' \<Longrightarrow> N \<le> calls w \<Longrightarrow> heap w a = Some (C_osip s) \<Longrightarrow> heap w' a = Some (C_osip s)"
  unfolding execute_all_def
  by (elim run_elims) (auto dest!: execute_quiet(2,3) [OF assms, where a = a and s = s])

lemma osip_live_change:
  assumes "osip_live a s t w" and "heap w' a = Some (C_osip (s\<lparr>pendingEv := q\<rparr>))" and "brk w' = brk w"
    and "\<And>x. heap w x = Some C_osip_stack \<or> heap w x = Some (C_transport t) \<Longrightarrow> heap w' x = heap w x"
  shows "osip_live a (s\<lparr>pendingEv := q\<rparr>) t w'"
proof -
  from assms(1) obtain b p where "osip s = Some b" "heap w b = Some C_osip_stack" "transportCtx s = Some p"
    "heap w p = Some (C_transport t)" by (auto simp: osip_live_def)
  with assms show ?thesis by (simp add: osip_live_def)
qed

lemma osip_ok_take:
  assumes ok: "osip_ok a w" and a: "heap w a = Some (C_osip s)" and p: "pendingEv s = ev # evs"
  shows "osip_ok a (put a (C_osip (s\<lparr>pendingEv := evs\<rparr>)) w)" (is "osip_ok a ?w")
proof -
  from ok a obtain t where t: "osip_live a s t w" "pending_ok a w (ev # evs)" "\<forall>e. evudpsock t = Some e \<longrightarrow> e \<notin> set (ev # evs)"
    "\<forall>d \<in> set (osipDialog s). heap w d = Some C_dialog" and h: "heap_ok w"
    using p by (auto simp: osip_ok_def osip_live_def)
  have "osip_live a (s\<lparr>pendingEv := evs\<rparr>) t ?w" using a by (intro osip_live_change [OF t(1)]) auto
  with t(2-) h a heap_ok_live [OF h a] show ?thesis unfolding osip_ok_def
    by (intro conjI exI [of _ "s\<lparr>pendingEv := evs\<rparr>"] exI [of _ t]) (auto simp: heap_ok_def pending_ok_def)
qed

lemma osip_ok_free:
  assumes ok: "osip_ok a w" and a: "heap w a = Some (C_osip s)" and ev: "heap w ev = Some (C_event e)" "ev \<notin> set (pendingEv s)"
  shows "osip_ok a (drop_cell ev w)"
proof -
  from ok a obtain t where t: "osip_live a s t w" "pending_ok a w (pendingEv s)" "\<forall>e. evudpsock t = Some e \<longrightarrow> e \<notin> set (pendingEv s)"
    "\<forall>d \<in> set (osipDialog s). heap w d = Some C_dialog" and h: "heap_ok w"
    by (auto simp: osip_ok_def osip_live_def)
  have "osip_live a (s\<lparr>pendingEv := pendingEv s\<rparr>) t (drop_cell ev w)"
    using a ev by (intro osip_live_change [OF t(1)]) auto
  then have "osip_live a s t (drop_cell ev w)" by simp
  with t(2-) h a ev show ?thesis unfolding osip_ok_def
    by (intro conjI exI [of _ s] exI [of _ t]) (auto simp: heap_ok_def pending_ok_def)
qed

text \<open>One iteration: the first event of the queue is taken, the queues of libosip2 are executed,
  and the event is freed. What the callbacks queued stands in front of the rest.\<close>

definition drain_step :: "ptr \<Rightarrow> es_osip_s \<Rightarrow> ptr \<Rightarrow> ptr list \<Rightarrow> ptr list \<Rightarrow> ptr list \<Rightarrow> world \<Rightarrow> world \<Rightarrow> bool" where
  "drain_step a s ev evs es ds w w' \<longleftrightarrow> osip_ok a w' \<and> calls w < calls w' \<and>
     heap w' a = Some (C_osip (s\<lparr>pendingEv := es @ evs, osipDialog := ds @ osipDialog s\<rparr>)) \<and>
     (\<forall>e \<in> set es. brk w \<le> e) \<and> brk w \<le> brk w' \<and> fds w' = fds w \<and> heap w' ev = None \<and>
     (\<forall>x c. heap w x = Some c \<longrightarrow> \<not> lib_object c \<longrightarrow> x \<noteq> a \<longrightarrow> x \<noteq> ev \<longrightarrow> heap w' x = Some c) \<and>
     (\<forall>y < brk w. heap w y = None \<longrightarrow> heap w' y = None)"

text \<open>The body of the loop, up to the recursive call \<open>f\<close>.\<close>

definition loop_body :: "env \<Rightarrow> ptr \<Rightarrow> es_osip_s \<Rightarrow> ptr \<Rightarrow> ptr list \<Rightarrow> world \<Rightarrow> (world \<Rightarrow> world option) \<Rightarrow> world option" where
  "loop_body E a s ev evs w f = do {
     w \<leftarrow> execute_all E (Some a) (put a (C_osip (s\<lparr>pendingEv := evs\<rparr>)) (wrote (trace_text E w 7 ''_es_osip_loop'' 433) w));
     w \<leftarrow> ev_free (Some ev) w;
     f w }"

lemma loop_body_step:
  assumes lib: "osip_lib E a" and ok: "osip_ok a w" and a: "heap w a = Some (C_osip s)" and p: "pendingEv s = ev # evs"
  shows "\<exists>w' es ds. (\<forall>f. loop_body E a s ev evs w f = f w') \<and> drain_step a s ev evs es ds w w' \<and>
    (\<forall>N. quiet_after E N \<longrightarrow> N \<le> calls w \<longrightarrow> es = [])"
proof -
  let ?s = "s\<lparr>pendingEv := evs\<rparr>"
  let ?w1 = "put a (C_osip ?s) (wrote (trace_text E w 7 ''_es_osip_loop'' 433) w)"
  have "osip_ok a (wrote (trace_text E w 7 ''_es_osip_loop'' 433) w)" using ok by simp
  from osip_ok_take [OF this _ p] a have ok1: "osip_ok a ?w1" by simp
  from execute_all_grows [OF lib this] obtain w2 where w2: "execute_all E (Some a) ?w1 = Some w2" "grows a ?w1 w2" by blast
  then obtain es ds where h2: "heap w2 a = Some (C_osip (grown ?s es ds))" and es: "\<forall>e \<in> set es. brk w \<le> e"
    by (auto simp: grows_def)
  from ok a p obtain e where ev: "heap w ev = Some (C_event e)" "ev \<notin> set evs" and h: "heap_ok w"
    by (auto simp: osip_ok_def osip_live_def pending_ok_def)
  then have ne: "ev \<noteq> a" using a by auto
  have ev2: "heap w2 ev = Some (C_event e)" using w2(2) ev(1) ne by (simp add: grows_def)
  have evs: "ev \<notin> set (es @ evs)" using ev(2) es heap_ok_live [OF h ev(1)] by auto
  let ?w3 = "drop_cell ev (did (Lev (Ev_free (Some ev))) w2)"
  have body: "loop_body E a s ev evs w f = f ?w3" for f
    using ev2 w2(1) by (simp add: loop_body_def ev_free_eval live_event_iff)
  have quiet: "es = []" if "quiet_after E N" "N \<le> calls w" for N
    using execute_all_quiet [OF that(1) w2(1), of a ?s] that(2) h2
    by (auto simp: grown_def dest: arg_cong [where f = pendingEv])
  have "osip_ok a (did (Lev (Ev_free (Some ev))) w2)" using grows_ok [OF w2(2)] by simp
  from osip_ok_free [OF this, of _ ev e] h2 ev2 evs have "osip_ok a ?w3" by simp
  moreover have "calls w < calls ?w3" using execute_calls(6) [OF w2(1)] by simp
  moreover have "heap ?w3 a = Some (C_osip (s\<lparr>pendingEv := es @ evs, osipDialog := ds @ osipDialog s\<rparr>))"
    using h2 ev2 by (auto simp: grown_def)
  moreover have "brk w \<le> brk ?w3" "fds ?w3 = fds w" using w2(2) by (simp_all add: grows_def)
  moreover have "heap ?w3 x = Some c" if "heap w x = Some c" "\<not> lib_object c" "x \<noteq> a" "x \<noteq> ev" for x c
    using w2(2) that by (simp add: grows_def)
  moreover have "heap ?w3 y = None" if "y < brk w" "heap w y = None" for y
  proof -
    have "y \<noteq> a" using a that by auto
    with w2(2) that show ?thesis by (simp add: grows_def)
  qed
  ultimately have "drain_step a s ev evs es ds w ?w3" using es unfolding drain_step_def by simp
  with body quiet show ?thesis by blast
qed

text \<open>One unfolding of the loop, with \<open>f\<close> for the recursive call.\<close>

definition loop_unfold :: "env \<Rightarrow> ptr \<Rightarrow> world \<Rightarrow> (world \<Rightarrow> world option) \<Rightarrow> world option" where
  "loop_unfold E a w f = do {
     s \<leftarrow> load as_osip (Some a) w;
     if l_size E (pendingEv s) > 0 then do {
       let ev = l_get E (pendingEv s) 0;
       w \<leftarrow> esip_trace E ESIP_LOG_DEBUG ''_es_osip_loop'' 433 w;
       let w = put a (C_osip (s\<lparr>pendingEv := l_remove E (pendingEv s) 0\<rparr>)) w;
       w \<leftarrow> execute_all E (Some a) w;
       w \<leftarrow> ev_free ev w;
       f w }
     else Some w }"

lemma loop_unfold_Cons:
  assumes laws: "osip_list_laws E" and a: "heap w a = Some (C_osip s)" and p: "pendingEv s = ev # evs"
  shows "loop_unfold E a w f = loop_body E a s ev evs w f"
  using osip_list_lawsD(1,4) [OF laws] osip_list_lawsD(3) [OF laws, of 0 "pendingEv s"]
  by (simp add: loop_unfold_def loop_body_def osip_cell.load_heap [OF a] p esip_trace_eval Let_def)

lemma loop_unfold_Nil:
  assumes laws: "osip_list_laws E" and a: "heap w a = Some (C_osip s)" and p: "pendingEv s = []"
  shows "loop_unfold E a w f = Some w"
  using osip_list_lawsD(1) [OF laws]
  by (simp add: loop_unfold_def osip_cell.load_heap [OF a] p)

lemma osip_loop_step:
  assumes lib: "osip_lib E a" and ok: "osip_ok a w" and a: "heap w a = Some (C_osip s)" and p: "pendingEv s = ev # evs"
  obtains w' es ds where "osip_loop E a w = osip_loop E a w'" and "drain_step a s ev evs es ds w w'"
    and "\<And>N. quiet_after E N \<Longrightarrow> N \<le> calls w \<Longrightarrow> es = []"
proof -
  from lib have laws: "osip_list_laws E" by (simp add: osip_lib_def)
  from loop_body_step [OF assms] obtain w' es ds where
    w': "\<forall>f. loop_body E a s ev evs w f = f w'" "drain_step a s ev evs es ds w w'"
    "\<forall>N. quiet_after E N \<longrightarrow> N \<le> calls w \<longrightarrow> es = []" by blast
  have "osip_loop E a w = loop_body E a s ev evs w (osip_loop E a)"
    by (subst osip_loop.simps) (fold loop_unfold_def, rule loop_unfold_Cons [OF laws a p])
  with w' that show thesis by simp
qed

text \<open>The events that were queued are freed, the queue is empty, and nothing else of the program is
  lost.\<close>

definition drained :: "ptr \<Rightarrow> world \<Rightarrow> world \<Rightarrow> bool" where
  "drained a w w' \<longleftrightarrow> osip_ok a w' \<and> fds w' = fds w \<and> brk w \<le> brk w' \<and> (\<forall>y < brk w. heap w y = None \<longrightarrow> heap w' y = None) \<and>
     (\<exists>s ds. heap w a = Some (C_osip s) \<and> heap w' a = Some (C_osip (s\<lparr>pendingEv := [], osipDialog := ds @ osipDialog s\<rparr>)) \<and>
        (\<forall>e \<in> set (pendingEv s). heap w' e = None) \<and>
        (\<forall>x c. heap w x = Some c \<longrightarrow> \<not> lib_object c \<longrightarrow> x \<noteq> a \<longrightarrow> x \<notin> set (pendingEv s) \<longrightarrow> heap w' x = Some c))"

lemma drained_Nil:
  assumes "osip_ok a w" and "heap w a = Some (C_osip s)" and "pendingEv s = []"
  shows "drained a w w"
  using assms unfolding drained_def by (auto intro!: exI [of _ s] exI [of _ "[] :: ptr list"])

lemma drained_step:
  assumes ok: "osip_ok a w" and a: "heap w a = Some (C_osip s)" and p: "pendingEv s = ev # evs"
    and step: "drain_step a s ev evs es ds w v" and rest: "drained a v w'"
  shows "drained a w w'"
proof -
  have h: "heap_ok w" using ok by (simp add: osip_ok_def)
  let ?v = "s\<lparr>pendingEv := es @ evs, osipDialog := ds @ osipDialog s\<rparr>"
  from step have v: "heap v a = Some (C_osip ?v)" "\<forall>e \<in> set es. brk w \<le> e" "brk w \<le> brk v" "fds v = fds w" "heap v ev = None"
    "\<And>x c. heap w x = Some c \<Longrightarrow> \<not> lib_object c \<Longrightarrow> x \<noteq> a \<Longrightarrow> x \<noteq> ev \<Longrightarrow> heap v x = Some c"
    "\<And>y. y < brk w \<Longrightarrow> heap w y = None \<Longrightarrow> heap v y = None" by (auto simp: drain_step_def)
  from rest v(1) obtain ds' where w': "heap w' a = Some (C_osip (?v\<lparr>pendingEv := [], osipDialog := ds' @ osipDialog ?v\<rparr>))"
    "\<forall>e \<in> set (es @ evs). heap w' e = None" "\<forall>y < brk v. heap v y = None \<longrightarrow> heap w' y = None"
    "\<And>x c. heap v x = Some c \<Longrightarrow> \<not> lib_object c \<Longrightarrow> x \<noteq> a \<Longrightarrow> x \<notin> set (es @ evs) \<Longrightarrow> heap w' x = Some c"
    and ok': "osip_ok a w'" "fds w' = fds w" "brk w \<le> brk w'" using v(3,4) by (auto simp: drained_def)
  from ok a p obtain e where ev: "heap w ev = Some (C_event e)"
    by (auto simp: osip_ok_def osip_live_def pending_ok_def)
  have "heap w' ev = None" using w'(3) v(3,5) heap_ok_live [OF h ev] by simp
  moreover have "heap w' x = Some c" if "heap w x = Some c" "\<not> lib_object c" "x \<noteq> a" "x \<noteq> ev" "x \<notin> set evs" for x c
    using that v(2) heap_ok_live [OF h that(1)] by (intro w'(4) v(6)) auto
  moreover have "heap w' a = Some (C_osip (s\<lparr>pendingEv := [], osipDialog := (ds' @ ds) @ osipDialog s\<rparr>))" using w'(1) by simp
  ultimately show ?thesis unfolding drained_def using a p ok' w'(2,3) v(3,7)
    by (intro conjI exI [of _ s] exI [of _ "ds' @ ds"]) auto
qed

lemma osip_loop_Nil:
  assumes "osip_list_laws E" and "heap w a = Some (C_osip s)" and "pendingEv s = []"
  shows "osip_loop E a w = Some w"
  using assms(3) osip_list_lawsD(1) [OF assms(1)]
  by (subst osip_loop.simps) (simp add: osip_cell.load_heap [OF assms(2)])

lemma osip_loop_quiet:
  assumes lib: "osip_lib E a" and quiet: "quiet_after E N"
  shows "N \<le> calls w \<Longrightarrow> osip_ok a w \<Longrightarrow> heap w a = Some (C_osip s) \<Longrightarrow> pendingEv s = evs \<Longrightarrow>
    \<exists>w'. osip_loop E a w = Some w' \<and> drained a w w'"
proof (induction evs arbitrary: w s)
  case Nil
  with lib osip_loop_Nil drained_Nil show ?case by (auto simp: osip_lib_def)
next
  case (Cons ev evs)
  from osip_loop_step [OF lib Cons.prems(2-4)] quiet Cons.prems(1) obtain v ds where
    run: "osip_loop E a w = osip_loop E a v" and step: "drain_step a s ev evs [] ds w v" by metis
  let ?s = "s\<lparr>pendingEv := [] @ evs, osipDialog := ds @ osipDialog s\<rparr>"
  from step have "N \<le> calls v" "osip_ok a v" "heap v a = Some (C_osip ?s)" "pendingEv ?s = evs"
    using Cons.prems(1) by (simp_all add: drain_step_def)
  from Cons.IH [OF this] obtain w' where "osip_loop E a v = Some w'" "drained a v w'" by blast
  with run drained_step [OF Cons.prems(2-4) step] show ?case by auto
qed

lemma osip_loop_drains:
  assumes lib: "osip_lib E a" and quiet: "quiet_after E N"
  shows "osip_ok a w \<Longrightarrow> \<exists>w'. osip_loop E a w = Some w' \<and> drained a w w'"
proof (induction "N - calls w" arbitrary: w rule: less_induct)
  case less
  from less.prems obtain s where a: "heap w a = Some (C_osip s)" by (rule osip_okD)
  show ?case
  proof (cases "N \<le> calls w \<or> pendingEv s = []")
    case True
    then show ?thesis
      using osip_loop_quiet [OF lib quiet _ less.prems a refl] osip_loop_Nil [OF _ a] drained_Nil [OF less.prems a] lib
      by (auto simp: osip_lib_def)
  next
    case False
    then obtain ev evs where p: "pendingEv s = ev # evs" by (cases "pendingEv s") auto
    from osip_loop_step [OF lib less.prems a p] obtain v es ds where
      run: "osip_loop E a w = osip_loop E a v" and step: "drain_step a s ev evs es ds w v" by metis
    from step False have "N - calls v < N - calls w" "osip_ok a v" by (auto simp: drain_step_def)
    from less.hyps [OF this] obtain w' where "osip_loop E a v = Some w'" "drained a v w'" by blast
    with run drained_step [OF less.prems a p step] show ?thesis by auto
  qed
qed

text \<open>Without a bound on the work of libosip2: the loop may go on for ever, but if it returns it has done the same.\<close>

lemma osip_loop_drained:
  assumes lib: "osip_lib E a"
  shows "osip_loop E a w = Some w' \<Longrightarrow> osip_ok a w \<Longrightarrow> drained a w w'"
proof -
  assume run: "osip_loop E a w = Some w'"
  have "E = E \<longrightarrow> a = a \<longrightarrow> osip_ok a w \<longrightarrow> drained a w w'"
  proof (rule osip_loop.raw_induct [where P = "\<lambda>E' a' w w'. E' = E \<longrightarrow> a' = a \<longrightarrow> osip_ok a w \<longrightarrow> drained a w w'",
        OF _ run], goal_cases)
    case (1 loop E' a' w w')
    note IH = 1(1) and unfolded = 1(2) [folded loop_unfold_def]
    show ?case
    proof (intro impI)
      assume eq: "E' = E" "a' = a" and ok: "osip_ok a w"
      from lib have laws: "osip_list_laws E" by (simp add: osip_lib_def)
      from ok obtain s where a: "heap w a = Some (C_osip s)" by (rule osip_okD)
      show "drained a w w'"
      proof (cases "pendingEv s")
        case Nil
        from unfolded have "w' = w" unfolding eq loop_unfold_Nil [OF laws a Nil] option.inject by (rule sym)
        then show ?thesis using drained_Nil [OF ok a Nil] by (rule ssubst)
      next
        case (Cons ev evs)
        from loop_body_step [OF lib ok a Cons] obtain v es ds where
          v: "\<forall>f. loop_body E a s ev evs w f = f v" and step: "drain_step a s ev evs es ds w v" by blast
        from unfolded have "loop E a v = Some w'" using v unfolding eq loop_unfold_Cons [OF laws a Cons] by metis
        moreover have "osip_ok a v" using step by (simp add: drain_step_def)
        ultimately have "drained a v w'" using IH eq by blast
        from drained_step [OF ok a Cons step this] show ?thesis .
      qed
    qed
  qed
  then show "osip_ok a w \<Longrightarrow> drained a w w'" by simp
qed

section \<open>The order of the queue\<close>

text \<open>The events a history has freed, the latest first.\<close>

fun freed_events :: "call list \<Rightarrow> ptr list" where
  "freed_events [] = []"
| "freed_events (Lev (Ev_free (Some e)) # cs) = e # freed_events cs"
| "freed_events (c # cs) = freed_events cs"

lemma execute_silent:
  assumes "quiet_after E 0"
  shows "osip_execute E ph stack w = Some (r, w') \<Longrightarrow> freed_events (hist w') = freed_events (hist w)"
    and "execute_queue E ph line stack w = Some w' \<Longrightarrow> freed_events (hist w') = freed_events (hist w)"
    and "execute_timers E ph line stack w = Some w' \<Longrightarrow> freed_events (hist w') = freed_events (hist w)"
    and "execute_all E p w = Some w' \<Longrightarrow> freed_events (hist w') = freed_events (hist w)"
proof -
  have ex: "freed_events (hist w') = freed_events (hist w)" if "osip_execute E ph stack w = Some (r, w')" for ph stack w r w'
    using that assms by (auto simp: osip_execute_def Let_def quiet_after_def lib_release_def)
  have q: "freed_events (hist w') = freed_events (hist w)" if "execute_queue E ph line stack w = Some w'" for ph line stack w w'
    using that unfolding execute_queue_def by (elim run_elims) (auto dest!: ex esip_traceD)
  have t: "freed_events (hist w') = freed_events (hist w)" if "execute_timers E ph line stack w = Some w'" for ph line stack w w'
    using that unfolding execute_timers_def by (elim run_elims) (auto dest!: ex esip_traceD)
  show "osip_execute E ph stack w = Some (r, w') \<Longrightarrow> freed_events (hist w') = freed_events (hist w)"
    "execute_queue E ph line stack w = Some w' \<Longrightarrow> freed_events (hist w') = freed_events (hist w)"
    "execute_timers E ph line stack w = Some w' \<Longrightarrow> freed_events (hist w') = freed_events (hist w)" by (fact ex q t)+
  show "execute_all E p w = Some w' \<Longrightarrow> freed_events (hist w') = freed_events (hist w)"
    unfolding execute_all_def by (elim run_elims) (auto dest!: q t)
qed

lemma osip_loop_order:
  assumes laws: "osip_list_laws E" and quiet: "quiet_after E 0"
  shows "osip_loop E a w = Some w' \<Longrightarrow> heap w a = Some (C_osip s) \<Longrightarrow> pendingEv s = evs \<Longrightarrow>
    freed_events (hist w') = rev evs @ freed_events (hist w)"
proof (induction evs arbitrary: w s)
  case Nil
  with osip_loop_Nil [OF laws Nil.prems(2,3)] show ?case by simp
next
  case (Cons ev evs)
  let ?w1 = "put a (C_osip (s\<lparr>pendingEv := evs\<rparr>)) (wrote (trace_text E w 7 ''_es_osip_loop'' 433) w)"
  from Cons.prems(1) have "do { w2 \<leftarrow> execute_all E (Some a) ?w1; w3 \<leftarrow> ev_free (Some ev) w2; osip_loop E a w3 } = Some w'"
    using osip_list_lawsD(1,4) [OF laws] osip_list_lawsD(3) [OF laws, of 0 "pendingEv s"]
    by (subst (asm) osip_loop.simps)
       (simp add: osip_cell.load_heap [OF Cons.prems(2)] Cons.prems(3) esip_trace_eval Let_def)
  then obtain w2 w3 where w2: "execute_all E (Some a) ?w1 = Some w2" and w3: "ev_free (Some ev) w2 = Some w3" and
    rest: "osip_loop E a w3 = Some w'" by (auto elim!: bind_SomeE)
  from w3 have w3': "live_event (Some ev) w2" "w3 = drop_cell ev (did (Lev (Ev_free (Some ev))) w2)" by (auto dest!: ev_freeD)
  have "heap w2 a = Some (C_osip (s\<lparr>pendingEv := evs\<rparr>))" by (rule execute_all_quiet [OF quiet w2]) simp_all
  with w3' have "heap w3 a = Some (C_osip (s\<lparr>pendingEv := evs\<rparr>))" by (auto simp: live_event_iff)
  from Cons.IH [OF rest this] w3'(2) execute_silent(4) [OF quiet w2] show ?case by simp
qed

section \<open>Properties\<close>

text \<open>C8. The loop ends: when libosip2 has a bounded amount of work, the handler returns, whatever the
  queue holds and whatever its callbacks add to it. The queue is then empty, every event that was
  queued has been freed, the context is live, and every other block of the program is as before.\<close>

theorem osip_loop_terminates:
  assumes "osip_lib E a" and "quiet_after E N" and "osip_ok a w"
  shows "\<exists>w' s ds. es_osip_loop E fd event (Some a) w = Some w' \<and> osip_ok a w' \<and>
    load as_osip (Some a) w = Some s \<and>
    load as_osip (Some a) w' = Some (s\<lparr>pendingEv := [], osipDialog := ds @ osipDialog s\<rparr>) \<and>
    (\<forall>e \<in> set (pendingEv s). heap w' e = None) \<and>
    (\<forall>x c. heap w x = Some c \<longrightarrow> \<not> lib_object c \<longrightarrow> x \<noteq> a \<longrightarrow> x \<notin> set (pendingEv s) \<longrightarrow> heap w' x = Some c)"
  using osip_loop_drains [OF assms] unfolding es_osip_loop_def drained_def
  by (auto simp: osip_cell.load_iff)

text \<open>C16. The queue is served newest first. After \<open>n\<close> wake-ups of a context with an empty queue, a loop
  in which libosip2 has nothing to do frees the \<open>n\<close> events in the reverse of the order in which they
  were made (a history is read from its end), although the comments call the list a Fifo.\<close>

theorem osip_loop_newest_first:
  assumes "osip_list_laws E" and "list_front_accepts E" and "quiet_after E 0" and "osip_ok a w"
    and "load as_osip (Some a) w = Some s" and "pendingEv s = []"
    and "wakeups E (Some a) n w = Some (sts, w1)" and "set sts \<subseteq> {ES_OK}"
    and "es_osip_loop E fd event (Some a) w1 = Some w2"
  shows "freed_events (hist w2) = [brk w ..< brk w + n] @ freed_events (hist w1)"
proof -
  have s: "heap w a = Some (C_osip s)" using assms(5) by (simp add: osip_cell.load_iff)
  from wakeups_queued [OF assms(1,2,7,8,4) s] have
    "heap w1 a = Some (C_osip (grown s (rev [brk w ..< brk w + n]) []))" by (simp add: queued_def)
  from osip_loop_order [OF assms(1,3) _ this refl] assms(6,9) show ?thesis by (simp add: es_osip_loop_def)
qed



text \<open>A context with one event in its queue, a transaction with its request, and an environment that calls
  back once in each of the first executions.\<close>

definition demo_woken :: world where
  "demo_woken = put 100 (C_osip (new_osip 100 (Some 9) 101 102\<lparr>pendingEv := [103]\<rparr>))
     (new_cell (C_event (wake_event 100 (new_osip 100 (Some 9) 101 102))) demo_sip)"

definition demo_request_sip :: osip_message_s where
  "demo_request_sip = \<lparr>m_from = Some 106, m_to = Some 107, m_cseq = Some 108, m_call_id = Some 109, m_vias = []\<rparr>"

definition demo_invited :: world where
  "demo_invited = new_cell (C_sip demo_request_sip) (new_cell (C_tr IST) demo_woken)"

lemma demo_woken_facts [simp]:
  "heap demo_woken = [100 \<mapsto> C_osip (new_osip 100 (Some 9) 101 102\<lparr>pendingEv := [103]\<rparr>),
     101 \<mapsto> C_transport (new_transport 100 (Some 9) 3), 102 \<mapsto> C_osip_stack,
     103 \<mapsto> C_event (wake_event 100 (new_osip 100 (Some 9) 101 102))]"
  "brk demo_woken = 104" "hist demo_woken = []"
  by (auto simp: demo_woken_def demo_sip_def fun_eq_iff)

lemma demo_woken_ok: "osip_ok 100 demo_woken"
  unfolding osip_ok_def osip_live_def
  by (intro conjI exI [of _ "new_osip 100 (Some 9) 101 102\<lparr>pendingEv := [103]\<rparr>"] exI [of _ "new_transport 100 (Some 9) 3"])
     (auto simp: heap_ok_def new_osip_def new_transport_def zero_transport_def pending_ok_def wake_event_def)

lemma demo_invited_ok: "osip_ok 100 demo_invited"
proof -
  have "keeps demo_woken demo_invited" unfolding demo_invited_def by (intro keeps_new keeps_refl)
  from grows_keeps [OF demo_woken_ok this] show ?thesis by (rule grows_ok)
qed

definition busy_env :: env where
  "busy_env = plain_env\<lparr>e_ptr := (\<lambda>w c. case c of Osip (O_tr_get_instance tr) \<Rightarrow> Some 100 | _ \<Rightarrow> None),
     e_callbacks := (\<lambda>w c. if calls w < 20 then 1 else 0), e_callback := (\<lambda>w. Cb_kill 0 (Some 104))\<rparr>"

lemma busy_env_lib: "osip_lib busy_env 100"
  using plain_env_lists
  by (simp add: osip_lib_def busy_env_def osip_list_laws_def plain_int_def callback_args_def)

lemma busy_env_quiet: "quiet_after busy_env 20"
  by (simp add: quiet_after_def busy_env_def)

theorem osip_loop_terminates_witness:
  "\<exists>w'. es_osip_loop busy_env (- 1) EV_READ (Some 100) demo_woken = Some w' \<and> heap w' 103 = None \<and> osip_ok 100 w'"
  using osip_loop_terminates [OF busy_env_lib busy_env_quiet demo_woken_ok, of "- 1" EV_READ]
  by (auto simp: osip_cell.load_iff)


theorem osip_loop_newest_first_witness:
  "\<exists>w1 w2. wakeups plain_env (Some 100) 2 demo_sip = Some ([ES_OK, ES_OK], w1) \<and>
     es_osip_loop plain_env (- 1) EV_READ (Some 100) w1 = Some w2 \<and> freed_events (hist w2) = [103, 104] @ freed_events (hist w1)"
proof -
  from demo_wakeups [OF demo_sip_ok, of 2] obtain w1 where w1: "wakeups plain_env (Some 100) 2 demo_sip = Some ([ES_OK, ES_OK], w1)"
    by (auto simp: numeral_2_eq_2)
  have quiet: "quiet_after plain_env 0" by (simp add: quiet_after_def)
  have lib: "osip_lib plain_env 100"
    using plain_env_lists by (simp add: osip_lib_def plain_int_def callback_args_def plain_env_def)
  have s: "heap demo_sip 100 = Some (C_osip (new_osip 100 (Some 9) 101 102))" by simp
  from wakeups_queued [OF plain_env_lists plain_env_front w1 _ demo_sip_ok s] have "osip_ok 100 w1" by simp
  from osip_loop_drains [OF lib quiet this] obtain w2 where
    w2: "es_osip_loop plain_env (- 1) EV_READ (Some 100) w1 = Some w2" by (auto simp: es_osip_loop_def)
  have "[103 ..< 103 + 2] = [103, 104 :: nat]" by (simp add: upt_rec)
  with osip_loop_newest_first [OF plain_env_lists plain_env_front quiet demo_sip_ok demo_sip_load _ w1 _ w2] w1 w2
  show ?thesis by (simp add: new_osip_def)
qed

definition text_env :: env where
  "text_env = busy_env\<lparr>e_bytes := (\<lambda>w c. [1, 2, 3])\<rparr>"


end
