(* ===== verification/Es_Cli.thy ===== *)
theory Es_Cli
  imports Es_Transport
begin

text \<open>
  The command line interface over TCP, \<^verbatim>\<open>src/cli/escli.c\<close>: a libevent listener that hands
  every accepted connection to a thread, which runs libcli's loop on it. libevent,
  libcli and pthreads are outside code. A thread that was created is a block that waits for
  its turn; its body is the function \<open>es_start_cli_thread\<close>.
\<close>

section \<open>Constants\<close>

definition ES_CLI_MAGIC :: u32 where "ES_CLI_MAGIC = 0x20140917"
definition PACKAGE_NAME :: string where "PACKAGE_NAME = ''ESip''"
definition ES_CLI_BANNER_STR :: string where
  "ES_CLI_BANNER_STR = ''######################### '' @ PACKAGE_NAME @ '' commands line #################################''"
definition ES_CLI_HOSTNAME_STR :: string where "ES_CLI_HOSTNAME_STR = PACKAGE_NAME"
definition ES_SERVER_PORT :: u16 where "ES_SERVER_PORT = 8008"

text \<open>libevent's flags of a listener.\<close>

definition LEV_OPT_CLOSE_ON_FREE :: u32 where "LEV_OPT_CLOSE_ON_FREE = 2"
definition LEV_OPT_REUSEABLE :: u32 where "LEV_OPT_REUSEABLE = 8"

lemma cli_magic_nonzero [simp]: "ES_CLI_MAGIC \<noteq> 0" "0 \<noteq> ES_CLI_MAGIC"
  by (simp_all add: ES_CLI_MAGIC_def)

definition zero_cli :: es_cli_s where
  "zero_cli = \<lparr>c_magic = 0, c_base = None, listener = None, cliCtx = None, c_thread = 0\<rparr>"

section \<open>Listeners and libcli contexts\<close>

text \<open>\<^verbatim>\<open>evconnlistener_new_bind\<close> makes a socket of its own, binds it and listens on it.\<close>

definition evl_new_bind :: "env \<Rightarrow> cptr \<Rightarrow> fn \<Rightarrow> cptr \<Rightarrow> u32 \<Rightarrow> int \<Rightarrow> sockaddr_in \<Rightarrow> world \<Rightarrow> cptr run" where
  "evl_new_bind E base f arg flags backlog addr w =
     (let c = Lev (Evl_new_bind base f arg flags backlog addr); fd = e_int E w c
      in do {
        (p, w) \<leftarrow> ext_new E c (C_listener \<lparr>ls_fn = f, ls_arg = arg, ls_fd = fd, ls_flags = flags\<rparr>) w;
        Some (p, if p = None then w else opened fd w) })"

text \<open>The functions on a listener want a live one. Freeing it closes its descriptor when the flag says so.\<close>

definition evl_do :: "(cptr \<Rightarrow> ev_call) \<Rightarrow> cptr \<Rightarrow> world \<Rightarrow> world option" where
  "evl_do c p w = (if load as_listener p w = None then None else ext_do (Lev (c p)) w)"

definition evl_get_fd :: "cptr \<Rightarrow> world \<Rightarrow> int run" where
  "evl_get_fd p w = do { l \<leftarrow> load as_listener p w; Some (ls_fd l, did (Lev (Evl_get_fd p)) w) }"

definition evl_free :: "cptr \<Rightarrow> world \<Rightarrow> world option" where
  "evl_free p w = do {
     l \<leftarrow> load as_listener p w;
     let w = drop_cell (the p) (did (Lev (Evl_free p)) w);
     Some (if ls_flags l AND LEV_OPT_CLOSE_ON_FREE \<noteq> 0 then closed (ls_fd l) w else w) }"

definition is_cli_def :: "cell \<Rightarrow> bool" where
  "is_cli_def x = (case x of C_cli_def \<Rightarrow> True | _ \<Rightarrow> False)"

definition live_cli_def :: "cptr \<Rightarrow> world \<Rightarrow> bool" where
  "live_cli_def p w = (case p of None \<Rightarrow> False | Some a \<Rightarrow> heap w a = Some C_cli_def)"

definition cli_loop :: "env \<Rightarrow> cptr \<Rightarrow> int \<Rightarrow> world \<Rightarrow> int run" where
  "cli_loop E p fd w = (if live_cli_def p w then ext_int E (Lcli (Cli_loop p fd)) w else None)"

section \<open>The thread of a connection\<close>

definition es_start_cli_thread :: "env \<Rightarrow> cptr \<Rightarrow> world \<Rightarrow> world option" where
  "es_start_cli_thread E pThd w =
     (if pThd = None then esip_trace E ESIP_LOG_ERROR ''_es_start_cli_thread'' 112 w
      else do {
        t \<leftarrow> load as_thd pThd w;
        if thd_ctx t = None then esip_trace E ESIP_LOG_ERROR ''_es_start_cli_thread'' 118 w
        else if thd_fd t = - 1 then esip_trace E ESIP_LOG_ERROR ''_es_start_cli_thread'' 123 w
        else do {
          s \<leftarrow> load as_cli (thd_ctx t) w;
          (r, w) \<leftarrow> cli_loop E (cliCtx s) (thd_fd t) w;
          if r \<noteq> 0 then esip_trace E ESIP_LOG_ERROR ''_es_start_cli_thread'' 128 w
          else cfree pThd w } })"

section \<open>Callbacks\<close>

text \<open>A new connection on descriptor \<open>fd\<close>, from an address of family \<open>family\<close>.\<close>

definition es_evconnlistener_cb :: "env \<Rightarrow> cptr \<Rightarrow> int \<Rightarrow> int \<Rightarrow> cptr \<Rightarrow> world \<Rightarrow> world option" where
  "es_evconnlistener_cb E pListner fd family pCtx w = do {
     w \<leftarrow> esip_trace E ESIP_LOG_DEBUG ''_es_evconnlistener_cb'' 140 w;
     if pCtx = None then esip_trace E ESIP_LOG_ERROR ''_es_evconnlistener_cb'' 144 w
     else do {
       s \<leftarrow> load as_cli pCtx w;
       if c_magic s \<noteq> ES_CLI_MAGIC then esip_trace E ESIP_LOG_ERROR ''_es_evconnlistener_cb'' 150 w
       else do {
         w \<leftarrow> (if family = AF_INET then esip_trace E ESIP_LOG_INFO ''_es_evconnlistener_cb'' 156 w else Some w);
         (p, w) \<leftarrow> malloc E B_thd w;
         case p of
           None \<Rightarrow> esip_trace E ESIP_LOG_ERROR ''_es_evconnlistener_cb'' 167 w
         | Some t \<Rightarrow> do {
             let w = put t (C_thd \<lparr>thd_ctx = pCtx, thd_fd = fd\<rparr>) w;
             (r, w) \<leftarrow> ext_int E (Libc (L_pthread_create F_es_start_cli_thread p)) w;
             if r \<noteq> 0 then esip_trace E ESIP_LOG_ERROR ''_es_evconnlistener_cb'' 175 w
             else Some w } } } }"

definition es_accept_error_cb :: "env \<Rightarrow> cptr \<Rightarrow> cptr \<Rightarrow> world \<Rightarrow> world option" where
  "es_accept_error_cb E pListener pCtx w = do {
     (err, w) \<leftarrow> ext_int E (Lev Ev_socket_error) w;
     if pCtx = None then esip_trace E ESIP_LOG_ERROR ''_es_accept_error_cb'' 211 w
     else do {
       s \<leftarrow> load as_cli pCtx w;
       if c_magic s \<noteq> ES_CLI_MAGIC then esip_trace E ESIP_LOG_ERROR ''_es_accept_error_cb'' 216 w
       else esip_trace E ESIP_LOG_ERROR ''_es_accept_error_cb'' 220 w } }"

definition es_cli_regular_callback :: "cptr \<Rightarrow> world \<Rightarrow> int run" where
  "es_cli_regular_callback pCliCtx w =
     (if pCliCtx = None then Some (ES_ERROR_INVALID_HANDLE, w)
      else do {
        w \<leftarrow> ext_do (Lcli (Cli_print pCliCtx ''Regular callback'')) w;
        w \<leftarrow> ext_do (Lcli (Cli_reprompt pCliCtx)) w;
        Some (0, w) })"

text \<open>The code that makes libcli end its loop is a constant of libcli, the argument \<open>cli_quit\<close>.\<close>

definition es_cli_timeout_callback :: "int \<Rightarrow> cptr \<Rightarrow> world \<Rightarrow> int run" where
  "es_cli_timeout_callback cli_quit pCliCtx w =
     (if pCliCtx = None then Some (ES_ERROR_INVALID_HANDLE, w)
      else do {
        w \<leftarrow> ext_do (Lcli (Cli_print pCliCtx ''Close connection for no activity.'')) w;
        Some (cli_quit, w) })"

section \<open>The context\<close>

text \<open>The configuration of libcli.\<close>

definition cli_configure :: "cptr \<Rightarrow> world \<Rightarrow> world option" where
  "cli_configure p w = do {
     w \<leftarrow> ext_do (Lcli (Cli_set_banner p ES_CLI_BANNER_STR)) w;
     w \<leftarrow> ext_do (Lcli (Cli_set_hostname p ES_CLI_HOSTNAME_STR)) w;
     w \<leftarrow> ext_do (Lcli (Cli_regular p F_es_cli_regular_callback)) w;
     w \<leftarrow> ext_do (Lcli (Cli_regular_interval p 10)) w;
     ext_do (Lcli (Cli_idle_timeout p 30 F_es_cli_timeout_callback)) w }"

definition listen_addr :: sockaddr_in where
  "listen_addr = \<lparr>sin_family = AF_INET, sin_port = htons ES_SERVER_PORT, sin_addr = INADDR_ANY\<rparr>"

text \<open>The socket and the listener, with the context \<open>s\<close> at \<open>a\<close>.\<close>

definition cli_init_listener :: "env \<Rightarrow> es_cli_s \<Rightarrow> ptr \<Rightarrow> world \<Rightarrow> (es_status \<times> cptr) run" where
  "cli_init_listener E s a w = do {
     (listenfd, w) \<leftarrow> sys_socket E SOCK_STREAM w;
     if listenfd < 0 then do {
       w \<leftarrow> esip_trace E ESIP_LOG_ERROR ''es_cli_init'' 284 w;
       w \<leftarrow> cfree (Some a) w;
       Some ((ES_ERROR_NETWORK_PROBLEM, None), w) }
     else do {
       (l, w) \<leftarrow> evl_new_bind E (c_base s) F_es_evconnlistener_cb (Some a)
          (LEV_OPT_CLOSE_ON_FREE OR LEV_OPT_REUSEABLE) (- 1) listen_addr w;
       let w = put a (C_cli (s\<lparr>listener := l\<rparr>)) w;
       if l = None then do {
         w \<leftarrow> esip_trace E ESIP_LOG_ERROR ''es_cli_init'' 298 w;
         w \<leftarrow> sys_close listenfd w;
         w \<leftarrow> cfree (Some a) w;
         Some ((ES_ERROR_UNKNOWN, None), w) }
       else do {
         w \<leftarrow> evl_do Evl_disable l w;
         w \<leftarrow> evl_do (\<lambda>p. Evl_set_error_cb p F_es_accept_error_cb) l w;
         Some ((ES_OK, Some a), w) } } }"

definition es_cli_init :: "env \<Rightarrow> cptr \<Rightarrow> world \<Rightarrow> (es_status \<times> cptr) run" where
  "es_cli_init E pBase w = do {
     (p, w) \<leftarrow> malloc E B_cli w;
     case p of
       None \<Rightarrow> do {
         w \<leftarrow> esip_trace E ESIP_LOG_ERROR ''es_cli_init'' 248 w;
         Some ((ES_ERROR_OUTOFRESOURCES, None), w) }
     | Some a \<Rightarrow> do {
         let w = put a (C_cli zero_cli) w;
         if pBase = None then do {
           w \<leftarrow> esip_trace E ESIP_LOG_ERROR ''es_cli_init'' 255 w;
           Some ((ES_ERROR_NULLPTR, None), w) }
         else do {
           let s = zero_cli\<lparr>c_magic := ES_CLI_MAGIC, c_base := pBase\<rparr>;
           (c, w) \<leftarrow> ext_new E (Lcli Cli_init) C_cli_def w;
           let s = s\<lparr>cliCtx := c\<rparr>;
           let w = put a (C_cli s) w;
           if c = None then do {
             w \<leftarrow> esip_trace E ESIP_LOG_ERROR ''es_cli_init'' 266 w;
             w \<leftarrow> cfree (Some a) w;
             Some ((ES_ERROR_OUTOFRESOURCES, None), w) }
           else do {
             w \<leftarrow> cli_configure c w;
             cli_init_listener E s a w } } } }"

definition es_cli_start :: "env \<Rightarrow> cptr \<Rightarrow> world \<Rightarrow> es_status run" where
  "es_cli_start E pCtx w =
     (if pCtx = None then do {
        w \<leftarrow> esip_trace E ESIP_LOG_ERROR ''es_cli_start'' 318 w;
        Some (ES_ERROR_NULLPTR, w) }
      else do {
        s \<leftarrow> load as_cli pCtx w;
        if c_magic s \<noteq> ES_CLI_MAGIC then do {
          w \<leftarrow> esip_trace E ESIP_LOG_ERROR ''es_cli_start'' 323 w;
          Some (ES_ERROR_INVALID_HANDLE, w) }
        else do {
          w \<leftarrow> esip_trace E ESIP_LOG_INFO ''es_cli_start'' 327 w;
          w \<leftarrow> evl_do Evl_enable (listener s) w;
          Some (ES_OK, w) } })"

definition es_cli_stop :: "env \<Rightarrow> cptr \<Rightarrow> world \<Rightarrow> es_status run" where
  "es_cli_stop E pCtx w =
     (if pCtx = None then do {
        w \<leftarrow> esip_trace E ESIP_LOG_ERROR ''es_cli_stop'' 337 w;
        Some (ES_ERROR_NULLPTR, w) }
      else do {
        s \<leftarrow> load as_cli pCtx w;
        if c_magic s \<noteq> ES_CLI_MAGIC then do {
          w \<leftarrow> esip_trace E ESIP_LOG_ERROR ''es_cli_stop'' 342 w;
          Some (ES_ERROR_INVALID_HANDLE, w) }
        else do {
          w \<leftarrow> evl_do Evl_disable (listener s) w;
          Some (ES_OK, w) } })"

definition es_cli_deinit :: "env \<Rightarrow> cptr \<Rightarrow> world \<Rightarrow> es_status run" where
  "es_cli_deinit E pCtx w =
     (if pCtx = None then do {
        w \<leftarrow> esip_trace E ESIP_LOG_ERROR ''es_cli_deinit'' 355 w;
        Some (ES_ERROR_NULLPTR, w) }
      else do {
        s \<leftarrow> load as_cli pCtx w;
        if c_magic s \<noteq> ES_CLI_MAGIC then do {
          w \<leftarrow> esip_trace E ESIP_LOG_ERROR ''es_cli_deinit'' 360 w;
          Some (ES_ERROR_INVALID_HANDLE, w) }
        else do {
          w \<leftarrow> lib_free is_cli_def (Lcli (Cli_done (cliCtx s))) (cliCtx s) w;
          (fd, w) \<leftarrow> evl_get_fd (listener s) w;
          w \<leftarrow> sys_close fd w;
          w \<leftarrow> evl_free (listener s) w;
          w \<leftarrow> cfree pCtx w;
          Some (ES_OK, w) } })"

section \<open>The contract of the handle\<close>

definition cli_magic_of :: "cptr \<Rightarrow> world \<Rightarrow> u32 option" where
  "cli_magic_of p w = map_option c_magic (load as_cli p w)"

lemma cli_magic_of_simps [simp]: "cli_magic_of None w = None"
  by (simp add: cli_magic_of_def)

lemmas cli_handle_defs = cli_magic_of_def esip_trace_eval

interpretation cli_start: handle_op "es_cli_start E" cli_magic_of ES_CLI_MAGIC ES_ERROR_NULLPTR ES_ERROR_INVALID_HANDLE
  by unfold_locales (auto simp: es_cli_start_def cli_handle_defs)

interpretation cli_stop: handle_op "es_cli_stop E" cli_magic_of ES_CLI_MAGIC ES_ERROR_NULLPTR ES_ERROR_INVALID_HANDLE
  by unfold_locales (auto simp: es_cli_stop_def cli_handle_defs)

interpretation cli_deinit: handle_op "es_cli_deinit E" cli_magic_of ES_CLI_MAGIC ES_ERROR_NULLPTR ES_ERROR_INVALID_HANDLE
  by unfold_locales (auto simp: es_cli_deinit_def cli_handle_defs)

section \<open>Initialisation\<close>

definition new_cli :: "cptr \<Rightarrow> ptr \<Rightarrow> es_cli_s" where
  "new_cli base n = \<lparr>c_magic = ES_CLI_MAGIC, c_base = base, listener = Some (n + 2), cliCtx = Some (n + 1), c_thread = 0\<rparr>"

definition new_listener :: "ptr \<Rightarrow> int \<Rightarrow> listener_s" where
  "new_listener a fd = \<lparr>ls_fn = F_es_evconnlistener_cb, ls_arg = Some a, ls_fd = fd,
     ls_flags = LEV_OPT_CLOSE_ON_FREE OR LEV_OPT_REUSEABLE\<rparr>"

lemma new_listener_closes: "ls_flags (new_listener a fd) AND LEV_OPT_CLOSE_ON_FREE \<noteq> 0"
  by (simp add: new_listener_def LEV_OPT_CLOSE_ON_FREE_def LEV_OPT_REUSEABLE_def)

text \<open>What a call of \<open>es_cli_init\<close> leaves: nothing, or the context that a null base leaves behind, or
  libcli's context when the socket or the listener fails, or on success the three blocks and two open
  descriptors: that of \<open>socket\<close>, which nothing stores, and that of the listener.\<close>

definition cli_inited :: "world \<Rightarrow> cptr \<Rightarrow> es_status \<Rightarrow> cptr \<Rightarrow> world \<Rightarrow> bool" where
  "cli_inited w base st p w' \<longleftrightarrow> dlog w' = dlog w \<and>
     (st = ES_OK \<and> p = Some (brk w) \<and> base \<noteq> None \<and> brk w' = brk w + 3 \<and>
        (\<exists>sfd lfd. 0 \<le> sfd \<and> fds w' = insert lfd (insert sfd (fds w)) \<and>
           heap w' = (heap w)(brk w \<mapsto> C_cli (new_cli base (brk w)), brk w + 1 \<mapsto> C_cli_def,
             brk w + 2 \<mapsto> C_listener (new_listener (brk w) lfd)))
      \<or> p = None \<and>
        (st = ES_ERROR_OUTOFRESOURCES \<and> heap w' = heap w \<and> fds w' = fds w
         \<or> st = ES_ERROR_NULLPTR \<and> base = None \<and> heap w' = (heap w)(brk w \<mapsto> C_cli zero_cli) \<and> fds w' = fds w
         \<or> st = ES_ERROR_NETWORK_PROBLEM \<and> heap w' = (heap w)(brk w + 1 \<mapsto> C_cli_def) \<and> fds w' = fds w
         \<or> st = ES_ERROR_UNKNOWN \<and> heap w' = (heap w)(brk w + 1 \<mapsto> C_cli_def) \<and>
             (\<exists>sfd \<ge> 0. fds w' = fds w - {sfd} \<and> Libc (L_close sfd) \<in> set (hist w'))))"

lemma evl_new_bindD:
  "evl_new_bind E base f arg flags backlog addr w = Some (p, w') \<Longrightarrow>
     (\<exists>fd. p = Some (brk w) \<and> w' = opened fd (new_cell (C_listener \<lparr>ls_fn = f, ls_arg = arg, ls_fd = fd, ls_flags = flags\<rparr>)
        (did (Lev (Evl_new_bind base f arg flags backlog addr)) w))) \<or>
     p = None \<and> w' = did (Lev (Evl_new_bind base f arg flags backlog addr)) w"
  by (auto simp: evl_new_bind_def ext_new_def Let_def split: if_splits)

lemma evl_doD: "evl_do c p w = Some w' \<Longrightarrow> w' = did (Lev (c p)) w \<and> load as_listener p w \<noteq> None"
  by (auto simp: evl_do_def dest: ext_doD split: if_splits)

lemmas cli_dests = run_dests esip_traceD sys_socketD evl_new_bindD evl_doD

lemma cli_configureD: "cli_configure p w = Some w' \<Longrightarrow> heap w' = heap w \<and> brk w' = brk w \<and> fds w' = fds w \<and> dlog w' = dlog w"
  unfolding cli_configure_def by (elim run_elims; clarsimp dest!: cli_dests)

lemma cli_configure_defined [simp]: "cli_configure p w \<noteq> None"
  by (simp add: cli_configure_def call_simps)

lemma cli_init_listenerD:
  assumes "heap v a = Some (C_cli s)" and "heap_ok v"
  shows "cli_init_listener E s a v = Some ((st, p), w') \<Longrightarrow> dlog w' = dlog v \<and>
    (st = ES_OK \<and> p = Some a \<and> brk w' = Suc (brk v) \<and>
        (\<exists>sfd lfd. 0 \<le> sfd \<and> fds w' = insert lfd (insert sfd (fds v)) \<and>
           heap w' = (heap v)(a \<mapsto> C_cli (s\<lparr>listener := Some (brk v)\<rparr>), brk v \<mapsto> C_listener (new_listener a lfd)))
      \<or> p = None \<and> heap w' = (heap v)(a := None) \<and>
        (st = ES_ERROR_NETWORK_PROBLEM \<and> fds w' = fds v
         \<or> st = ES_ERROR_UNKNOWN \<and> (\<exists>sfd \<ge> 0. fds w' = fds v - {sfd} \<and> Libc (L_close sfd) \<in> set (hist w'))))"
  unfolding cli_init_listener_def
  apply (elim run_elims; clarsimp dest!: cli_dests)
  using heap_ok_live [OF assms(2,1)] apply (auto simp: new_listener_def fun_upd_twist)
  subgoal for sfd sa by (rule exI [of _ sfd]) simp
  subgoal for sfd y lfd by (rule exI [of _ sfd], simp, rule exI [of _ lfd]) (simp add: fun_upd_twist)
  done

lemma es_cli_init_result:
  assumes ok: "heap_ok w" and run: "es_cli_init E base w = Some ((st, p), w')"
  shows "cli_inited w base st p w'"
proof -
  have fresh: "heap w (brk w) = None" using ok by (simp add: heap_ok_def)
  let ?c = "Libc (L_malloc B_cli)"
  let ?w1 = "put (brk w) (C_cli zero_cli) (new_cell (C_raw B_cli) (did ?c w))"
  let ?c2 = "Lcli Cli_init"
  let ?s = "zero_cli\<lparr>c_magic := ES_CLI_MAGIC, c_base := base, cliCtx := Some (brk w + 1)\<rparr>"
  consider (memory) "\<not> e_ok E w ?c" | (base) "e_ok E w ?c" "base = None" | (cli) "e_ok E w ?c" "base \<noteq> None" "\<not> e_ok E ?w1 ?c2"
    | (listen) "e_ok E w ?c" "base \<noteq> None" "e_ok E ?w1 ?c2" by blast
  then show ?thesis
  proof cases
    case memory
    with run show ?thesis by (auto simp: es_cli_init_def malloc_eval esip_trace_eval cli_inited_def Let_def)
  next
    case base
    with run show ?thesis by (auto simp: es_cli_init_def malloc_eval esip_trace_eval cli_inited_def Let_def)
  next
    case cli
    with run fresh show ?thesis
      by (auto simp: es_cli_init_def malloc_eval esip_trace_eval cli_inited_def ext_new_def cfree_def fun_upd_idem Let_def)
  next
    case listen
    let ?w2 = "put (brk w) (C_cli ?s) (new_cell C_cli_def (did ?c2 ?w1))"
    have "es_cli_init E base w = do { v \<leftarrow> cli_configure (Some (brk w + 1)) ?w2; cli_init_listener E ?s (brk w) v }"
      using listen by (auto simp: es_cli_init_def malloc_eval ext_new_def Let_def)
    with run obtain v where v: "cli_configure (Some (brk w + 1)) ?w2 = Some v" and
      rest: "cli_init_listener E ?s (brk w) v = Some ((st, p), w')" by (auto elim!: bind_SomeE)
    have h: "heap v = (heap w)(brk w \<mapsto> C_cli ?s, brk w + 1 \<mapsto> C_cli_def)" "brk v = brk w + 2" "fds v = fds w" "dlog v = dlog w"
      using cli_configureD [OF v] by (auto simp: fun_upd_twist)
    have "heap v (brk w) = Some (C_cli ?s)" "heap_ok v" using ok by (simp_all add: h heap_ok_def)
    note D = cli_init_listenerD [OF this rest]
    have "(heap v)(brk w := None) = (heap w)(brk w + 1 \<mapsto> C_cli_def)" using fresh by (auto simp: h fun_eq_iff)
    from D [unfolded this] show ?thesis
    proof (elim conjE disjE exE)
      fix sfd lfd assume "st = ES_OK" "p = Some (brk w)" "brk w' = Suc (brk v)" "0 \<le> sfd" "fds w' = insert lfd (insert sfd (fds v))"
        "heap w' = (heap v)(brk w \<mapsto> C_cli (?s\<lparr>listener := Some (brk v)\<rparr>), brk v \<mapsto> C_listener (new_listener (brk w) lfd))" "dlog w' = dlog v"
      with listen(2) show ?thesis unfolding cli_inited_def
        by (intro conjI disjI1 exI [of _ sfd] exI [of _ lfd]) (simp_all add: h new_cli_def zero_cli_def fun_upd_twist)
    qed (simp add: cli_inited_def h, simp add: cli_inited_def h, blast)
  qed
qed

section \<open>A live context\<close>

definition cli_live :: "ptr \<Rightarrow> es_cli_s \<Rightarrow> listener_s \<Rightarrow> world \<Rightarrow> bool" where
  "cli_live a s l w \<longleftrightarrow> heap w a = Some (C_cli s) \<and> c_magic s = ES_CLI_MAGIC \<and>
     (\<exists>c. cliCtx s = Some c \<and> heap w c = Some C_cli_def) \<and>
     (\<exists>p. listener s = Some p \<and> heap w p = Some (C_listener l)) \<and>
     ls_fn l = F_es_evconnlistener_cb \<and> ls_arg l = Some a \<and> ls_flags l AND LEV_OPT_CLOSE_ON_FREE \<noteq> 0"

lemma es_cli_start_run:
  assumes "cli_live a s l w"
  shows "es_cli_start E (Some a) w = Some (ES_OK, did (Lev (Evl_enable (listener s))) (wrote (trace_text E w 6 ''es_cli_start'' 327) w))"
  using assms
  by (auto simp: cli_live_def es_cli_start_def cli_cell.load_heap listener_cell.load_heap esip_trace_eval evl_do_def call_simps)

lemma es_cli_stop_run:
  assumes "cli_live a s l w"
  shows "es_cli_stop E (Some a) w = Some (ES_OK, did (Lev (Evl_disable (listener s))) w)"
  using assms
  by (auto simp: cli_live_def es_cli_stop_def cli_cell.load_heap listener_cell.load_heap evl_do_def call_simps)

lemma cli_live_steps [simp]:
  "cli_live a s l (did c w) = cli_live a s l w" "cli_live a s l (wrote t w) = cli_live a s l w"
  by (simp_all add: cli_live_def)

text \<open>The state of \<open>es_cli_deinit\<close> just before the listener is freed.\<close>

definition before_listener_free :: "es_cli_s \<Rightarrow> listener_s \<Rightarrow> world \<Rightarrow> world" where
  "before_listener_free s l w = closed (ls_fd l) (did (Libc (L_close (ls_fd l)))
     (did (Lev (Evl_get_fd (listener s))) (drop_cell (the (cliCtx s)) (did (Lcli (Cli_done (cliCtx s))) w))))"

lemma es_cli_deinit_run:
  assumes "cli_live a s l w"
  shows "es_cli_deinit E (Some a) w = do {
      v \<leftarrow> evl_free (listener s) (before_listener_free s l w); v \<leftarrow> cfree (Some a) v; Some (ES_OK, v) }"
proof -
  from assms obtain c p where h: "heap w a = Some (C_cli s)" "c_magic s = ES_CLI_MAGIC" "cliCtx s = Some c" "heap w c = Some C_cli_def"
    "listener s = Some p" "heap w p = Some (C_listener l)" by (auto simp: cli_live_def)
  then have "p \<noteq> c" by auto
  with h show ?thesis
    by (simp add: es_cli_deinit_def cli_cell.load_heap lib_free_def is_cli_def_def evl_get_fd_def listener_cell.load_heap
        sys_close_def before_listener_free_def)
qed

lemma es_cli_deinit_heap:
  assumes "cli_live a s l w"
  shows "\<exists>w'. es_cli_deinit E (Some a) w = Some (ES_OK, w') \<and> fds w' = fds w - {ls_fd l} \<and> brk w' = brk w \<and> dlog w' = dlog w \<and>
    heap w' = (heap w)(the (cliCtx s) := None, the (listener s) := None, a := None) \<and>
    hist w' = Libc (L_free (Some a)) # Lev (Evl_free (listener s)) # hist (before_listener_free s l w)"
proof -
  from assms obtain c p where h: "heap w a = Some (C_cli s)" "cliCtx s = Some c" "heap w c = Some C_cli_def"
    "listener s = Some p" "heap w p = Some (C_listener l)" "ls_flags l AND LEV_OPT_CLOSE_ON_FREE \<noteq> 0" by (auto simp: cli_live_def)
  then have ne: "p \<noteq> c" "a \<noteq> c" "a \<noteq> p" by auto
  have "heap (before_listener_free s l w) = (heap w)(c := None)" by (simp add: before_listener_free_def h)
  with h ne have "evl_free (listener s) (before_listener_free s l w) =
      Some (closed (ls_fd l) (drop_cell p (did (Lev (Evl_free (listener s))) (before_listener_free s l w))))"
    by (simp add: evl_free_def listener_cell.load_heap)
  then show ?thesis unfolding es_cli_deinit_run [OF assms] using h ne
    by (simp add: cfree_def before_listener_free_def)
qed

section \<open>Properties\<close>


text \<open>C26. A command line interface that is created, started, stopped and released leaves the heap as it
  was, but not the descriptors: the listening socket that \<open>es_cli_init\<close> made itself is never closed.
  Only the listener's descriptor is.\<close>

theorem cli_life_cycle:
  assumes "heap_ok w" and "es_cli_init E base w = Some ((ES_OK, p), w1)"
  shows "\<exists>w2 w3 w4 sfd lfd. es_cli_start E p w1 = Some (ES_OK, w2) \<and> es_cli_stop E p w2 = Some (ES_OK, w3) \<and>
    es_cli_deinit E p w3 = Some (ES_OK, w4) \<and> heap w4 = heap w \<and>
    fds w1 = insert lfd (insert sfd (fds w)) \<and> fds w4 = insert sfd (fds w) - {lfd}"
proof -
  from es_cli_init_result [OF assms] obtain sfd lfd where p: "p = Some (brk w)" and f: "fds w1 = insert lfd (insert sfd (fds w))"
    and h: "heap w1 = (heap w)(brk w \<mapsto> C_cli (new_cli base (brk w)), brk w + 1 \<mapsto> C_cli_def,
             brk w + 2 \<mapsto> C_listener (new_listener (brk w) lfd))" by (auto simp: cli_inited_def)
  let ?s = "new_cli base (brk w)" and ?l = "new_listener (brk w) lfd"
  have live: "cli_live (brk w) ?s ?l w1"
    using h new_listener_closes by (simp add: cli_live_def new_cli_def new_listener_def)
  let ?w2 = "did (Lev (Evl_enable (listener ?s))) (wrote (trace_text E w1 6 ''es_cli_start'' 327) w1)"
  let ?w3 = "did (Lev (Evl_disable (listener ?s))) ?w2"
  from live have live2: "cli_live (brk w) ?s ?l ?w2" and live3: "cli_live (brk w) ?s ?l ?w3" by simp_all
  from es_cli_deinit_heap [OF live3, of E] obtain w4 where
    w4: "es_cli_deinit E (Some (brk w)) ?w3 = Some (ES_OK, w4)" "fds w4 = fds w1 - {lfd}"
    "heap w4 = (heap w1)(brk w + 1 := None, brk w + 2 := None, brk w := None)"
    by (auto simp: new_cli_def new_listener_def)
  have "heap w4 = heap w" using assms(1) by (auto simp: w4(3) h heap_ok_def fun_eq_iff)
  with w4 es_cli_start_run [OF live, of E] es_cli_stop_run [OF live2, of E] f p show ?thesis by blast
qed

text \<open>Releasing a live context closes the listener's descriptor twice: \<open>es_cli_deinit\<close> closes it itself,
  and then \<^verbatim>\<open>evconnlistener_free\<close> closes it again, at a moment when the number is no longer open (and may
  have been given to another file).\<close>

theorem cli_deinit_double_close:
  assumes "cli_live a s l w"
  shows "\<exists>v v' w'. es_cli_deinit E (Some a) w = Some (ES_OK, w') \<and>
    hist v = Libc (L_close (ls_fd l)) # Lev (Evl_get_fd (listener s)) # Lcli (Cli_done (cliCtx s)) # hist w \<and>
    ls_fd l \<notin> fds v \<and> evl_free (listener s) v = Some (closed (ls_fd l) v') \<and>
    hist w' = Libc (L_free (Some a)) # Lev (Evl_free (listener s)) # hist v"
proof -
  from es_cli_deinit_heap [OF assms, of E] obtain w' where
    w': "es_cli_deinit E (Some a) w = Some (ES_OK, w')"
      "hist w' = Libc (L_free (Some a)) # Lev (Evl_free (listener s)) # hist (before_listener_free s l w)" by blast
  from w'(1) es_cli_deinit_run [OF assms, of E] obtain u where "evl_free (listener s) (before_listener_free s l w) = Some u"
    by (auto elim!: bind_SomeE)
  moreover from this assms have "\<exists>v'. u = closed (ls_fd l) v'"
    by (auto simp: evl_free_def cli_live_def before_listener_free_def listener_cell.load_iff Let_def elim!: bind_SomeE split: if_splits)
  ultimately obtain v' where "evl_free (listener s) (before_listener_free s l w) = Some (closed (ls_fd l) v')" by blast
  with w' show ?thesis
    by (intro exI [of _ "before_listener_free s l w"] exI [of _ v'] exI [of _ w']) (simp add: before_listener_free_def)
qed

text \<open>A new connection always leaves the context as it is. When memory and a thread can be had, a block
  with the context and the descriptor is handed to a new thread. When the thread cannot be made, the
  block stays behind, and in both failures the connection stays open and nobody owns it.\<close>

theorem cli_connection:
  assumes "cli_live a s l w"
  shows "\<exists>w'. es_evconnlistener_cb E (listener s) fd family (Some a) w = Some w' \<and> fds w' = fds w \<and>
    (heap w' = heap w \<and> hist w' = Libc (L_malloc B_thd) # hist w
     \<or> heap w' = (heap w)(brk w \<mapsto> C_thd \<lparr>thd_ctx = Some a, thd_fd = fd\<rparr>) \<and>
       hist w' = Libc (L_pthread_create F_es_start_cli_thread (Some (brk w))) # Libc (L_malloc B_thd) # hist w)"
  using assms
  by (auto simp: cli_live_def es_evconnlistener_cb_def esip_trace_eval cli_cell.load_heap malloc_eval call_simps Let_def)

text \<open>C36. The thread of a connection runs libcli's loop on the connection's descriptor with the context's
  libcli handle and frees its block when the loop ends well. But the thread uses the context without
  owning it: run after \<open>es_cli_deinit\<close>, it reads a freed block, and its behaviour is undefined.\<close>

theorem cli_thread_needs_context:
  assumes live: "cli_live a s l w" and t: "heap w t = Some (C_thd \<lparr>thd_ctx = Some a, thd_fd = fd\<rparr>)" and fd: "fd \<noteq> - 1"
    and deinit: "es_cli_deinit E (Some a) w = Some (ES_OK, w')"
  shows "es_start_cli_thread E (Some t) w' = None \<and>
    (\<exists>v. es_start_cli_thread E (Some t) w = Some v \<and>
       (\<exists>cs. hist v = cs @ Lcli (Cli_loop (cliCtx s) fd) # hist w) \<and>
       (e_int E w (Lcli (Cli_loop (cliCtx s) fd)) = 0 \<longrightarrow> heap v = (heap w)(t := None)))"
proof -
  from live obtain c p where h: "heap w a = Some (C_cli s)" "cliCtx s = Some c" "heap w c = Some C_cli_def"
    "listener s = Some p" "heap w p = Some (C_listener l)" by (auto simp: cli_live_def)
  from es_cli_deinit_heap [OF live, of E] deinit have w': "heap w' = (heap w)(the (cliCtx s) := None, the (listener s) := None, a := None)"
    by auto
  have "t \<noteq> a" "t \<noteq> c" "t \<noteq> p" using h t by auto
  then have "heap w' t = Some (C_thd \<lparr>thd_ctx = Some a, thd_fd = fd\<rparr>)" "heap w' a = None" using w' h t by simp_all
  then have "es_start_cli_thread E (Some t) w' = None"
    using fd by (simp add: es_start_cli_thread_def thd_cell.load_heap load_def [of as_cli])
  moreover have "\<exists>v. es_start_cli_thread E (Some t) w = Some v \<and>
       (\<exists>cs. hist v = cs @ Lcli (Cli_loop (cliCtx s) fd) # hist w) \<and>
       (e_int E w (Lcli (Cli_loop (cliCtx s) fd)) = 0 \<longrightarrow> heap v = (heap w)(t := None))"
    using t h fd by (simp add: es_start_cli_thread_def thd_cell.load_heap cli_cell.load_heap cli_loop_def live_cli_def_def
        call_simps esip_trace_eval cfree_def)
  ultimately show ?thesis by blast
qed

text \<open>A live context at address 100, and one with a connection's block at 103.\<close>

definition demo_cli :: world where
  "demo_cli = new_cell (C_listener (new_listener 100 5)) (new_cell C_cli_def (new_cell (C_cli (new_cli (Some 9) 100)) boot))"

definition demo_cli_thd :: world where
  "demo_cli_thd = new_cell (C_thd \<lparr>thd_ctx = Some 100, thd_fd = 6\<rparr>) demo_cli"

lemma demo_cli_live:
  "cli_live 100 (new_cli (Some 9) 100) (new_listener 100 5) demo_cli"
  "cli_live 100 (new_cli (Some 9) 100) (new_listener 100 5) demo_cli_thd"
  using new_listener_closes by (simp_all add: cli_live_def demo_cli_thd_def demo_cli_def new_cli_def new_listener_def)

lemma demo_cli_init: "\<exists>w1. es_cli_init plain_env (Some 9) boot = Some ((ES_OK, Some 100), w1)"
  by (simp add: es_cli_init_def cli_init_listener_def cli_configure_def malloc_eval ext_new_def call_simps esip_trace_eval
      sys_socket_def evl_new_bind_def evl_do_def load_def as_listener_def plain_int_def SOCK_STREAM_def Let_def)


theorem cli_life_cycle_witness:
  "\<exists>w1 w3 w4. es_cli_init plain_env (Some 9) boot = Some ((ES_OK, Some 100), w1) \<and>
     es_cli_deinit plain_env (Some 100) w3 = Some (ES_OK, w4) \<and> heap w4 = heap boot"
proof -
  from demo_cli_init obtain w1 where w1: "es_cli_init plain_env (Some 9) boot = Some ((ES_OK, Some 100), w1)" by blast
  from cli_life_cycle [OF boot_heap_ok w1] w1 show ?thesis by blast
qed

theorem cli_deinit_double_close_witness:
  "\<exists>v v'. ls_fd (new_listener 100 5) = 5 \<and> 5 \<notin> fds v \<and> evl_free (Some 102) v = Some (closed 5 v')"
  using cli_deinit_double_close [OF demo_cli_live(1), of plain_env] by (auto simp: new_listener_def new_cli_def)

theorem cli_connection_witness:
  "\<exists>w'. es_evconnlistener_cb plain_env (Some 102) 6 2 (Some 100) demo_cli = Some w' \<and> fds w' = fds demo_cli"
  using cli_connection [OF demo_cli_live(1), of plain_env 6 2] by (auto simp: new_cli_def)

theorem cli_thread_needs_context_witness:
  "\<exists>w' v. es_cli_deinit plain_env (Some 100) demo_cli_thd = Some (ES_OK, w') \<and>
     es_start_cli_thread plain_env (Some 103) w' = None \<and> es_start_cli_thread plain_env (Some 103) demo_cli_thd = Some v"
proof -
  from es_cli_deinit_heap [OF demo_cli_live(2), of plain_env] obtain w' where
    w': "es_cli_deinit plain_env (Some 100) demo_cli_thd = Some (ES_OK, w')" by blast
  have "heap demo_cli_thd 103 = Some (C_thd \<lparr>thd_ctx = Some 100, thd_fd = 6\<rparr>)" by (simp add: demo_cli_thd_def demo_cli_def)
  from cli_thread_needs_context [OF demo_cli_live(2) this _ w'] w' show ?thesis by auto
qed

end
