(* ===== verification/Es_Main.thy ===== *)
theory Es_Main
  imports Es_Osip_Loop Es_Cli
begin

text \<open>
  The main program, \<^verbatim>\<open>src/esip.c\<close>: the command line, the life of the event base and of
  the two servers, and the event loop. \<^verbatim>\<open>event_base_dispatch\<close> is outside code that calls
  back into the program; each such call is a \<open>fire\<close>, and how many there are before it
  returns is the answer \<open>e_callbacks\<close> of the \<open>env\<close>.
\<close>

section \<open>Constants\<close>

definition EXIT_SUCCESS :: int where [simp]: "EXIT_SUCCESS = 0"
definition EXIT_FAILURE :: int where [simp]: "EXIT_FAILURE = 1"
definition SIGINT :: int where "SIGINT = 2"
definition PACKAGE_VERSION :: string where "PACKAGE_VERSION = ''0.0.1''"
definition PACKAGE_BUGREPORT :: string where "PACKAGE_BUGREPORT = ''gasmibal@gmail.com''"
definition ESIP_SHORT_OPTS_STR :: string where "ESIP_SHORT_OPTS_STR = ''vh''"

definition nl :: string where "nl = [CHR 0x0A]"
definition tab :: string where "tab = [CHR 0x09]"

definition ESIP_USAGE_MSG_TEXT_STR :: string where
  "ESIP_USAGE_MSG_TEXT_STR =
     ''Usage: '' @ PACKAGE @ '' [OPTs]'' @ nl @ nl @ ''Operating modes:'' @ nl @ nl
     @ ''  --h'' @ tab @ ''Print this message and then exit.'' @ nl
     @ ''  --v'' @ tab @ ''Print version information and then exit.'' @ nl
     @ nl @ ''For more information, contact me '' @ PACKAGE_BUGREPORT @ nl @ nl"

section \<open>The command line\<close>

text \<open>
  \<^verbatim>\<open>getopt\<close> of the C library for options without arguments: a cluster of option characters
  is worked off first, then the next argument that begins with a dash and is longer than
  the dash is a new cluster, other arguments are passed over, and \<^verbatim>\<open>--\<close> ends the options.
  The answer is the option's character, a question mark for one that is not in \<open>opts\<close> (with
  a message on \<^verbatim>\<open>stderr\<close>), or -1 at the end. The state is the rest of the cluster and the rest of
  the arguments.
\<close>

type_synonym getopt_state = "string \<times> string list"

definition opt_char :: "char \<Rightarrow> int" where
  "opt_char c = int (of_char c)"

definition is_option :: "string \<Rightarrow> bool" where
  "is_option x \<longleftrightarrow> 2 \<le> length x \<and> hd x = CHR ''-''"

fun getopt :: "string \<Rightarrow> getopt_state \<Rightarrow> (int \<times> string list) \<times> getopt_state" where
  "getopt opts (c # cs, args) =
     ((if c \<in> set opts then (opt_char c, [])
       else (opt_char CHR ''?'', [''invalid option -- '', [c]])), (cs, args))"
| "getopt opts ([], []) = ((- 1, []), ([], []))"
| "getopt opts ([], x # args) =
     (if x = ''--'' then ((- 1, []), ([], []))
      else if is_option x then getopt opts (tl x, args)
      else getopt opts ([], args))"

text \<open>The program goes on with a value, or \<^verbatim>\<open>exit\<close> ends it.\<close>

datatype 'a flow = Returns 'a | Exits int

definition esip_usage :: "world \<Rightarrow> world" where
  "esip_usage w = printed ESIP_USAGE_MSG_TEXT_STR w"

definition print_version :: "world \<Rightarrow> world" where
  "print_version w = printed (''Copyright (C) 2014 '' @ PACKAGE_BUGREPORT @ nl)
     (printed (PACKAGE_NAME @ '' version '' @ PACKAGE_VERSION @ nl) w)"

partial_function (option) getopt_loop :: "getopt_state \<Rightarrow> es_status \<Rightarrow> world \<Rightarrow> es_status flow run" where
  "getopt_loop st ret w =
     (let ((optChar, msg), st) = getopt ESIP_SHORT_OPTS_STR st;
          w = wrote msg w;
          ret = (if optChar > 0 then ES_OK else ret)
      in if optChar = opt_char CHR ''h'' then Some (Exits EXIT_SUCCESS, esip_usage w)
         else if optChar = opt_char CHR ''v'' then Some (Exits EXIT_SUCCESS, print_version w)
         else if optChar = - 1
           then (if optChar > 0 then getopt_loop st ret w else Some (Returns ret, w))
         else Some (Returns ES_ERROR_UNINITIALIZED, esip_usage w))"

text \<open>The arguments after the name of the program are scanned from the first one on.\<close>

definition esip_getopt :: "env \<Rightarrow> cptr \<Rightarrow> string list \<Rightarrow> world \<Rightarrow> es_status flow run" where
  "esip_getopt E pCtx argv w =
     (if pCtx = None then do {
        w \<leftarrow> esip_trace E ESIP_LOG_ERROR ''esip_getopt'' 92 w;
        Some (Returns ES_ERROR_BADPARAM, w) }
      else getopt_loop ([], tl argv) ES_OK w)"

section \<open>Callbacks of libevent\<close>

definition libevent_log_cb :: "env \<Rightarrow> int \<Rightarrow> string \<Rightarrow> world \<Rightarrow> world option" where
  "libevent_log_cb E severity msg w = esip_trace E ESIP_LOG_INFO ''libevent_log_cb'' 71 w"

text \<open>Reading a member of \<^verbatim>\<open>app_t\<close> that has no value yet is undefined.\<close>

definition app_get :: "cptr \<Rightarrow> (app_s \<Rightarrow> cptr option) \<Rightarrow> world \<Rightarrow> cptr option" where
  "app_get p sel w = Option.bind (load as_app p w) sel"

definition app_set :: "ptr \<Rightarrow> (app_s \<Rightarrow> app_s) \<Rightarrow> world \<Rightarrow> world option" where
  "app_set a f w = map_option (\<lambda>s. put a (C_app (f s)) w) (load as_app (Some a) w)"

definition signal_cb :: "env \<Rightarrow> int \<Rightarrow> u16 \<Rightarrow> cptr \<Rightarrow> world \<Rightarrow> world option" where
  "signal_cb E fd event arg w = do {
     w \<leftarrow> esip_trace E ESIP_LOG_INFO ''signal_cb'' 77 w;
     base \<leftarrow> app_get arg a_base w;
     (r, w) \<leftarrow> ext_int E (Lev (Ev_base_loopexit base)) w;
     Some w }"

text \<open>An event, a connection or a thread gets its turn: the function that was registered is called
  with the argument that was registered. An accepted connection is an open descriptor.\<close>

definition run_fire :: "env \<Rightarrow> fire \<Rightarrow> world \<Rightarrow> world option" where
  "run_fire E f w =
     (case f of
        Fire_event e what \<Rightarrow> do {
          ev \<leftarrow> load as_event (Some e) w;
          case ev_fn ev of
            F_es_transport_ev \<Rightarrow> transport_readable E (ev_fd ev) what (ev_arg ev) w
          | F_es_osip_loop \<Rightarrow> es_osip_loop E (ev_fd ev) what (ev_arg ev) w
          | F_signal_cb \<Rightarrow> signal_cb E (ev_fd ev) what (ev_arg ev) w
          | _ \<Rightarrow> None }
      | Fire_accept p fd family \<Rightarrow> do {
          l \<leftarrow> load as_listener (Some p) w;
          case ls_fn l of
            F_es_evconnlistener_cb \<Rightarrow> es_evconnlistener_cb E (Some p) fd family (ls_arg l) (opened fd w)
          | _ \<Rightarrow> None }
      | Fire_accept_error p \<Rightarrow> do {
          l \<leftarrow> load as_listener (Some p) w;
          es_accept_error_cb E (Some p) (ls_arg l) w }
      | Run_thread t \<Rightarrow> es_start_cli_thread E (Some t) w)"

primrec run_fires :: "env \<Rightarrow> nat \<Rightarrow> world \<Rightarrow> world option" where
  "run_fires E 0 w = Some w"
| "run_fires E (Suc n) w = do {
     w \<leftarrow> run_fire E (e_fire E w) (did (Enter_fire (e_fire E w)) w);
     run_fires E n w }"

section \<open>The event base\<close>

definition is_cfg :: "cell \<Rightarrow> bool" where
  "is_cfg x = (case x of C_ev_cfg \<Rightarrow> True | _ \<Rightarrow> False)"

definition is_base :: "cell \<Rightarrow> bool" where
  "is_base x = (case x of C_ev_base \<Rightarrow> True | _ \<Rightarrow> False)"

text \<open>libevent's functions on a configuration or a base want a live one.\<close>

definition obj_int :: "env \<Rightarrow> (cell \<Rightarrow> bool) \<Rightarrow> (cptr \<Rightarrow> ev_call) \<Rightarrow> cptr \<Rightarrow> world \<Rightarrow> int run" where
  "obj_int E is c p w =
     (case p of None \<Rightarrow> None
      | Some a \<Rightarrow> (case heap w a of None \<Rightarrow> None
          | Some x \<Rightarrow> if is x then ext_int E (Lev (c p)) w else None))"

definition base_dispatch :: "env \<Rightarrow> cptr \<Rightarrow> world \<Rightarrow> int run" where
  "base_dispatch E base w =
     (let n = e_callbacks E w (Lev (Ev_base_dispatch base))
      in do {
        (r, w) \<leftarrow> obj_int E is_base Ev_base_dispatch base w;
        w \<leftarrow> run_fires E n w;
        Some (r, w) })"

section \<open>The program\<close>

text \<open>The labels \<^verbatim>\<open>EXIT\<close> and \<^verbatim>\<open>ERROR_EXIT\<close>. The variable \<^verbatim>\<open>ctx\<close> at \<open>a\<close> ends with \<^verbatim>\<open>main\<close>.\<close>

definition main_EXIT :: "ptr \<Rightarrow> int \<Rightarrow> world \<Rightarrow> int run" where
  "main_EXIT a ret w = do {
     cfg \<leftarrow> app_get (Some a) a_cfg w;
     w \<leftarrow> lib_free is_cfg (Lev (Ev_config_free cfg)) cfg w;
     w \<leftarrow> app_set a (\<lambda>s. s\<lparr>a_cfg := Some None\<rparr>) w;
     evsig \<leftarrow> app_get (Some a) a_evsig w;
     w \<leftarrow> ev_free evsig w;
     base \<leftarrow> app_get (Some a) a_base w;
     w \<leftarrow> lib_free is_base (Lev (Ev_base_free base)) base w;
     Some (ret, drop_cell a w) }"

definition main_ERROR_EXIT :: "env \<Rightarrow> ptr \<Rightarrow> world \<Rightarrow> int run" where
  "main_ERROR_EXIT E a w = do {
     w \<leftarrow> esip_trace E ESIP_LOG_EMERG ''main'' 205 w;
     main_EXIT a EXIT_FAILURE w }"

text \<open>The loop, and the orderly end.\<close>

definition main_stop :: "env \<Rightarrow> ptr \<Rightarrow> world \<Rightarrow> int run" where
  "main_stop E a w = do {
     osipCtx \<leftarrow> app_get (Some a) a_osipCtx w;
     cliCtx \<leftarrow> app_get (Some a) a_cliCtx w;
     (r, w) \<leftarrow> es_osip_stop E osipCtx w;
     (r, w) \<leftarrow> es_cli_stop E cliCtx w;
     (r, w) \<leftarrow> es_osip_deinit E osipCtx w;
     (r, w) \<leftarrow> es_cli_deinit E cliCtx w;
     main_EXIT a EXIT_SUCCESS w }"

definition main_loop :: "env \<Rightarrow> ptr \<Rightarrow> world \<Rightarrow> int run" where
  "main_loop E a w = do {
     w \<leftarrow> esip_trace E ESIP_LOG_DEBUG ''main'' 190 w;
     base \<leftarrow> app_get (Some a) a_base w;
     (r, w) \<leftarrow> base_dispatch E base w;
     if r \<noteq> 0 then do {
       w \<leftarrow> esip_trace E ESIP_LOG_EMERG ''main'' 192 w;
       main_ERROR_EXIT E a w }
     else main_stop E a w }"

text \<open>The two servers. A failing initialisation leaves the variable for its context as it is.\<close>

definition main_start :: "env \<Rightarrow> ptr \<Rightarrow> world \<Rightarrow> int run" where
  "main_start E a w = do {
     cliCtx \<leftarrow> app_get (Some a) a_cliCtx w;
     (st, w) \<leftarrow> es_cli_start E cliCtx w;
     if st \<noteq> ES_OK then do {
       w \<leftarrow> esip_trace E ESIP_LOG_ERROR ''main'' 181 w;
       main_ERROR_EXIT E a w }
     else do {
       osipCtx \<leftarrow> app_get (Some a) a_osipCtx w;
       (st, w) \<leftarrow> es_osip_start E osipCtx w;
       if st \<noteq> ES_OK then do {
         w \<leftarrow> esip_trace E ESIP_LOG_ERROR ''main'' 186 w;
         main_ERROR_EXIT E a w }
       else main_loop E a w } }"

definition main_init :: "env \<Rightarrow> ptr \<Rightarrow> world \<Rightarrow> int run" where
  "main_init E a w = do {
     base \<leftarrow> app_get (Some a) a_base w;
     ((st, osipCtx), w) \<leftarrow> es_osip_init E base w;
     if st \<noteq> ES_OK then do {
       w \<leftarrow> esip_trace E ESIP_LOG_ERROR ''main'' 170 w;
       main_ERROR_EXIT E a w }
     else do {
       w \<leftarrow> app_set a (\<lambda>s. s\<lparr>a_osipCtx := Some osipCtx\<rparr>) w;
       ((st, cliCtx), w) \<leftarrow> es_cli_init E base w;
       if st \<noteq> ES_OK then do {
         w \<leftarrow> esip_trace E ESIP_LOG_ERROR ''main'' 176 w;
         main_ERROR_EXIT E a w }
       else do {
         w \<leftarrow> app_set a (\<lambda>s. s\<lparr>a_cliCtx := Some cliCtx\<rparr>) w;
         main_start E a w } } }"

text \<open>The base and the event of the signal.\<close>

definition signal_event :: "cptr \<Rightarrow> ptr \<Rightarrow> event_s" where
  "signal_event base a = \<lparr>ev_base = base, ev_fd = SIGINT, ev_flags = EV_SIGNAL OR EV_PERSIST,
     ev_fn = F_signal_cb, ev_arg = Some a\<rparr>"

definition main_signal :: "env \<Rightarrow> ptr \<Rightarrow> world \<Rightarrow> int run" where
  "main_signal E a w = do {
     base \<leftarrow> app_get (Some a) a_base w;
     (evsig, w) \<leftarrow> ev_new E (signal_event base a) w;
     w \<leftarrow> app_set a (\<lambda>s. s\<lparr>a_evsig := Some evsig\<rparr>) w;
     if evsig = None then do {
       w \<leftarrow> esip_trace E ESIP_LOG_ERROR ''main'' 159 w;
       main_ERROR_EXIT E a w }
     else do {
       (r, w) \<leftarrow> ev_add E evsig w;
       if r \<noteq> 0 then do {
         w \<leftarrow> esip_trace E ESIP_LOG_ERROR ''main'' 164 w;
         main_ERROR_EXIT E a w }
       else main_init E a w } }"

definition main_base :: "env \<Rightarrow> ptr \<Rightarrow> world \<Rightarrow> int run" where
  "main_base E a w = do {
     w \<leftarrow> ext_do (Lev (Ev_set_log_cb F_libevent_log_cb)) w;
     (cfg, w) \<leftarrow> ext_new E (Lev Ev_config_new) C_ev_cfg w;
     w \<leftarrow> app_set a (\<lambda>s. s\<lparr>a_cfg := Some cfg\<rparr>) w;
     (r, w) \<leftarrow> obj_int E is_cfg (\<lambda>p. Ev_config_avoid p ''select'') cfg w;
     w \<leftarrow> (if r \<noteq> 0 then esip_trace E ESIP_LOG_ERROR ''main'' 143 w else Some w);
     (base, w) \<leftarrow> ext_new E (Lev (Ev_base_new cfg)) C_ev_base w;
     w \<leftarrow> app_set a (\<lambda>s. s\<lparr>a_base := Some base\<rparr>) w;
     if base = None then do {
       w \<leftarrow> esip_trace E ESIP_LOG_ERROR ''main'' 148 w;
       main_ERROR_EXIT E a w }
     else do {
       (r, w) \<leftarrow> obj_int E is_base (\<lambda>p. Ev_base_priority_init p 2) base w;
       w \<leftarrow> (if r \<noteq> 0 then esip_trace E ESIP_LOG_ERROR ''main'' 154 w else Some w);
       main_signal E a w } }"

definition uninitialised :: app_s where
  "uninitialised = \<lparr>a_cfg = None, a_base = None, a_evsig = None, a_logger = None, a_osipCtx = None, a_cliCtx = None\<rparr>"

definition esip_main :: "env \<Rightarrow> string list \<Rightarrow> world \<Rightarrow> int run" where
  "esip_main E argv w =
     (let a = brk w; w = new_cell (C_app uninitialised) w
      in do {
        (r, w) \<leftarrow> esip_getopt E (Some a) argv w;
        case r of
          Exits n \<Rightarrow> Some (n, drop_cell a w)
        | Returns st \<Rightarrow>
            if st \<noteq> ES_OK then do {
              w \<leftarrow> esip_trace E ESIP_LOG_CRIT ''main'' 135 w;
              Some (EXIT_FAILURE, drop_cell a w) }
            else main_base E a w })"

end
