(* ===== verification/Es_Server.thy ===== *)
theory Es_Server
  imports Es_Main
begin

text \<open>
  The running server: the invariant that holds while \<^verbatim>\<open>event_base_dispatch\<close> runs, and what the
  calls of libevent back into the program do to it. \<open>g\<close> is the address of the variable \<^verbatim>\<open>ctx\<close> of
  \<^verbatim>\<open>main\<close>, \<open>a\<close> that of the SIP stack's context, \<open>c\<close> that of the command line interface.
\<close>

section \<open>The invariant\<close>

definition transport_listens :: "ptr \<Rightarrow> world \<Rightarrow> bool" where
  "transport_listens a w \<longleftrightarrow> (\<exists>s p t e. heap w a = Some (C_osip s) \<and> transportCtx s = Some p \<and>
     heap w p = Some (C_transport t) \<and> evudpsock t = Some e \<and> heap w e = Some (C_event (transport_event p t)))"

definition app_ready :: "ptr \<Rightarrow> ptr \<Rightarrow> ptr \<Rightarrow> world \<Rightarrow> bool" where
  "app_ready g a c w \<longleftrightarrow> (\<exists>x cfg b ev. heap w g = Some (C_app x) \<and>
     a_osipCtx x = Some (Some a) \<and> a_cliCtx x = Some (Some c) \<and>
     a_cfg x = Some (Some cfg) \<and> heap w cfg = Some C_ev_cfg \<and>
     a_base x = Some (Some b) \<and> heap w b = Some C_ev_base \<and>
     a_evsig x = Some (Some ev) \<and> heap w ev = Some (C_event (signal_event (Some b) g)))"

definition server_ok :: "ptr \<Rightarrow> ptr \<Rightarrow> ptr \<Rightarrow> world \<Rightarrow> bool" where
  "server_ok g a c w \<longleftrightarrow> osip_ok a w \<and> transport_listens a w \<and> (\<exists>s l. cli_live c s l w) \<and> app_ready g a c w"

text \<open>The blocks the invariant is about, but for the context of the stack and its queue: nothing that
  happens while the server runs frees or changes one of them.\<close>

definition static_cell :: "cell \<Rightarrow> bool" where
  "static_cell k = (case k of
       C_transport t \<Rightarrow> True | C_event ev \<Rightarrow> ev_fn ev \<noteq> F_es_osip_loop | C_cli s \<Rightarrow> True | C_cli_def \<Rightarrow> True
     | C_listener l \<Rightarrow> True | C_app x \<Rightarrow> True | C_ev_base \<Rightarrow> True | C_ev_cfg \<Rightarrow> True | C_osip_stack \<Rightarrow> True | _ \<Rightarrow> False)"

definition static :: "world \<Rightarrow> world \<Rightarrow> bool" where
  "static w w' \<longleftrightarrow> (\<forall>x k. heap w x = Some k \<longrightarrow> static_cell k \<longrightarrow> heap w' x = Some k)"

lemma static_cell_simps [simp]:
  "static_cell (C_transport t)" "static_cell (C_event ev) \<longleftrightarrow> ev_fn ev \<noteq> F_es_osip_loop" "static_cell (C_cli s)"
  "static_cell C_cli_def" "static_cell (C_listener l)" "static_cell (C_app x)" "static_cell C_ev_base" "static_cell C_ev_cfg"
  "static_cell C_osip_stack" "\<not> static_cell (C_osip os)" "\<not> static_cell (C_thd th)"
  by (simp_all add: static_cell_def)

lemma static_not_lib: "static_cell k \<Longrightarrow> \<not> lib_object k"
  by (cases k) (simp_all add: static_cell_def lib_object_def)

lemma staticD: "static w w' \<Longrightarrow> heap w x = Some k \<Longrightarrow> static_cell k \<Longrightarrow> heap w' x = Some k"
  by (simp add: static_def)

lemma event_fns [simp]:
  "ev_fn (transport_event p t) = F_es_transport_ev" "ev_arg (transport_event p t) = Some p" "ev_fd (transport_event p t) = udp_socket t"
  "ev_fn (signal_event b g) = F_signal_cb" "ev_arg (signal_event b g) = Some g"
  by (simp_all add: transport_event_def signal_event_def)

lemma server_frame:
  assumes ok: "server_ok g a c w" and osip: "osip_ok a w'" and st: "static w w'"
    and s: "\<And>s. heap w a = Some (C_osip s) \<Longrightarrow> \<exists>s'. heap w' a = Some (C_osip s') \<and> transportCtx s' = transportCtx s"
  shows "server_ok g a c w'"
proof -
  note keep = staticD [OF st]
  from ok obtain s p t e where "heap w a = Some (C_osip s)" "transportCtx s = Some p"
    "heap w p = Some (C_transport t)" "evudpsock t = Some e" "heap w e = Some (C_event (transport_event p t))"
    by (auto simp: server_ok_def transport_listens_def)
  with s keep have "transport_listens a w'" unfolding transport_listens_def by fastforce
  moreover from ok obtain s l where "cli_live c s l w" by (auto simp: server_ok_def)
  with keep have "cli_live c s l w'" by (auto simp: cli_live_def)
  moreover have "app_ready g a c w'" using ok keep unfolding server_ok_def app_ready_def by fastforce
  ultimately show ?thesis using osip by (auto simp: server_ok_def)
qed

lemma server_okD:
  assumes "server_ok g a c w"
  shows "osip_ok a w" "heap_ok w"
  using assms by (simp_all add: server_ok_def osip_ok_def)

lemma server_ok_steps [simp]:
  "server_ok g a c (did k w) = server_ok g a c w" "server_ok g a c (wrote t w) = server_ok g a c w"
  by (simp_all add: server_ok_def transport_listens_def app_ready_def)

lemma server_ok_opened [simp]: "server_ok g a c (opened fd w) = server_ok g a c w"
  by (simp add: server_ok_def transport_listens_def app_ready_def cli_live_def osip_ok_def osip_live_def pending_ok_def heap_ok_def)

lemma server_grows:
  assumes "server_ok g a c w" and "grows a w w'"
  shows "server_ok g a c w'"
proof (rule server_frame [OF assms(1) grows_ok [OF assms(2)]])
  have "heap w' x = Some k" if x: "heap w x = Some k" "static_cell k" for x k
  proof -
    from assms(2) x have "x \<noteq> a" by (auto simp: grows_def)
    with assms(2) x(1) static_not_lib [OF x(2)] show ?thesis by (simp add: grows_def)
  qed
  then show "static w w'" by (simp add: static_def)
qed (use assms(2) in \<open>auto simp: grows_def\<close>)

lemma server_keeps: "server_ok g a c w \<Longrightarrow> keeps w w' \<Longrightarrow> server_ok g a c w'"
  using server_grows grows_keeps server_okD(1) by blast

lemma server_drained:
  assumes "server_ok g a c w" and "drained a w w'"
  shows "server_ok g a c w'"
proof -
  from assms(2) obtain s ds where s: "heap w a = Some (C_osip s)"
    "heap w' a = Some (C_osip (s\<lparr>pendingEv := [], osipDialog := ds @ osipDialog s\<rparr>))"
    and keep: "\<And>x k. heap w x = Some k \<Longrightarrow> \<not> lib_object k \<Longrightarrow> x \<noteq> a \<Longrightarrow> x \<notin> set (pendingEv s) \<Longrightarrow> heap w' x = Some k"
    and ok: "osip_ok a w'" by (auto simp: drained_def)
  from server_okD(1) [OF assms(1)] s(1) have p: "pending_ok a w (pendingEv s)" by (auto elim: osip_okD)
  have "heap w' x = Some k" if "heap w x = Some k" "static_cell k" for x k
    using that p s(1) by (intro keep static_not_lib) (auto simp: pending_ok_def dest!: bspec)
  then show ?thesis
    by (intro server_frame [OF assms(1) ok]) (use s in \<open>auto simp: static_def\<close>)
qed

text \<open>A thread that ends frees its own block.\<close>

lemma server_thread_end:
  assumes ok: "server_ok g a c w" and t: "heap w t = Some (C_thd th)"
  shows "server_ok g a c (drop_cell t w)"
proof -
  from server_okD(1) [OF ok] obtain s x where s: "osip_live a s x w" "heap w a = Some (C_osip s)" "pending_ok a w (pendingEv s)" "heap_ok w"
    "\<forall>e. evudpsock x = Some e \<longrightarrow> e \<notin> set (pendingEv s)" "\<forall>d \<in> set (osipDialog s). heap w d = Some C_dialog"
    by (rule osip_okD)
  have "osip_live a (s\<lparr>pendingEv := pendingEv s\<rparr>) x (drop_cell t w)"
    using s(2) t by (intro osip_live_change [OF s(1)]) auto
  with s t have "osip_ok a (drop_cell t w)"
    unfolding osip_ok_def by (intro conjI exI [of _ s] exI [of _ x]) (auto simp: heap_ok_def pending_ok_def)
  moreover have "static w (drop_cell t w)" using t by (auto simp: static_def)
  ultimately show ?thesis using s(2) t by (intro server_frame [OF ok]) auto
qed

section \<open>The types of the blocks\<close>

text \<open>A tag for the type a block was made with.\<close>

definition cell_type :: "cell \<Rightarrow> nat" where
  "cell_type k = (case k of C_raw b \<Rightarrow> 0 | C_log l \<Rightarrow> 1 | C_transport t \<Rightarrow> 2 | C_osip s \<Rightarrow> 3 | C_msg m \<Rightarrow> 4 | C_cli s \<Rightarrow> 5
     | C_thd t \<Rightarrow> 6 | C_app x \<Rightarrow> 7 | C_event e \<Rightarrow> 8 | C_listener l \<Rightarrow> 9 | C_evt e \<Rightarrow> 10 | C_sip m \<Rightarrow> 11 | C_tr k \<Rightarrow> 12
     | C_dialog \<Rightarrow> 13 | C_osip_stack \<Rightarrow> 14 | C_hdr h \<Rightarrow> 15 | C_cli_def \<Rightarrow> 16 | C_ev_base \<Rightarrow> 17 | C_ev_cfg \<Rightarrow> 18 | C_text d \<Rightarrow> 19)"

lemma cell_type_lib: "cell_type k = cell_type k' \<Longrightarrow> lib_object k = lib_object k'"
  by (cases k; cases k') (simp_all add: cell_type_def lib_object_def)

text \<open>A block of the program is freed or keeps its type, the address of a freed block is not given out
  again, and a context of the SIP stack changes only in its queue and gets new dialogs in front.\<close>

definition context_grows :: "es_osip_s \<Rightarrow> es_osip_s \<Rightarrow> bool" where
  "context_grows s s' \<longleftrightarrow> (\<exists>q ds. s' = s\<lparr>pendingEv := q, osipDialog := ds @ osipDialog s\<rparr>)"

lemma context_grows_refl [simp]: "context_grows s s"
  unfolding context_grows_def by (intro exI [of _ "pendingEv s"] exI [of _ "[]"]) simp

lemma context_grows_intros [simp]:
  "context_grows s (grown s es ds)" "context_grows s (s\<lparr>pendingEv := q, osipDialog := ds @ osipDialog s\<rparr>)"
  unfolding context_grows_def grown_def by blast+

lemma context_grows_trans: "context_grows s s' \<Longrightarrow> context_grows s' s'' \<Longrightarrow> context_grows s s''"
  unfolding context_grows_def by (elim exE) (simp, metis append_assoc)

definition typed :: "world \<Rightarrow> world \<Rightarrow> bool" where
  "typed w w' \<longleftrightarrow> brk w \<le> brk w' \<and> (\<forall>y < brk w. heap w y = None \<longrightarrow> heap w' y = None) \<and>
     (\<forall>y k. heap w y = Some k \<longrightarrow> \<not> lib_object k \<longrightarrow> heap w' y = None \<or> map_option cell_type (heap w' y) = Some (cell_type k)) \<and>
     (\<forall>y s s'. heap w y = Some (C_osip s) \<longrightarrow> heap w' y = Some (C_osip s') \<longrightarrow> context_grows s s')"

lemma cell_type_osip: "cell_type k = cell_type (C_osip s) \<longleftrightarrow> (\<exists>s'. k = C_osip s')"
  by (cases k) (simp_all add: cell_type_def)

lemma typed_refl [simp]: "typed w w"
  by (simp add: typed_def)

lemma typed_steps [simp]:
  "typed u (did k w) = typed u w" "typed u (wrote t w) = typed u w" "typed u (opened fd w) = typed u w" "typed (opened fd u) w = typed u w"
  by (simp_all add: typed_def)

lemma typed_drop [simp]: "typed u w \<Longrightarrow> typed u (drop_cell t w)"
  by (simp add: typed_def)

lemma typed_trans:
  assumes "heap_ok u" and "typed u v" and "typed v w"
  shows "typed u w"
  unfolding typed_def
proof (intro conjI allI impI)
  fix y k assume y: "heap u y = Some k" "\<not> lib_object k"
  with assms(1,2) have lt: "y < brk v" using heap_ok_live [OF assms(1) y(1)] by (simp add: typed_def)
  have "heap v y = None \<or> map_option cell_type (heap v y) = Some (cell_type k)" using assms(2) y unfolding typed_def by blast
  then consider "heap v y = None" | k' where "heap v y = Some k'" "cell_type k' = cell_type k" by auto
  then show "heap w y = None \<or> map_option cell_type (heap w y) = Some (cell_type k)"
  proof cases
    case 1
    with assms(3) lt show ?thesis by (simp add: typed_def)
  next
    case (2 k')
    with y(2) cell_type_lib have "\<not> lib_object k'" by blast
    with assms(3) 2(1) have "heap w y = None \<or> map_option cell_type (heap w y) = Some (cell_type k')" unfolding typed_def by blast
    with 2(2) show ?thesis by simp
  qed
next
  fix y s s'' assume y: "heap u y = Some (C_osip s)" "heap w y = Some (C_osip s'')"
  with assms(1,2) have "y < brk v" using heap_ok_live [OF assms(1) y(1)] by (simp add: typed_def)
  with assms(3) y(2) have "heap v y \<noteq> None" by (auto simp: typed_def)
  moreover have "heap v y = None \<or> map_option cell_type (heap v y) = Some (cell_type (C_osip s))"
    using assms(2) y(1) lib_object_simps(1) [of s] unfolding typed_def by blast
  ultimately obtain s' where "heap v y = Some (C_osip s')" by (auto simp: cell_type_osip)
  with assms(2,3) y show "context_grows s s''" unfolding typed_def by (blast intro: context_grows_trans)
qed (use assms(2,3) in \<open>auto simp: typed_def\<close>)

lemma typed_grows:
  assumes "grows a w w'"
  shows "typed w w'"
proof -
  from assms obtain s es ds where s: "heap w a = Some (C_osip s)" "heap w' a = Some (C_osip (grown s es ds))" by (auto simp: grows_def)
  have "heap w' y = Some k" if "heap w y = Some k" "\<not> lib_object k" "y \<noteq> a" for y k
    using assms that by (simp add: grows_def)
  note keep = this
  have "context_grows r r'" if "heap w y = Some (C_osip r)" "heap w' y = Some (C_osip r')" for y r r'
    using keep [OF that(1)] that s by (cases "y = a") auto
  moreover have "map_option cell_type (heap w' y) = Some (cell_type k)" if "heap w y = Some k" "\<not> lib_object k" for y k
    using keep [OF that] that s by (cases "y = a") (auto simp: cell_type_def)
  ultimately show ?thesis using assms unfolding typed_def grows_def by blast
qed

lemma typed_drained:
  assumes "drained a w w'"
  shows "typed w w'"
proof -
  from assms obtain s ds where s: "heap w a = Some (C_osip s)"
      "heap w' a = Some (C_osip (s\<lparr>pendingEv := [], osipDialog := ds @ osipDialog s\<rparr>))"
    and rest: "\<And>e. e \<in> set (pendingEv s) \<Longrightarrow> heap w' e = None"
      "\<And>x c. heap w x = Some c \<Longrightarrow> \<not> lib_object c \<Longrightarrow> x \<noteq> a \<Longrightarrow> x \<notin> set (pendingEv s) \<Longrightarrow> heap w' x = Some c"
    by (auto simp: drained_def)
  have "heap w' y = None \<or> map_option cell_type (heap w' y) = Some (cell_type k)" if "heap w y = Some k" "\<not> lib_object k" for y k
    using that s rest by (cases "y = a"; cases "y \<in> set (pendingEv s)") (auto simp: cell_type_def)
  moreover have "context_grows r r'" if "heap w y = Some (C_osip r)" "heap w' y = Some (C_osip r')" for y r r'
    using rest(1) [of y] rest(2) [OF that(1)] that s by (cases "y = a"; cases "y \<in> set (pendingEv s)") auto
  ultimately show ?thesis using assms unfolding typed_def drained_def by blast
qed

section \<open>What libevent and the system call back with\<close>

text \<open>A call that the server asked for: an event of the loop, of the signal or of the socket, with the
  function and the argument they were made with; a connection on the listener; or a thread whose
  block is there. When the socket is readable, a datagram can be received that fits the buffer
  with its terminating zero.\<close>

definition datagram_fits :: "env \<Rightarrow> int \<Rightarrow> world \<Rightarrow> bool" where
  "datagram_fits E fd w \<longleftrightarrow> 0 \<le> e_int E w (Libc (L_recvfrom fd 2048)) \<and> length (e_bytes E w (Libc (L_recvfrom fd 2048))) < 2048"

definition fire_ok :: "env \<Rightarrow> ptr \<Rightarrow> ptr \<Rightarrow> ptr \<Rightarrow> world \<Rightarrow> fire \<Rightarrow> bool" where
  "fire_ok E g a c w f \<longleftrightarrow>
     (case f of
        Fire_event e what \<Rightarrow> (\<exists>ev. heap w e = Some (C_event ev) \<and>
           (ev_fn ev = F_es_osip_loop \<and> ev_arg ev = Some a \<or> ev_fn ev = F_signal_cb \<and> ev_arg ev = Some g
            \<or> ev_fn ev = F_es_transport_ev \<and> what AND EV_READ \<noteq> 0 \<and> datagram_fits E (ev_fd ev) w \<and>
              (\<exists>s. heap w a = Some (C_osip s) \<and> transportCtx s = ev_arg ev)))
      | Fire_accept p fd family \<Rightarrow> (\<exists>s. heap w c = Some (C_cli s) \<and> listener s = Some p)
      | Fire_accept_error p \<Rightarrow> (\<exists>s. heap w c = Some (C_cli s) \<and> listener s = Some p)
      | Run_thread t \<Rightarrow> (\<exists>th. heap w t = Some (C_thd th) \<and> thd_ctx th = Some c))"

definition is_loop_fire :: "world \<Rightarrow> fire \<Rightarrow> bool" where
  "is_loop_fire w f \<longleftrightarrow> (\<exists>e what ev. f = Fire_event e what \<and> heap w e = Some (C_event ev) \<and> ev_fn ev = F_es_osip_loop)"

lemma loop_fire:
  assumes lib: "osip_lib E a" and ok: "server_ok g a c w" and f: "fire_ok E g a c w f" and loop: "is_loop_fire w f"
  shows "run_fire E f w = Some w' \<Longrightarrow> server_ok g a c w' \<and> typed w w'" and "quiet_after E N \<Longrightarrow> run_fire E f w \<noteq> None"
proof -
  from f loop obtain e what ev where f: "f = Fire_event e what" "heap w e = Some (C_event ev)" "ev_fn ev = F_es_osip_loop" "ev_arg ev = Some a"
    by (auto simp: fire_ok_def is_loop_fire_def)
  then have run: "run_fire E f w = osip_loop E a w"
    by (simp add: run_fire_def event_cell.load_heap es_osip_loop_def)
  note osip = server_okD(1) [OF ok]
  show "run_fire E f w = Some w' \<Longrightarrow> server_ok g a c w' \<and> typed w w'"
    unfolding run using osip_loop_drained [OF lib _ osip] server_drained [OF ok] typed_drained by blast
  show "quiet_after E N \<Longrightarrow> run_fire E f w \<noteq> None"
    unfolding run using osip_loop_drains [OF lib _ osip] by fastforce
qed

lemma msg_cb_grows:
  assumes "osip_list_laws E" and "finds_live E" and ok: "osip_ok a w" and len: "unat len \<le> length buf"
  shows "\<exists>w'. es_transport_msg_cb E tp buf len (Some a) w = Some w' \<and> grows a w w'"
proof -
  have "osip_ok a (wrote z w)" for z using ok by simp
  from es_osip_parse_msg_grows [OF assms(1,2) this len] have
    run: "\<exists>st v. es_osip_parse_msg E (Some a) buf len (wrote z w) = Some (st, v) \<and> grows a w v" for z by simp
  then obtain v where "\<exists>st. es_osip_parse_msg E (Some a) buf len
      (wrote ((if len < 3 then trace_text E w ESIP_LOG_WARNING ''_es_transport_msg_cb'' 405 else []) @
        trace_text E w ESIP_LOG_DEBUG ''_es_transport_msg_cb'' 408) w) = Some (st, v)" "grows a w v" by blast
  then show ?thesis
    by (cases "len < 3") (auto simp: es_transport_msg_cb_def esip_trace_eval trace_text_def)
qed

lemma transport_fire:
  assumes laws: "osip_list_laws E" "finds_live E" and ok: "server_ok g a c w" and read: "what AND EV_READ \<noteq> 0"
    and s: "heap w a = Some (C_osip s)" "transportCtx s = arg" and fits: "datagram_fits E fd w"
  shows "\<exists>w'. transport_readable E fd what arg w = Some w' \<and> grows a w w'"
proof -
  note osip = server_okD(1) [OF ok]
  from osip s obtain p t where p: "arg = Some p" "heap w p = Some (C_transport t)" "t_magic t = ES_TRANSPORT_MAGIC"
    "callbacks t = osip_callbacks a" by (auto simp: osip_ok_def osip_live_def)
  let ?d = "e_bytes E w (Libc (L_recvfrom fd 2048))"
  let ?v = "after_recv E fd w"
  from fits have d: "length ?d < 2048" "0 \<le> e_int E w (Libc (L_recvfrom fd 2048))" by (simp_all add: datagram_fits_def)
  have okv: "osip_ok a ?v" using osip by (simp add: after_recv_def Let_def)
  have "\<exists>u. (if ?d = [] then Some ?v
      else call_transport_msg E F_es_transport_msg_cb (Some p) (received E ?d w) (word_of_nat (length ?d)) (Some a) ?v) = Some u \<and> grows a w u"
  proof (cases "?d = []")
    case True
    have "grows a w ?v" using grows_refl [OF osip] by (simp add: after_recv_def Let_def)
    with True show ?thesis by simp
  next
    case False
    have "unat (word_of_nat (length ?d) :: u32) \<le> length (received E ?d w)"
      using d(1) by (simp add: unat_of_nat take_bit_nat_eq_self)
    from msg_cb_grows [OF laws okv this] False show ?thesis by (auto simp: call_transport_msg_def after_recv_def Let_def)
  qed
  then obtain u where u: "(if ?d = [] then Some ?v
      else call_transport_msg E F_es_transport_msg_cb (Some p) (received E ?d w) (word_of_nat (length ?d)) (Some a) ?v) = Some u" "grows a w u"
    by blast
  have pa: "p \<noteq> a" using p(2) s(1) by auto
  with u(2) p(2) have "load as_transport (Some p) u = Some t" by (simp add: grows_def transport_cell.load_heap)
  note load = this
  have cb: "msg_recv_cb (callbacks t) = Some F_es_transport_msg_cb" "user_data (callbacks t) = Some a"
    "event_cb (callbacks t) = Some F_es_transport_event_cb" by (simp_all add: p(4) osip_callbacks_def)
  note run = es_transport_ev_run [OF p(2,3) read refl d, of "call_transport_msg E" "call_transport_event E",
      unfolded cb option.case u(1) bind.bind_lunit load]
  show ?thesis using u(2) unfolding transport_readable_def p(1) run
    by (simp add: call_transport_event_def es_transport_event_cb_def esip_trace_eval)
qed

lemma typed_keeps: "server_ok g a c w \<Longrightarrow> keeps w w' \<Longrightarrow> typed w w'"
  using typed_grows grows_keeps server_okD(1) by blast

lemma accept_keeps:
  assumes "cli_live c s l w" and "heap_ok w"
  shows "\<exists>w'. es_evconnlistener_cb E p fd family (Some c) w = Some w' \<and> keeps w w'"
  using assms
  by (auto simp: cli_live_def es_evconnlistener_cb_def esip_trace_eval cli_cell.load_heap malloc_eval call_simps Let_def
      keeps_def heap_ok_def)

lemma accept_error_keeps:
  assumes "cli_live c s l w"
  shows "\<exists>w'. es_accept_error_cb E p (Some c) w = Some w' \<and> keeps w w'"
  using assms
  by (auto simp: cli_live_def es_accept_error_cb_def esip_trace_eval cli_cell.load_heap call_simps)

lemma thread_fire:
  assumes ok: "server_ok g a c w" and t: "heap w t = Some (C_thd th)" "thd_ctx th = Some c"
  shows "\<exists>w'. es_start_cli_thread E (Some t) w = Some w' \<and> server_ok g a c w' \<and> typed w w'"
proof -
  from ok obtain s l x where "heap w c = Some (C_cli s)" "cliCtx s = Some x" "heap w x = Some C_cli_def"
    by (auto simp: server_ok_def cli_live_def)
  then show ?thesis using t ok
    by (auto simp: es_start_cli_thread_def thd_cell.load_heap cli_cell.load_heap cli_loop_def live_cli_def_def
        call_simps esip_trace_eval cfree_def intro!: server_thread_end)
qed

lemma signal_fire:
  assumes ok: "server_ok g a c w"
  shows "\<exists>w'. signal_cb E fd what (Some g) w = Some w' \<and> server_ok g a c w' \<and> typed w w'"
proof -
  from ok obtain x b where "heap w g = Some (C_app x)" "a_base x = Some b" by (auto simp: server_ok_def app_ready_def)
  with ok show ?thesis by (simp add: signal_cb_def esip_trace_eval app_get_def app_cell.load_heap call_simps)
qed

text \<open>Every call but one of the loop returns, and every call that returns keeps the invariant.\<close>

lemma other_fire:
  assumes laws: "osip_list_laws E" "finds_live E" and ok: "server_ok g a c w" and f: "fire_ok E g a c w f" and "\<not> is_loop_fire w f"
  shows "\<exists>w'. run_fire E f w = Some w' \<and> server_ok g a c w' \<and> typed w w'"
proof (cases f)
  case (Fire_event e what)
  with assms(5) f obtain ev where ev: "heap w e = Some (C_event ev)" and
    "ev_fn ev = F_signal_cb \<and> ev_arg ev = Some g
      \<or> ev_fn ev = F_es_transport_ev \<and> what AND EV_READ \<noteq> 0 \<and> datagram_fits E (ev_fd ev) w \<and>
        (\<exists>s. heap w a = Some (C_osip s) \<and> transportCtx s = ev_arg ev)"
    by (auto simp: fire_ok_def is_loop_fire_def)
  from this(2) show ?thesis
  proof (elim disjE conjE exE)
    assume "ev_fn ev = F_signal_cb" "ev_arg ev = Some g"
    with signal_fire [OF ok] ev Fire_event show ?thesis by (simp add: run_fire_def event_cell.load_heap)
  next
    fix s assume fn: "ev_fn ev = F_es_transport_ev" and "what AND EV_READ \<noteq> 0" "datagram_fits E (ev_fd ev) w"
      "heap w a = Some (C_osip s)" "transportCtx s = ev_arg ev"
    from transport_fire [OF laws ok this(2,4,5,3)] server_grows [OF ok] typed_grows ev fn Fire_event show ?thesis
      by (auto simp: run_fire_def event_cell.load_heap)
  qed
next
  case (Fire_accept p fd family)
  from ok obtain s l where live: "cli_live c s l w" and h: "heap_ok w" by (auto simp: server_ok_def osip_ok_def)
  with f Fire_accept have "load as_listener (Some p) w = Some l" "ls_fn l = F_es_evconnlistener_cb" "ls_arg l = Some c"
    by (auto simp: fire_ok_def cli_live_def listener_cell.load_iff)
  note l = this
  have "cli_live c s l (opened fd w)" "heap_ok (opened fd w)" using live h by (simp_all add: cli_live_def heap_ok_def)
  from accept_keeps [OF this, of E "Some p" fd family] obtain w' where
    "es_evconnlistener_cb E (Some p) fd family (Some c) (opened fd w) = Some w'" "keeps (opened fd w) w'" by blast
  with server_keeps [of g a c "opened fd w"] typed_keeps [of g a c "opened fd w"] ok l Fire_accept show ?thesis by (simp add: run_fire_def)
next
  case (Fire_accept_error p)
  from ok obtain s l where live: "cli_live c s l w" by (auto simp: server_ok_def)
  with f Fire_accept_error have "load as_listener (Some p) w = Some l" "ls_arg l = Some c"
    by (auto simp: fire_ok_def cli_live_def listener_cell.load_iff)
  with accept_error_keeps [OF live, of E "Some p"] server_keeps [OF ok] typed_keeps [OF ok] Fire_accept_error show ?thesis by (auto simp: run_fire_def)
next
  case (Run_thread t)
  with f obtain th where "heap w t = Some (C_thd th)" "thd_ctx th = Some c" by (auto simp: fire_ok_def)
  from thread_fire [OF ok this] Run_thread show ?thesis by (simp add: run_fire_def)
qed

lemma run_fire_keeps:
  assumes "osip_lib E a" and "finds_live E" and "server_ok g a c w" and "fire_ok E g a c w f"
  shows "run_fire E f w = Some w' \<Longrightarrow> server_ok g a c w'" and "quiet_after E N \<or> \<not> is_loop_fire w f \<Longrightarrow> run_fire E f w \<noteq> None"
    and "run_fire E f w = Some w' \<Longrightarrow> typed w w'"
proof -
  from assms(1) have laws: "osip_list_laws E" by (simp add: osip_lib_def)
  note other = other_fire [OF laws assms(2-4)] and loop = loop_fire [OF assms(1,3,4)]
  show "run_fire E f w = Some w' \<Longrightarrow> server_ok g a c w'" "run_fire E f w = Some w' \<Longrightarrow> typed w w'"
    using other loop(1) by (cases "is_loop_fire w f", auto)
  show "quiet_after E N \<or> \<not> is_loop_fire w f \<Longrightarrow> run_fire E f w \<noteq> None" using other loop(2) by (cases "is_loop_fire w f") auto
qed

section \<open>Reachable states\<close>

inductive server_steps :: "env \<Rightarrow> ptr \<Rightarrow> ptr \<Rightarrow> ptr \<Rightarrow> world \<Rightarrow> fire list \<Rightarrow> world \<Rightarrow> bool" for E g a c where
  server_start: "server_steps E g a c w [] w"
| server_step: "server_steps E g a c w fs v \<Longrightarrow> fire_ok E g a c v f \<Longrightarrow> run_fire E f v = Some v' \<Longrightarrow>
    server_steps E g a c w (fs @ [f]) v'"

inductive_cases server_steps_NilE: "server_steps E g a c w [] w'"

lemma server_steps_ok:
  assumes "osip_lib E a" and "finds_live E"
  shows "server_steps E g a c w fs w' \<Longrightarrow> server_ok g a c w \<Longrightarrow> server_ok g a c w'"
  by (induction rule: server_steps.induct) (auto dest: run_fire_keeps(1) [OF assms])

lemma osip_lib_lists: "osip_lib E a \<Longrightarrow> osip_list_laws E"
  by (simp add: osip_lib_def)

lemma server_steps_progress:
  assumes "osip_lib E a" and "finds_live E" and "server_ok g a c w" and "server_steps E g a c w fs v"
    and f: "fire_ok E g a c v f" and "quiet_after E N \<or> \<not> is_loop_fire v f"
  shows "server_ok g a c v \<and> (\<exists>v'. run_fire E f v = Some v' \<and> server_ok g a c v')"
proof -
  have ok: "server_ok g a c v" by (rule server_steps_ok [OF assms(1,2,4,3)])
  from run_fire_keeps(2) [OF assms(1,2) ok f assms(6)] obtain v' where "run_fire E f v = Some v'" by blast
  with run_fire_keeps(1) [OF assms(1,2) ok f this] ok show ?thesis by simp
qed

lemma server_steps_typed:
  assumes "osip_lib E a" and "finds_live E"
  shows "server_steps E g a c w fs w' \<Longrightarrow> server_ok g a c w \<Longrightarrow> typed w w'"
proof (induction rule: server_steps.induct)
  case (server_step w fs v f v')
  note ok = server_step.prems
  have "server_ok g a c v" by (rule server_steps_ok [OF assms server_step.hyps(1) ok])
  from run_fire_keeps(3) [OF assms this server_step.hyps(2,3)] show ?case
    by (rule typed_trans [OF server_okD(2) [OF ok] server_step.IH [OF ok]])
qed simp

text \<open>The context in a reachable state.\<close>

lemma server_steps_context:
  assumes "osip_lib E a" and "finds_live E" and "server_ok g a c w" and "server_steps E g a c w fs v" and "load as_osip (Some a) w = Some s"
  shows "\<exists>s'. load as_osip (Some a) v = Some s' \<and> context_grows s s' \<and> (\<forall>d \<in> set (osipDialog s'). heap v d = Some C_dialog)"
proof -
  have ok: "server_ok g a c v" by (rule server_steps_ok [OF assms(1,2,4,3)])
  from server_okD(1) [OF this] obtain s' where s': "heap v a = Some (C_osip s')" "\<forall>d \<in> set (osipDialog s'). heap v d = Some C_dialog"
    by (auto elim: osip_okD)
  with server_steps_typed [OF assms(1,2,4,3)] assms(5) show ?thesis
    by (auto simp: typed_def osip_cell.load_iff)
qed

section \<open>The orderly end\<close>

text \<open>The blocks that the end of the program frees: the variable, the base with its configuration and the
  signal's event, the stack's context with libosip2's, the transport, its event and the queue, and the
  interface with libcli's context and the listener.\<close>

definition server_blocks :: "ptr \<Rightarrow> ptr \<Rightarrow> ptr \<Rightarrow> app_s \<Rightarrow> es_osip_s \<Rightarrow> es_transport_s \<Rightarrow> es_cli_s \<Rightarrow> ptr set" where
  "server_blocks g a c x s t k = {g, the (the (a_cfg x)), the (the (a_base x)), the (the (a_evsig x)),
     a, the (osip s), the (transportCtx s), the (evudpsock t)} \<union> set (pendingEv s) \<union> {c, the (cliCtx k), the (listener k)}"

lemma hidden_hidden:
  "(\<lambda>y. if y \<in> A then None else (\<lambda>y. if y \<in> B then None else h y) y) = (\<lambda>y. if y \<in> A \<union> B then None else h y)"
  "h(z := None) = (\<lambda>y. if y \<in> {z} then None else h y)"
  by (auto simp: fun_eq_iff)

lemma es_osip_stop_run:
  assumes s: "heap w a = Some (C_osip s)" "o_magic s = ES_OSIP_MAGIC" "transportCtx s = Some p"
    and t: "heap w p = Some (C_transport t)" "t_magic t = ES_TRANSPORT_MAGIC" "evudpsock t = Some e" "heap w e = Some (C_event ev)"
  shows "\<exists>w'. es_osip_stop E (Some a) w = Some (ES_OK, w') \<and> heap w' = (heap w)(e := None) \<and> brk w' = brk w \<and> fds w' = fds w"
proof -
  have "live_event (evudpsock t) w" using t by (simp add: live_event_iff)
  from es_transport_stop_returns [OF t(1,2) this, of E] obtain v where v: "es_transport_stop E (Some p) w = Some (ES_OK, v)" by blast
  from es_transport_stop_heap [OF t(1,2) v] t(3) have "heap v = (heap w)(e := None)" "brk v = brk w" "fds v = fds w" by auto
  with v s show ?thesis by (simp add: es_osip_stop_def osip_cell.load_heap)
qed

lemma main_EXIT_run:
  assumes x: "heap w g = Some (C_app x)" and cfg: "a_cfg x = Some (Some cfg)" "heap w cfg = Some C_ev_cfg"
    and b: "a_base x = Some (Some b)" "heap w b = Some C_ev_base" and ev: "a_evsig x = Some (Some e)" "heap w e = Some (C_event ev)"
  shows "\<exists>w'. main_EXIT g ret w = Some (ret, w') \<and> fds w' = fds w \<and> brk w' = brk w \<and> dlog w' = dlog w \<and>
    heap w' = (\<lambda>y. if y \<in> {g, cfg, b, e} then None else heap w y)"
proof -
  have ne: "g \<noteq> cfg" "g \<noteq> b" "g \<noteq> e" "cfg \<noteq> b" "cfg \<noteq> e" "b \<noteq> e" using assms by auto
  then show ?thesis using assms
    by (auto simp: main_EXIT_def app_get_def app_set_def app_cell.load_heap lib_free_def is_cfg_def is_base_def
        ev_free_eval live_event_iff load_def as_app_def fun_eq_iff)
qed

lemma osip_ok_same:
  assumes "osip_ok a w" and "heap w a = Some (C_osip s)" and "heap w' = (heap w)(e := None)" and "brk w' = brk w"
    and "heap w e = Some (C_event ev)" and "e \<notin> set (pendingEv s)"
  shows "osip_ok a w'"
proof -
  have "osip_ok a (drop_cell e w)" by (rule osip_ok_free [OF assms(1,2,5,6)])
  then show ?thesis using assms(3,4)
    by (simp add: osip_ok_def osip_live_def pending_ok_def heap_ok_def)
qed

text \<open>The part of the SIP stack in it; between the two calls the interface is stopped.\<close>

lemma server_osip_end:
  assumes laws: "osip_list_laws E" and ok: "server_ok g a c w"
  obtains w1 w3 s t e where "load as_osip (Some a) w = Some s" and "load as_transport (transportCtx s) w = Some t"
    and "evudpsock t = Some e" and "heap w e = Some (C_event (transport_event (the (transportCtx s)) t))"
    and "es_osip_stop E (Some a) w = Some (ES_OK, w1)" and "heap w1 = (heap w)(e := None)"
    and "es_osip_deinit E (Some a) (did k w1) = Some (ES_OK, w3)" and "fds w3 = fds w - {udp_socket t}"
    and "heap w3 = (\<lambda>y. if y \<in> {a, the (osip s), the (transportCtx s), e} \<union> set (pendingEv s) then None else heap w y)"
    and "\<And>y z. heap w y = Some z \<Longrightarrow> static_cell z \<Longrightarrow> z \<noteq> C_osip_stack \<Longrightarrow> z \<noteq> C_transport t \<Longrightarrow> y \<noteq> e \<Longrightarrow> heap w3 y = Some z"
proof -
  from ok obtain s p t e where s: "heap w a = Some (C_osip s)" "transportCtx s = Some p" "heap w p = Some (C_transport t)"
    "evudpsock t = Some e" "heap w e = Some (C_event (transport_event p t))" by (auto simp: server_ok_def transport_listens_def)
  note osip = server_okD(1) [OF ok]
  from osip s obtain o' where os: "osip_live a s t w" "pending_ok a w (pendingEv s)" "osip s = Some o'" "heap w o' = Some C_osip_stack"
    "o_magic s = ES_OSIP_MAGIC" "t_magic t = ES_TRANSPORT_MAGIC" "e \<notin> set (pendingEv s)"
    by (auto simp: osip_ok_def osip_live_def)
  from es_osip_stop_run [OF s(1) os(5) s(2,3) os(6) s(4,5), of E] obtain w1 where
    w1: "es_osip_stop E (Some a) w = Some (ES_OK, w1)" "heap w1 = (heap w)(e := None)" "brk w1 = brk w" "fds w1 = fds w" by blast
  have "osip_ok a (did k w1)" using osip_ok_same [OF osip s(1) w1(2,3) s(5) os(7)] by simp
  then obtain s' t' where t': "osip_live a s' t' (did k w1)" "heap (did k w1) a = Some (C_osip s')" "pending_ok a (did k w1) (pendingEv s')"
    by (rule osip_okD)
  have "a \<noteq> e" "p \<noteq> e" using s by auto
  with t'(2) w1(2) s(1) have "s' = s" by simp
  note t' = t'(1,3) [unfolded this]
  with w1(2) s \<open>p \<noteq> e\<close> have "t' = t" by (auto simp: osip_live_def)
  from es_osip_deinit_result [OF laws t' s(2) os(3)] this obtain w3 where
    w3: "es_osip_deinit E (Some a) (did k w1) = Some (ES_OK, w3)" "fds w3 = fds w - {udp_socket t}"
    "heap w3 = (\<lambda>y. if y \<in> {a, o', p} \<union> set (pendingEv s) then None else heap w1 y)" using w1(4) by (auto simp: fun_eq_iff)
  have heap: "heap w3 = (\<lambda>y. if y \<in> {a, o', p, e} \<union> set (pendingEv s) then None else heap w y)"
    by (auto simp: w3(3) w1(2) fun_eq_iff)
  have "y \<notin> set (pendingEv s)" if "heap w y = Some z" "static_cell z" for y z
    using os(2) that by (auto simp: pending_ok_def dest!: bspec)
  then have "heap w3 y = Some z" if "heap w y = Some z" "static_cell z" "z \<noteq> C_osip_stack" "z \<noteq> C_transport t" "y \<noteq> e" for y z
    using that s os(4) unfolding heap by auto
  then show thesis
    using s os(3) w1 w3(1,2) heap by (intro that [of s t e w1 w3]) (simp_all add: osip_cell.load_heap transport_cell.load_heap)
qed

lemma main_stop_run:
  assumes laws: "osip_list_laws E" and ok: "server_ok g a c w"
  shows "\<exists>w' x s t k l. main_stop E g w = Some (EXIT_SUCCESS, w') \<and>
    load as_app (Some g) w = Some x \<and> load as_osip (Some a) w = Some s \<and> load as_transport (transportCtx s) w = Some t \<and>
    load as_cli (Some c) w = Some k \<and> load as_listener (listener k) w = Some l \<and> fds w' = fds w - {udp_socket t, ls_fd l} \<and>
    heap w' = (\<lambda>y. if y \<in> server_blocks g a c x s t k then None else heap w y)"
proof -
  from ok obtain x cfg b ev where x: "heap w g = Some (C_app x)" "a_osipCtx x = Some (Some a)" "a_cliCtx x = Some (Some c)"
     "a_cfg x = Some (Some cfg)" "heap w cfg = Some C_ev_cfg" "a_base x = Some (Some b)" "heap w b = Some C_ev_base"
     "a_evsig x = Some (Some ev)" "heap w ev = Some (C_event (signal_event (Some b) g))"
    by (auto simp: server_ok_def app_ready_def)
  from ok obtain k l where k: "cli_live c k l w" by (auto simp: server_ok_def)
  then obtain d q where kc: "heap w c = Some (C_cli k)" "cliCtx k = Some d" "heap w d = Some C_cli_def"
    "listener k = Some q" "heap w q = Some (C_listener l)" by (auto simp: cli_live_def)
  obtain w1 w3 s t e where loads: "load as_osip (Some a) w = Some s" "load as_transport (transportCtx s) w = Some t" "evudpsock t = Some e"
    and e: "heap w e = Some (C_event (transport_event (the (transportCtx s)) t))"
    and w1: "es_osip_stop E (Some a) w = Some (ES_OK, w1)" "heap w1 = (heap w)(e := None)"
    and w3: "es_osip_deinit E (Some a) (did (Lev (Evl_disable (listener k))) w1) = Some (ES_OK, w3)" "fds w3 = fds w - {udp_socket t}"
      "heap w3 = (\<lambda>y. if y \<in> {a, the (osip s), the (transportCtx s), e} \<union> set (pendingEv s) then None else heap w y)"
    and kept: "\<And>y z. heap w y = Some z \<Longrightarrow> static_cell z \<Longrightarrow> z \<noteq> C_osip_stack \<Longrightarrow> z \<noteq> C_transport t \<Longrightarrow> y \<noteq> e \<Longrightarrow> heap w3 y = Some z"
    by (rule server_osip_end [OF laws ok]) (rule that)
  have k1: "cli_live c k l w1" using k kc e w1(2) by (auto simp: cli_live_def)
  note w2 = es_cli_stop_run [OF k1, of E]
  have k3: "cli_live c k l w3" using k kc e by (auto simp: cli_live_def intro!: kept)
  from es_cli_deinit_heap [OF k3, of E] obtain w4 where w4: "es_cli_deinit E (Some c) w3 = Some (ES_OK, w4)"
    "fds w4 = fds w3 - {ls_fd l}" "heap w4 = (heap w3)(d := None, q := None, c := None)" by (auto simp: kc)
  have "transport_event (the (transportCtx s)) t \<noteq> signal_event (Some b) g" by (simp add: transport_event_def signal_event_def)
  with e x(9) have "ev \<noteq> e" by auto
  then have x4: "heap w4 g = Some (C_app x)" "heap w4 cfg = Some C_ev_cfg" "heap w4 b = Some C_ev_base" "heap w4 ev = Some (C_event (signal_event (Some b) g))"
    using x kc e by (auto simp: w4(3) intro!: kept)
  from main_EXIT_run [OF x4(1) x(4) x4(2) x(6) x4(3) x(8) x4(4), of EXIT_SUCCESS] obtain w5 where
    w5: "main_EXIT g EXIT_SUCCESS w4 = Some (EXIT_SUCCESS, w5)" "fds w5 = fds w4"
    "heap w5 = (\<lambda>y. if y \<in> {g, cfg, b, ev} then None else heap w4 y)" by blast
  have "main_stop E g w = Some (EXIT_SUCCESS, w5)"
    using w1(1) w2 w3(1) w4(1) w5(1) x(2,3)
    by (simp add: main_stop_def app_get_def app_cell.load_heap [OF x(1)])
  moreover have "server_blocks g a c x s t k = {g, cfg, b, ev} \<union> ({c} \<union> ({q} \<union> ({d} \<union> ({a, the (osip s), the (transportCtx s), e} \<union> set (pendingEv s)))))"
    by (simp add: server_blocks_def x loads(3) kc insert_commute)
  then have "heap w5 = (\<lambda>y. if y \<in> server_blocks g a c x s t k then None else heap w y)"
    unfolding w5(3) w4(3) w3(3) hidden_hidden by simp
  moreover have "fds w5 = fds w - {udp_socket t, ls_fd l}" by (auto simp: w5 w4 w3)
  ultimately show ?thesis using x(1) kc loads(1,2)
    by (intro exI [of _ w5] exI [of _ x] exI [of _ s] exI [of _ t] exI [of _ k] exI [of _ l])
       (simp add: listener_cell.load_heap app_cell.load_heap cli_cell.load_heap)
qed

end
