(* ===== verification/Es_Run.thy ===== *)
theory Es_Run
  imports Es_Server
begin

text \<open>
  Whole runs of \<^verbatim>\<open>main\<close>: from the command line through the initialisation of the parts to the
  loop and the end, on every path. \<open>n\<close> is the address of the variable \<^verbatim>\<open>ctx\<close>; the blocks that the
  initialisation makes follow it.
\<close>

section \<open>Runs without a failure\<close>

text \<open>No call of a library fails.\<close>

definition all_succeed :: "env \<Rightarrow> bool" where
  "all_succeed E \<longleftrightarrow> (\<forall>v c. e_ok E v c) \<and> (\<forall>v ty. 0 \<le> e_int E v (Libc (L_socket ty))) \<and>
     (\<forall>v fd a. e_int E v (Libc (L_bind fd a)) = 0) \<and> (\<forall>v c. e_int E v (Osip c) = 0) \<and>
     (\<forall>v p. e_int E v (Lev (Ev_add p)) = 0) \<and>
     (\<forall>v p n. e_int E v (Lev (Ev_priority_set p n)) = 0) \<and> (\<forall>v b. e_int E v (Lev (Ev_base_dispatch b)) = 0)"

lemma all_succeedD:
  assumes "all_succeed E"
  shows "e_ok E v c" "\<not> e_int E v (Libc (L_socket ty)) < 0" "e_int E v (Libc (L_socket ty)) \<noteq> - 1" "e_int E v (Libc (L_bind fd a)) = 0" "e_int E v (Osip oc) = 0"
    "e_int E v (Lev (Ev_add p)) = 0" "e_int E v (Lev (Ev_base_dispatch b)) = 0"
    "e_int E v (Lev (Ev_priority_set p n)) = 0"
proof -
  have n: "0 \<le> e_int E v (Libc (L_socket ty))" using assms by (simp add: all_succeed_def)
  then show "\<not> e_int E v (Libc (L_socket ty)) < 0" "e_int E v (Libc (L_socket ty)) \<noteq> - 1" by linarith+
qed (use assms in \<open>simp_all add: all_succeed_def\<close>)

lemma es_osip_init_succeeds:
  assumes "all_succeed E" and "heap_ok w"
  shows "\<exists>p w'. es_osip_init E (Some b) w = Some ((ES_OK, p), w')"
  using all_succeedD [OF assms(1)]
  by (simp add: es_osip_init_def es_transport_init_def es_transport_set_callbacks_def osip_init_stack_def
      es_osip_set_internal_callbacks_def malloc_eval ext_new_def ext_new_st_def sys_socket_def call_simps esip_trace_eval load_def
      as_transport_def as_osip_def Let_def bind_if)

lemma es_cli_init_succeeds:
  assumes "all_succeed E" and "heap_ok w"
  shows "\<exists>p w'. es_cli_init E (Some b) w = Some ((ES_OK, p), w')"
  using all_succeedD [OF assms(1)]
  by (simp add: es_cli_init_def cli_init_listener_def cli_configure_def malloc_eval ext_new_def call_simps esip_trace_eval
      sys_socket_def evl_new_bind_def evl_do_def load_def as_listener_def Let_def bind_if)

lemma es_transport_start_succeeds:
  assumes "all_succeed E" and "heap w a = Some (C_transport t)" and "t_magic t = ES_TRANSPORT_MAGIC" and "a < brk w"
  shows "\<exists>w'. es_transport_start E (Some a) w = Some (ES_OK, w')"
  using assms(2-) all_succeedD [OF assms(1)]
  by (simp add: es_transport_start_def es_bind_socket_def transport_cell.load_heap esip_trace_eval call_simps ev_new_def ext_new_def
      ev_priority_set_def ev_add_def live_event_iff Let_def bind_if)

section \<open>States on the way\<close>

definition app_of :: "ptr \<Rightarrow> cptr option \<Rightarrow> cptr option \<Rightarrow> app_s" where
  "app_of n p q = \<lparr>a_cfg = Some (Some (n + 1)), a_base = Some (Some (n + 2)), a_evsig = Some (Some (n + 3)),
     a_logger = None, a_osipCtx = p, a_cliCtx = q\<rparr>"

lemma app_of_simps [simp]:
  "a_cfg (app_of n p q) = Some (Some (n + 1))" "a_base (app_of n p q) = Some (Some (n + 2))"
  "a_evsig (app_of n p q) = Some (Some (n + 3))" "a_osipCtx (app_of n p q) = p" "a_cliCtx (app_of n p q) = q"
  "(app_of n p q)\<lparr>a_osipCtx := p'\<rparr> = app_of n p' q" "(app_of n p q)\<lparr>a_cliCtx := q'\<rparr> = app_of n p q'"
  by (simp_all add: app_of_def)

text \<open>The base, its configuration and the event of the signal are there.\<close>

definition base_cells :: "ptr \<Rightarrow> cptr option \<Rightarrow> cptr option \<Rightarrow> world \<Rightarrow> bool" where
  "base_cells n p q w \<longleftrightarrow> heap w n = Some (C_app (app_of n p q)) \<and> heap w (n + 1) = Some C_ev_cfg \<and>
     heap w (n + 2) = Some C_ev_base \<and> heap w (n + 3) = Some (C_event (signal_event (Some (n + 2)) n))"

lemma base_cells_steps [simp]:
  "base_cells n p q (did k w) = base_cells n p q w" "base_cells n p q (wrote t w) = base_cells n p q w"
  by (simp_all add: base_cells_def)

lemma main_EXIT_cells:
  assumes "base_cells n p q w"
  shows "\<exists>w'. main_EXIT n ret w = Some (ret, w') \<and> fds w' = fds w \<and> brk w' = brk w \<and> dlog w' = dlog w \<and>
    heap w' = (\<lambda>y. if y \<in> {n, n + 1, n + 2, n + 3} then None else heap w y)"
  using main_EXIT_run [where w = w and g = n and ret = ret and x = "app_of n p q" and cfg = "n + 1" and b = "n + 2" and e = "n + 3"]
    assms by (simp add: base_cells_def)

text \<open>What a failed run of \<^verbatim>\<open>main\<close> is from a state with the base in place: some call has failed.\<close>

definition failed :: "env \<Rightarrow> ptr \<Rightarrow> int run \<Rightarrow> bool" where
  "failed E n r \<longleftrightarrow> \<not> all_succeed E \<and> (\<exists>w'. r = Some (EXIT_FAILURE, w') \<and> (\<forall>y \<in> {n, n + 1, n + 2, n + 3}. heap w' y = None))"

lemma main_ERROR_EXIT_failed:
  assumes "base_cells n p q w" and "\<not> all_succeed E"
  shows "failed E n (main_ERROR_EXIT E n w)"
proof -
  have "base_cells n p q (wrote (trace_text E w ESIP_LOG_EMERG ''main'' 205) w)" using assms(1) by simp
  from main_EXIT_cells [OF this] obtain w' where
    "main_EXIT n EXIT_FAILURE (wrote (trace_text E w ESIP_LOG_EMERG ''main'' 205) w) = Some (EXIT_FAILURE, w')"
    "heap w' = (\<lambda>y. if y \<in> {n, n + 1, n + 2, n + 3} then None
       else heap (wrote (trace_text E w ESIP_LOG_EMERG ''main'' 205) w) y)" by blast
  with assms(2) show ?thesis by (simp add: failed_def main_ERROR_EXIT_def esip_trace_eval)
qed

definition inited_heap :: "world \<Rightarrow> ptr \<Rightarrow> int \<Rightarrow> int \<Rightarrow> ptr \<rightharpoonup> cell" where
  "inited_heap w n fd lfd = (heap w)(n \<mapsto> C_app (app_of n (Some (Some (n + 4))) (Some (Some (n + 7)))), n + 1 \<mapsto> C_ev_cfg,
     n + 2 \<mapsto> C_ev_base, n + 3 \<mapsto> C_event (signal_event (Some (n + 2)) n),
     n + 4 \<mapsto> C_osip (new_osip (n + 4) (Some (n + 2)) (n + 5) (n + 6)),
     n + 5 \<mapsto> C_transport (new_transport (n + 4) (Some (n + 2)) fd), n + 6 \<mapsto> C_osip_stack,
     n + 7 \<mapsto> C_cli (new_cli (Some (n + 2)) (n + 7)), n + 8 \<mapsto> C_cli_def, n + 9 \<mapsto> C_listener (new_listener (n + 7) lfd))"

text \<open>After all initialisations: \<open>fd\<close> is the socket of the transport, \<open>lfd\<close> that of the listener.\<close>

definition inited :: "world \<Rightarrow> ptr \<Rightarrow> int \<Rightarrow> int \<Rightarrow> world \<Rightarrow> bool" where
  "inited w n fd lfd v \<longleftrightarrow> heap v = inited_heap w n fd lfd \<and> brk v = n + 10 \<and> dlog v = dlog w \<and>
     (\<exists>sfd. fds v = insert lfd (insert sfd (insert fd (fds w))))"

text \<open>And with the transport listening.\<close>

definition started :: "world \<Rightarrow> ptr \<Rightarrow> int \<Rightarrow> int \<Rightarrow> world \<Rightarrow> bool" where
  "started w n fd lfd v \<longleftrightarrow> brk v = n + 11 \<and> dlog v = dlog w \<and> (\<exists>sfd. fds v = insert lfd (insert sfd (insert fd (fds w)))) \<and>
     heap v = (inited_heap w n fd lfd)
       (n + 5 \<mapsto> C_transport (new_transport (n + 4) (Some (n + 2)) fd\<lparr>evudpsock := Some (n + 10)\<rparr>),
        n + 10 \<mapsto> C_event (transport_event (n + 5) (new_transport (n + 4) (Some (n + 2)) fd)))"

lemma inited_cells:
  assumes "inited w n fd lfd v"
  shows "base_cells n (Some (Some (n + 4))) (Some (Some (n + 7))) v"
    and "cli_live (n + 7) (new_cli (Some (n + 2)) (n + 7)) (new_listener (n + 7) lfd) v"
    and "heap v (n + 4) = Some (C_osip (new_osip (n + 4) (Some (n + 2)) (n + 5) (n + 6)))"
    and "heap v (n + 5) = Some (C_transport (new_transport (n + 4) (Some (n + 2)) fd))"
  using assms new_listener_closes
  by (simp_all add: inited_def inited_heap_def base_cells_def cli_live_def new_cli_def) (simp add: new_listener_def)

lemma started_server:
  assumes "heap_ok w" and "n = brk w" and v: "started w n fd lfd v"
  shows "server_ok n (n + 4) (n + 7) v"
proof -
  let ?t = "new_transport (n + 4) (Some (n + 2)) fd\<lparr>evudpsock := Some (n + 10)\<rparr>"
  let ?s = "new_osip (n + 4) (Some (n + 2)) (n + 5) (n + 6)"
  from v have h: "heap v (n + 4) = Some (C_osip ?s)" "heap v (n + 5) = Some (C_transport ?t)" "heap v (n + 6) = Some C_osip_stack"
    "heap v (n + 10) = Some (C_event (transport_event (n + 5) ?t))" "brk v = n + 11" and cells: "base_cells n (Some (Some (n + 4))) (Some (Some (n + 7))) v"
    by (simp_all add: started_def inited_heap_def base_cells_def transport_event_def)
  have "heap_ok v" using assms by (auto simp: started_def inited_heap_def heap_ok_def)
  with h have "osip_ok (n + 4) v"
    unfolding osip_ok_def osip_live_def
    by (intro conjI exI [of _ ?s] exI [of _ ?t]) (simp_all add: new_osip_def new_transport_def zero_transport_def pending_ok_def)
  moreover have "transport_listens (n + 4) v"
    unfolding transport_listens_def using h
    by (intro exI [of _ ?s] exI [of _ "n + 5"] exI [of _ ?t] exI [of _ "n + 10"]) (simp add: new_osip_def)
  moreover have "cli_live (n + 7) (new_cli (Some (n + 2)) (n + 7)) (new_listener (n + 7) lfd) v"
    using v new_listener_closes by (simp add: started_def inited_heap_def cli_live_def new_cli_def) (simp add: new_listener_def)
  moreover have "app_ready n (n + 4) (n + 7) v" using cells by (simp add: app_ready_def base_cells_def)
  ultimately show ?thesis by (auto simp: server_ok_def)
qed

section \<open>The stages\<close>

lemma cli_inited_OK:
  assumes "cli_inited w base ES_OK p w'"
  shows "p = Some (brk w) \<and> brk w' = brk w + 3 \<and> dlog w' = dlog w \<and> (\<exists>sfd lfd. fds w' = insert lfd (insert sfd (fds w)) \<and>
     heap w' = (heap w)(brk w \<mapsto> C_cli (new_cli base (brk w)), brk w + 1 \<mapsto> C_cli_def,
             brk w + 2 \<mapsto> C_listener (new_listener (brk w) lfd)))"
  using assms by (auto simp: cli_inited_def)

lemma cli_init_listener_defined:
  assumes "heap v a = Some (C_cli s)" and "heap_ok v"
  shows "cli_init_listener E s a v \<noteq> None"
  using assms heap_ok_live [OF assms(2,1)]
  by (auto simp: cli_init_listener_def sys_socket_def evl_new_bind_def ext_new_def esip_trace_eval cfree_def sys_close_def
      evl_do_def listener_cell.load_heap call_simps Let_def)

lemma es_cli_init_defined:
  assumes ok: "heap_ok w"
  shows "es_cli_init E base w \<noteq> None"
proof -
  let ?s = "zero_cli\<lparr>c_magic := ES_CLI_MAGIC, c_base := base, cliCtx := Some (Suc (brk w))\<rparr>"
  have listen: "\<exists>st q u. Option.bind (cli_configure p v) (cli_init_listener E ?s (brk w)) = Some ((st, q), u)"
    if "heap v (brk w) = Some (C_cli ?s)" "heap_ok v" for v p
  proof -
    obtain u where u: "cli_configure p v = Some u" using cli_configure_defined by blast
    with cli_configureD [OF u] that have "heap u (brk w) = Some (C_cli ?s)" "heap_ok u" by (simp_all add: heap_ok_def)
    from cli_init_listener_defined [OF this, of E] u show ?thesis by auto
  qed
  show ?thesis
    using ok by (simp add: es_cli_init_def malloc_eval ext_new_def esip_trace_eval cfree_def Let_def listen heap_ok_def split: option.split)
qed

definition prepared :: "world \<Rightarrow> ptr \<Rightarrow> world \<Rightarrow> bool" where
  "prepared w n v \<longleftrightarrow> heap v = (heap w)(n \<mapsto> C_app (app_of n None None), n + 1 \<mapsto> C_ev_cfg, n + 2 \<mapsto> C_ev_base,
       n + 3 \<mapsto> C_event (signal_event (Some (n + 2)) n)) \<and> brk v = n + 4 \<and> dlog v = dlog w \<and> fds v = fds w"

lemma prepared_steps: "prepared w n (did k v) = prepared w n v" "prepared w n (wrote t v) = prepared w n v"
  by (simp_all add: prepared_def)

lemma prepared_cells: "prepared w n v \<Longrightarrow> base_cells n None None v"
  by (simp add: prepared_def base_cells_def)

text \<open>The three objects of libevent without which the behaviour of \<^verbatim>\<open>main\<close> is undefined.\<close>

definition base_available :: "env \<Rightarrow> bool" where
  "base_available E \<longleftrightarrow> (\<forall>v. e_ok E v (Lev Ev_config_new) \<and> (\<forall>p. e_ok E v (Lev (Ev_base_new p))) \<and>
     (\<forall>b fl p. e_ok E v (Lev (Ev_new b SIGINT fl F_signal_cb p))))"

lemma app_set_run: "heap w n = Some (C_app x) \<Longrightarrow> app_set n f w = Some (put n (C_app (f x)) w)"
  by (simp add: app_set_def app_cell.load_heap)

lemma app_get_run: "heap w n = Some (C_app x) \<Longrightarrow> app_get (Some n) sel w = sel x"
  by (simp add: app_get_def app_cell.load_heap)

lemma obj_int_run: "heap w p = Some x \<Longrightarrow> is x \<Longrightarrow> obj_int E is c (Some p) w = Some (e_int E w (Lev (c (Some p))), did (Lev (c (Some p))) w)"
  by (simp add: obj_int_def call_simps)

lemma is_base_simps [simp]: "is_base C_ev_base" "is_cfg C_ev_cfg"
  by (simp_all add: is_base_def is_cfg_def)

text \<open>A trace on an error changes only the text.\<close>

lemma bind_maybe_trace:
  "Option.bind (if b then esip_trace E ESIP_LOG_ERROR f line w else Some w) k =
     k (wrote (if b then trace_text E w ESIP_LOG_ERROR f line else []) w)"
  by (simp add: esip_trace_eval wrote_def)

lemma main_signal_run:
  assumes ok: "base_available E" and w: "heap_ok w" "n = brk w"
    and v: "heap v = (heap w)(n \<mapsto> C_app ((app_of n None None)\<lparr>a_evsig := None\<rparr>), n + 1 \<mapsto> C_ev_cfg, n + 2 \<mapsto> C_ev_base)"
      "brk v = n + 3" "dlog v = dlog w" "fds v = fds w"
  shows "failed E n (main_signal E n v) \<or> (\<exists>u. prepared w n u \<and> main_signal E n v = main_init E n u)"
proof -
  let ?c = "Lev (Ev_new (Some (n + 2)) SIGINT (EV_SIGNAL OR EV_PERSIST) F_signal_cb (Some n))"
  let ?v = "put n (C_app (app_of n None None)) (new_cell (C_event (signal_event (Some (n + 2)) n)) (did ?c v))"
  have c: "e_ok E v ?c" using ok by (simp add: base_available_def)
  have app: "heap v n = Some (C_app ((app_of n None None)\<lparr>a_evsig := None\<rparr>))" by (simp add: v)
  have "(app_of n None None)\<lparr>a_evsig := Some (Some (n + 3))\<rparr> = app_of n None None" by (simp add: app_of_def)
  note run = this c app_get_run [OF app] v(2)
  have set: "prepared w n ?v" by (simp add: prepared_def v fun_upd_twist)
  from prepared_cells [OF this] have cells: "base_cells n None None ?v" .
  have "main_signal E n v = (if e_int E ?v (Lev (Ev_add (Some (n + 3)))) \<noteq> 0
      then main_ERROR_EXIT E n (wrote (trace_text E (did (Lev (Ev_add (Some (n + 3)))) ?v) ESIP_LOG_ERROR ''main'' 164) (did (Lev (Ev_add (Some (n + 3)))) ?v))
      else main_init E n (did (Lev (Ev_add (Some (n + 3)))) ?v))"
    using c v(2) app
    by (simp add: main_signal_def app_get_run [OF app] ev_new_def signal_event_def ext_new_def app_set_def load_def as_app_def
        ev_add_def live_event_iff call_simps esip_trace_eval run(1))
  moreover have "failed E n (main_ERROR_EXIT E n (wrote z (did k ?v)))" if "\<not> all_succeed E" for z k
    by (rule main_ERROR_EXIT_failed [where p = None and q = None, OF _ that]) (simp only: base_cells_steps cells)
  moreover have "e_int E u (Lev (Ev_add e)) = 0" if "all_succeed E" for u e using all_succeedD(6) [OF that] .
  moreover have "prepared w n (did k ?v)" for k using set by (simp only: prepared_steps)
  ultimately show ?thesis by metis
qed

lemma main_base_run:
  assumes ok: "base_available E" and w: "heap_ok w" "n = brk w"
    and v: "heap v = (heap w)(n \<mapsto> C_app uninitialised)" "brk v = n + 1" "dlog v = dlog w" "fds v = fds w"
  shows "failed E n (main_base E n v) \<or> (\<exists>u. prepared w n u \<and> main_base E n v = main_init E n u)"
proof -
  let ?x1 = "uninitialised\<lparr>a_cfg := Some (Some (n + 1))\<rparr>" and ?x2 = "(app_of n None None)\<lparr>a_evsig := None\<rparr>"
  have x2: "?x1\<lparr>a_base := Some (Some (n + 2))\<rparr> = ?x2" by (simp add: uninitialised_def app_of_def)
  have e_ok: "e_ok E u (Lev Ev_config_new)" "e_ok E u (Lev (Ev_base_new p))" for u p
    using ok by (simp_all add: base_available_def)
  have "\<exists>u. main_base E n v = main_signal E n u \<and> brk u = n + 3 \<and> dlog u = dlog w \<and> fds u = fds w \<and>
      heap u = (heap w)(n \<mapsto> C_app ?x2, n + 1 \<mapsto> C_ev_cfg, n + 2 \<mapsto> C_ev_base)"
    unfolding main_base_def
    apply (simp add: call_simps ext_new_def e_ok v(2) app_set_run [where x = uninitialised] app_set_run [where x = ?x1]
        obj_int_run [where x = C_ev_cfg] obj_int_run [where x = C_ev_base] v(1) bind_maybe_trace del: ESIP_LOG_ERROR_def split del: if_split)
    apply (rule exI, rule conjI, rule refl)
    apply (use x2 in \<open>simp add: v fun_upd_twist\<close>)
    done
  then obtain u where u: "main_base E n v = main_signal E n u" "brk u = n + 3" "dlog u = dlog w" "fds u = fds w"
      "heap u = (heap w)(n \<mapsto> C_app ?x2, n + 1 \<mapsto> C_ev_cfg, n + 2 \<mapsto> C_ev_base)" by blast
  show ?thesis unfolding u(1) by (rule main_signal_run [OF ok w u(5,2,3,4)])
qed

lemma base_cells_same:
  assumes "base_cells n p q v" and "\<And>y. y < n + 4 \<Longrightarrow> heap u y = heap v y"
  shows "base_cells n p q u"
  using assms by (simp add: base_cells_def)

lemma main_error:
  assumes "base_cells n p q v" and "unat l < 8" and "\<not> all_succeed E"
  shows "failed E n (do { w \<leftarrow> esip_trace E l f line v; main_ERROR_EXIT E n w })"
proof -
  have "base_cells n p q (wrote t v)" for t using assms(1) by simp
  from main_ERROR_EXIT_failed [OF this assms(3)] show ?thesis using assms(2) by (simp add: esip_trace_eval)
qed

text \<open>The second half of the initialisation, when the SIP stack is there, as a function of its own for the proof.\<close>

definition main_init_cli :: "env \<Rightarrow> ptr \<Rightarrow> world \<Rightarrow> int run" where
  "main_init_cli E n v = do {
     ((st, q), w) \<leftarrow> es_cli_init E (Some (n + 2)) v;
     if st \<noteq> ES_OK then do { w \<leftarrow> esip_trace E ESIP_LOG_ERROR ''main'' 176 w; main_ERROR_EXIT E n w }
     else do { w \<leftarrow> app_set n (\<lambda>s. s\<lparr>a_cliCtx := Some q\<rparr>) w; main_start E n w } }"

lemma main_init_cli_run:
  assumes n: "n = brk w" and v: "prepared w n v" and ok1: "heap_ok v1" and cells: "base_cells n (Some (Some (n + 4))) None v1"
    and v1: "brk v1 = n + 7" "fds v1 = insert fd (fds v)" "dlog v1 = dlog v"
      "heap v1 = (heap v)(n + 4 \<mapsto> C_osip (new_osip (n + 4) (Some (n + 2)) (n + 5) (n + 6)),
         n + 5 \<mapsto> C_transport (new_transport (n + 4) (Some (n + 2)) fd), n + 6 \<mapsto> C_osip_stack,
         n \<mapsto> C_app (app_of n (Some (Some (n + 4))) None))"
  shows "failed E n (main_init_cli E n v1) \<or> (\<exists>fd lfd u. inited w n fd lfd u \<and> main_init_cli E n v1 = main_start E n u)"
proof -
  let ?b = "Some (n + 2)"
  obtain st q v2 where run: "es_cli_init E ?b v1 = Some ((st, q), v2)"
    using es_cli_init_defined [OF ok1, of E ?b] by (metis not_None_eq surj_pair)
  note res0 = es_cli_init_result [OF ok1 run]
  note res = res0 [unfolded v1(1)]
  have step: "main_init_cli E n v1 = (if st \<noteq> ES_OK then do { w \<leftarrow> esip_trace E ESIP_LOG_ERROR ''main'' 176 v2; main_ERROR_EXIT E n w }
      else do { w \<leftarrow> app_set n (\<lambda>s. s\<lparr>a_cliCtx := Some q\<rparr>) v2; main_start E n w })"
    unfolding main_init_cli_def run by simp
  show ?thesis
  proof (cases "st = ES_OK")
    case False
    then have "heap v2 y = heap v1 y" if "y < n + 4" for y
      using that res unfolding cli_inited_def by (elim conjE disjE exE) (simp_all add: v1(1))
    moreover have "\<not> all_succeed E" using es_cli_init_succeeds [OF _ ok1, of E "n + 2"] run False by auto
    ultimately show ?thesis using main_error [OF base_cells_same [OF cells], of v2 ESIP_LOG_ERROR E] False
      unfolding step by simp
  next
    case True
    have plus: "n + 7 + 1 = n + 8" "n + 7 + 2 = n + 9" "n + 7 + 3 = n + 10" by simp_all
    from cli_inited_OK [OF res0 [unfolded True], unfolded v1(1) plus] obtain sfd lfd where q: "q = Some (n + 7)"
      and v2: "brk v2 = n + 10" "fds v2 = insert lfd (insert sfd (fds v1))" "dlog v2 = dlog v1"
      "heap v2 = (heap v1)(n + 7 \<mapsto> C_cli (new_cli ?b (n + 7)), n + 8 \<mapsto> C_cli_def, n + 9 \<mapsto> C_listener (new_listener (n + 7) lfd))"
      by auto
    have app: "heap v2 n = Some (C_app (app_of n (Some (Some (n + 4))) None))" by (simp add: v2 v1)
    have "inited w n fd lfd (put n (C_app (app_of n (Some (Some (n + 4))) (Some q))) v2)"
      using v v2(1-3) v1(2,3) unfolding inited_def by (auto simp: v2(4) v1(4) prepared_def inited_heap_def q fun_eq_iff)
    with True show ?thesis unfolding step by (auto simp: app_set_run [OF app])
  qed
qed

lemma main_init_run:
  assumes w: "heap_ok w" "n = brk w" and v: "prepared w n v"
  shows "failed E n (main_init E n v) \<or> (\<exists>fd lfd u. inited w n fd lfd u \<and> main_init E n v = main_start E n u)"
proof -
  let ?b = "Some (n + 2)"
  have okv: "heap_ok v" using v w by (auto simp: prepared_def heap_ok_def)
  have brk: "brk v = n + 4" using v by (simp add: prepared_def)
  note cells = prepared_cells [OF v]
  then have app: "heap v n = Some (C_app (app_of n None None))" by (simp add: base_cells_def)
  from es_osip_init_result [OF okv, of E ?b] obtain st p v1 where
    run1: "es_osip_init E ?b v = Some ((st, p), v1)" "dlog v1 = dlog v" and
    res1: "st = ES_OK \<and> p = Some (n + 4) \<and> init_done E v ?b v1 \<or> p = None \<and> init_failed v ?b st v1"
    unfolding brk by blast
  show ?thesis
  proof (cases "st = ES_OK")
    case False
    with res1 have "init_failed v ?b st v1" by auto
    then have "heap v1 y = heap v y" if "y < n + 4" for y
      using that unfolding init_failed_def brk by auto
    moreover have "\<not> all_succeed E" using es_osip_init_succeeds [OF _ okv, of E "n + 2"] run1 False by auto
    ultimately show ?thesis using main_error [OF base_cells_same [OF cells], of v1 ESIP_LOG_ERROR E] False run1 by (simp add: main_init_def app_get_run [OF app])
  next
    case True
    with res1 have p: "p = Some (n + 4)" and "init_done E v ?b v1" by (auto simp: init_failed_def)
    then obtain fd where v1: "brk v1 = n + 7" "fds v1 = insert fd (fds v)"
      "heap v1 = (heap v)(n + 4 \<mapsto> C_osip (new_osip (n + 4) ?b (n + 5) (n + 6)), n + 5 \<mapsto> C_transport (new_transport (n + 4) ?b fd),
         n + 6 \<mapsto> C_osip_stack)"
      by (auto simp: init_done_def brk numeral_eq_Suc)
    let ?v1 = "put n (C_app (app_of n (Some p) None)) v1"
    have "heap v1 n = Some (C_app (app_of n None None))" using app by (simp add: v1)
    then have "main_init E n v = main_init_cli E n ?v1"
      using run1(1) True by (simp add: main_init_def main_init_cli_def app_get_run [OF app] app_set_run)
    moreover have "heap_ok ?v1" using okv by (auto simp: heap_ok_def v1 brk)
    moreover have "base_cells n (Some p) None ?v1" using cells by (simp add: base_cells_def v1)
    ultimately show ?thesis
      using main_init_cli_run [OF w(2) v, of ?v1 fd E] v1 run1(2) by (simp add: p)
  qed
qed

lemma es_transport_start_defined:
  assumes "heap w a = Some (C_transport t)" and "t_magic t = ES_TRANSPORT_MAGIC" and "a < brk w"
  shows "es_transport_start E (Some a) w \<noteq> None"
  using assms
  by (simp add: es_transport_start_def es_bind_socket_def transport_cell.load_heap esip_trace_eval call_simps ev_new_def ext_new_def
      ev_priority_set_def ev_add_def live_event_iff Let_def bind_if)

lemma main_start_run:
  assumes w: "heap_ok w" "n = brk w" and v: "inited w n fd lfd v"
  shows "failed E n (main_start E n v) \<or> (\<exists>u. started w n fd lfd u \<and> main_start E n v = main_loop E n u)"
proof -
  let ?k = "new_cli (Some (n + 2)) (n + 7)" and ?s = "new_osip (n + 4) (Some (n + 2)) (n + 5) (n + 6)"
    and ?t = "new_transport (n + 4) (Some (n + 2)) fd"
  note cells = inited_cells [OF v]
  have app: "heap v n = Some (C_app (app_of n (Some (Some (n + 4))) (Some (Some (n + 7)))))" using cells(1) by (simp add: base_cells_def)
  define v1 where "v1 = did (Lev (Evl_enable (listener ?k))) (wrote (trace_text E v 6 ''es_cli_start'' 327) v)"
  have start: "es_cli_start E (Some (n + 7)) v = Some (ES_OK, v1)" unfolding v1_def by (rule es_cli_start_run [OF cells(2)])
  have v1: "inited w n fd lfd v1" using v by (simp add: v1_def inited_def)
  note cells1 = inited_cells [OF v1]
  have app1: "heap v1 n = Some (C_app (app_of n (Some (Some (n + 4))) (Some (Some (n + 7)))))" using cells1(1) by (simp add: base_cells_def)
  have t: "t_magic ?t = ES_TRANSPORT_MAGIC" by (simp add: new_transport_def)
  have lt: "n + 5 < brk v1" using v1 by (simp add: inited_def)
  from es_transport_start_defined [OF cells1(4) t lt, of E] obtain st u where
    run: "es_transport_start E (Some (n + 5)) v1 = Some (st, u)" by auto
  note res = es_transport_start_heap [OF cells1(4) t lt run]
  have split: "main_start E n v = (if st \<noteq> ES_OK
      then do { w \<leftarrow> esip_trace E ESIP_LOG_ERROR ''es_osip_start'' 193 u; w \<leftarrow> esip_trace E ESIP_LOG_ERROR ''main'' 186 w; main_ERROR_EXIT E n w }
      else main_loop E n u)"
    using start run cells1(3) app app1
    by (simp add: main_start_def app_get_run [OF app] app_get_run [OF app1] es_osip_start_def osip_cell.load_heap new_osip_def esip_trace_eval)
  show ?thesis
  proof (cases "st = ES_OK")
    case False
    from res lt v1 have "heap u y = heap v1 y" if "y < n + 4" for y
      using that by (elim conjE disjE) (simp_all add: inited_def)
    note cells2 = base_cells_same [OF cells1(1) this]
    then have "base_cells n (Some (Some (n + 4))) (Some (Some (n + 7))) (wrote z u)" for z by simp
    note fails = main_error [OF this, of ESIP_LOG_ERROR E]
    have "\<not> all_succeed E" using es_transport_start_succeeds [OF _ cells1(4) t lt, of E] run False by auto
    with fails False show ?thesis unfolding split by (simp add: esip_trace_eval)
  next
    case True
    with res have "started w n fd lfd u" using v1 by (auto simp: started_def inited_def)
    with True show ?thesis unfolding split by auto
  qed
qed

section \<open>The loop\<close>

text \<open>libevent calls back only with what the server has registered.\<close>

definition valid_fires :: "env \<Rightarrow> ptr \<Rightarrow> ptr \<Rightarrow> ptr \<Rightarrow> bool" where
  "valid_fires E g a c \<longleftrightarrow> (\<forall>v. server_ok g a c v \<longrightarrow> fire_ok E g a c (did (Enter_fire (e_fire E v)) v) (e_fire E v))"

lemma run_fires_ok:
  assumes "osip_lib E a" and "finds_live E" and "quiet_after E N" and "valid_fires E g a c"
  shows "server_ok g a c v \<Longrightarrow> \<exists>w'. run_fires E k v = Some w' \<and> server_ok g a c w'"
proof (induction k arbitrary: v)
  case (Suc k)
  let ?v = "did (Enter_fire (e_fire E v)) v"
  from Suc.prems assms(4) have "server_ok g a c ?v" "fire_ok E g a c ?v (e_fire E v)" by (simp_all add: valid_fires_def)
  note keeps = run_fire_keeps [OF assms(1,2) this]
  from keeps(2) assms(3) obtain u where u: "run_fire E (e_fire E v) ?v = Some u" by blast
  from Suc.IH [OF keeps(1) [OF this]] u show ?case by simp
qed simp

lemma base_dispatch_run:
  assumes "heap v b = Some C_ev_base"
  shows "base_dispatch E (Some b) v = do {
     w \<leftarrow> run_fires E (e_callbacks E v (Lev (Ev_base_dispatch (Some b)))) (did (Lev (Ev_base_dispatch (Some b))) v);
     Some (e_int E v (Lev (Ev_base_dispatch (Some b))), w) }"
  by (simp add: base_dispatch_def obj_int_run [OF assms])

lemma server_ERROR_EXIT:
  assumes "server_ok g a c w"
  shows "\<exists>w'. main_ERROR_EXIT E g w = Some (EXIT_FAILURE, w')"
proof -
  from assms obtain x cfg b ev where x: "heap w g = Some (C_app x)"
     "a_cfg x = Some (Some cfg)" "heap w cfg = Some C_ev_cfg" "a_base x = Some (Some b)" "heap w b = Some C_ev_base"
     "a_evsig x = Some (Some ev)" "heap w ev = Some (C_event (signal_event (Some b) g))"
    by (auto simp: server_ok_def app_ready_def)
  have "\<exists>w'. main_EXIT g EXIT_FAILURE (wrote t w) = Some (EXIT_FAILURE, w')" for t
    using main_EXIT_run [of "wrote t w" g x cfg b ev "signal_event (Some b) g" EXIT_FAILURE] x by auto
  then show ?thesis by (simp add: main_ERROR_EXIT_def esip_trace_eval)
qed

lemma main_loop_run:
  assumes "osip_lib E a" and "finds_live E" and "quiet_after E N" and "valid_fires E g a c" and ok: "server_ok g a c v"
  shows "\<exists>r w'. main_loop E g v = Some (r, w') \<and> r \<in> {EXIT_SUCCESS, EXIT_FAILURE} \<and>
    ((\<forall>u b. e_int E u (Lev (Ev_base_dispatch b)) = 0) \<longrightarrow> r = EXIT_SUCCESS)"
proof -
  let ?v = "wrote (trace_text E v ESIP_LOG_DEBUG ''main'' 190) v"
  from ok obtain x b where x: "heap v g = Some (C_app x)" "a_base x = Some (Some b)" "heap v b = Some C_ev_base"
    by (auto simp: server_ok_def app_ready_def)
  have "server_ok g a c (did (Lev (Ev_base_dispatch (Some b))) ?v)" using ok by simp
  from run_fires_ok [OF assms(1-4) this] obtain u where
    u: "run_fires E (e_callbacks E ?v (Lev (Ev_base_dispatch (Some b)))) (did (Lev (Ev_base_dispatch (Some b))) ?v) = Some u" "server_ok g a c u"
    by blast
  have laws: "osip_list_laws E" using assms(1) by (simp add: osip_lib_def)
  let ?r = "e_int E ?v (Lev (Ev_base_dispatch (Some b)))"
  have bv: "heap ?v b = Some C_ev_base" "heap ?v g = Some (C_app x)" using x by simp_all
  have tr: "esip_trace E ESIP_LOG_DEBUG ''main'' 190 v = Some ?v" by (simp add: esip_trace_eval)
  have "main_loop E g v = (if ?r \<noteq> 0 then do { w \<leftarrow> esip_trace E ESIP_LOG_EMERG ''main'' 192 u; main_ERROR_EXIT E g w } else main_stop E g u)"
    using u(1) by (simp add: main_loop_def tr app_get_run [OF bv(2)] x(2) base_dispatch_run [OF bv(1)] del: ESIP_LOG_DEBUG_def)
  moreover have "server_ok g a c (wrote z u)" for z using u(2) by simp
  then obtain w1 where "main_ERROR_EXIT E g (wrote (trace_text E u ESIP_LOG_EMERG ''main'' 192) u) = Some (EXIT_FAILURE, w1)"
    using server_ERROR_EXIT by blast
  moreover note main_stop_run [OF laws u(2)]
  ultimately show ?thesis by (cases "?r = 0") (auto simp: esip_trace_eval)
qed

section \<open>The command line\<close>

text \<open>What decides: the first character after the dash of the first argument that is an option, before \<^verbatim>\<open>--\<close>.\<close>

definition first_option :: "string list \<Rightarrow> char option" where
  "first_option args = map_option (\<lambda>x. x ! 1) (find is_option (takeWhile (\<lambda>x. x \<noteq> ''--'') args))"

lemma first_option_simps [simp]:
  "first_option [] = None"
  "first_option (x # args) = (if x = ''--'' then None else if is_option x then Some (x ! 1) else first_option args)"
  by (simp_all add: first_option_def)

lemma getopt_first:
  "fst (getopt opts ([], args)) = (case first_option args of None \<Rightarrow> (- 1, [])
     | Some c \<Rightarrow> if c \<in> set opts then (opt_char c, []) else (opt_char CHR ''?'', [''invalid option -- '', [c]]))"
proof (induction args)
  case (Cons x args)
  show ?case
  proof (cases "is_option x")
    case True
    then obtain c cs where "x = CHR ''-'' # c # cs"
      by (cases x; cases "tl x") (auto simp: is_option_def)
    with True show ?thesis by simp
  next
    case False
    with Cons show ?thesis by simp
  qed
qed simp

lemma opt_char_simps [simp]: "opt_char c = opt_char d \<longleftrightarrow> c = d" "opt_char c \<noteq> - 1" "- 1 \<noteq> opt_char c"
  by (simp_all add: opt_char_def)

lemma esip_getopt_run:
  "esip_getopt E (Some a) argv w = Some (case first_option (tl argv) of
     None \<Rightarrow> (Returns ES_OK, w)
   | Some c \<Rightarrow> if c = CHR ''h'' then (Exits EXIT_SUCCESS, esip_usage w)
       else if c = CHR ''v'' then (Exits EXIT_SUCCESS, print_version w)
       else (Returns ES_ERROR_UNINITIALIZED, esip_usage (wrote [''invalid option -- '', [c]] w)))"
proof -
  obtain r m st where g: "getopt ESIP_SHORT_OPTS_STR ([], tl argv) = ((r, m), st)" by (metis surj_pair)
  with getopt_first [of ESIP_SHORT_OPTS_STR "tl argv"] have "(r, m) = (case first_option (tl argv) of None \<Rightarrow> (- 1, [])
     | Some c \<Rightarrow> if c \<in> set ESIP_SHORT_OPTS_STR then (opt_char c, []) else (opt_char CHR ''?'', [''invalid option -- '', [c]]))" by simp
  then show ?thesis unfolding esip_getopt_def
    by (subst getopt_loop.simps) (simp add: g, auto simp: ESIP_SHORT_OPTS_STR_def split: option.splits if_splits)
qed

section \<open>The whole of main\<close>

text \<open>The state in which the initialisation begins.\<close>

lemma esip_main_run:
  "esip_main E argv w = (let v = new_cell (C_app uninitialised) w in case first_option (tl argv) of
     None \<Rightarrow> main_base E (brk w) v
   | Some c \<Rightarrow> if c = CHR ''h'' then Some (EXIT_SUCCESS, drop_cell (brk w) (esip_usage v))
       else if c = CHR ''v'' then Some (EXIT_SUCCESS, drop_cell (brk w) (print_version v))
       else do { u \<leftarrow> esip_trace E ESIP_LOG_CRIT ''main'' 135 (esip_usage (wrote [''invalid option -- '', [c]] v));
              Some (EXIT_FAILURE, drop_cell (brk w) u) })"
  by (simp add: esip_main_def esip_getopt_run Let_def split: option.split)

lemma main_stages:
  assumes "base_available E" and "heap_ok w"
  shows "failed E (brk w) (main_base E (brk w) (new_cell (C_app uninitialised) w)) \<or>
    (\<exists>fd lfd u. started w (brk w) fd lfd u \<and> main_base E (brk w) (new_cell (C_app uninitialised) w) = main_loop E (brk w) u)"
proof -
  let ?v = "new_cell (C_app uninitialised) w"
  have "failed E (brk w) (main_base E (brk w) ?v) \<or> (\<exists>u. prepared w (brk w) u \<and> main_base E (brk w) ?v = main_init E (brk w) u)"
    by (rule main_base_run [OF assms refl]) simp_all
  with main_init_run [OF assms(2) refl, of _ E] main_start_run [OF assms(2) refl, of _ _ _ E] show ?thesis by metis
qed

lemma main_EXIT_no_event:
  assumes "heap w n = Some (C_app x)" and "a_evsig x \<in> {None, Some None}" and "a_cfg x = Some (Some cfg)"
  shows "main_EXIT n ret w = None"
proof (cases "main_EXIT n ret w")
  case (Some r)
  then show ?thesis using assms
    unfolding main_EXIT_def
    by (elim run_elims) (auto simp: app_get_def app_set_def app_cell.load_iff lib_free_def ev_free_eval load_def as_app_def
        split: option.splits if_splits cell.splits)
qed

lemma main_ERROR_EXIT_no_event:
  assumes "heap w n = Some (C_app x)" and "a_evsig x \<in> {None, Some None}" and "a_cfg x = Some (Some cfg)"
  shows "Option.bind (esip_trace E ESIP_LOG_ERROR f line w) (main_ERROR_EXIT E n) = None"
  using assms by (simp add: esip_trace_eval main_ERROR_EXIT_def main_EXIT_no_event [where x = x and cfg = cfg])

text \<open>One of libevent's objects cannot be had.\<close>

definition base_missing :: "env \<Rightarrow> bool" where
  "base_missing E \<longleftrightarrow> (\<forall>v. \<not> e_ok E v (Lev Ev_config_new)) \<or> (\<forall>v p. \<not> e_ok E v (Lev (Ev_base_new p))) \<or>
     (\<forall>v b fl p. \<not> e_ok E v (Lev (Ev_new b SIGINT fl F_signal_cb p)))"

lemma main_signal_undefined:
  assumes "\<And>v b fl p. \<not> e_ok E v (Lev (Ev_new b SIGINT fl F_signal_cb p))"
    and "heap v n = Some (C_app x)" and "a_cfg x = Some (Some cfg)"
  shows "main_signal E n v = None"
  using assms main_ERROR_EXIT_no_event [where x = "x\<lparr>a_evsig := Some None\<rparr>" and cfg = cfg and n = n]
  by (cases "a_base x") (simp_all add: main_signal_def app_get_run [OF assms(2)] ev_new_def ext_new_def signal_event_def app_set_run)

lemma main_base_undefined:
  assumes "base_missing E" and v: "heap v n = Some (C_app uninitialised)" "n < brk v"
  shows "main_base E n v = None"
proof -
  let ?x = "uninitialised\<lparr>a_cfg := Some (Some (brk v))\<rparr>"
  have u: "a_evsig uninitialised = None" by (simp add: uninitialised_def)
  have signal: "main_signal E n z = None" if "\<And>v b fl p. \<not> e_ok E v (Lev (Ev_new b SIGINT fl F_signal_cb p))"
    "heap z n = Some (C_app (?x\<lparr>a_base := b\<rparr>))" for z b
    by (rule main_signal_undefined [OF that(1) that(2), of "brk v"]) simp_all
  note eval = main_base_def call_simps ext_new_def app_set_run [where x = uninitialised] app_set_run [where x = ?x]
    obj_int_run [where x = C_ev_cfg] obj_int_run [where x = C_ev_base] bind_maybe_trace
  from assms(1) show ?thesis unfolding base_missing_def
  proof (elim disjE)
    assume "\<forall>v. \<not> e_ok E v (Lev Ev_config_new)"
    with v show ?thesis by (simp add: eval obj_int_def)
  next
    assume "\<forall>v p. \<not> e_ok E v (Lev (Ev_base_new p))"
    with v main_ERROR_EXIT_no_event [where x = "?x\<lparr>a_base := Some None\<rparr>" and cfg = "brk v" and n = n] u show ?thesis
      by (cases "e_ok E (did (Lev (Ev_set_log_cb F_libevent_log_cb)) v) (Lev Ev_config_new)")
        (simp_all add: eval del: ESIP_LOG_ERROR_def, simp add: obj_int_def)
  next
    assume "\<forall>v b fl p. \<not> e_ok E v (Lev (Ev_new b SIGINT fl F_signal_cb p))"
    then have sig: "main_signal E n z = None" if "heap z n = Some (C_app (?x\<lparr>a_base := b\<rparr>))" for z b
      using signal that by blast
    have err: "main_ERROR_EXIT E n z = None" if "heap z n = Some (C_app (?x\<lparr>a_base := b\<rparr>))" for z b
      using main_EXIT_no_event [where x = "?x\<lparr>a_base := b\<rparr>" and cfg = "brk v"] that u
      by (simp add: main_ERROR_EXIT_def esip_trace_eval)
    show ?thesis
    proof (rule ccontr)
      assume "main_base E n v \<noteq> None"
      then obtain r w' where "main_base E n v = Some (r, w')" by auto
      then show False
        unfolding main_base_def
        apply (elim run_elims)
        using v
        by (simp_all add: app_set_def load_def as_app_def)
          (auto dest!: run_dests esip_traceD ext_newD simp: obj_int_def call_simps sig err as_app_def load_def
            split: if_splits option.splits cell.splits)
    qed
  qed
qed

section \<open>Datagrams\<close>

lemma parse_accepts:
  assumes lib: "all_succeed E" and ok: "osip_ok a w" and len: "unat len \<le> length buf"
    and read: "\<And>v. e_parse E v (Osip (O_parse (take (unat len) buf) len)) = Some (k, m)"
    and k: "k \<in> {RCV_REQINVITE, RCV_REQUEST}"
  shows "\<exists>w'. es_osip_parse_msg E (Some a) buf len w = Some (ES_OK, w')"
proof -
  from ok obtain s t b p where s: "heap w a = Some (C_osip s)" "o_magic s = ES_OSIP_MAGIC" "transportCtx s = Some p"
    "heap w p = Some (C_transport t)" "t_magic t = ES_TRANSPORT_MAGIC" and h: "heap_ok w" by (rule osip_ok_load)
  then have lt: "a < brk w" "p < brk w" using heap_ok_live by blast+
  note l = all_succeedD(1,5,6,8) [OF lib]
  have k: "k = RCV_REQINVITE \<or> k = RCV_REQUEST" using k by simp
  have "a \<noteq> p" using s by auto
  with k s lt len show ?thesis
    by (elim disjE)
      (simp_all add: es_osip_parse_msg_def osip_parse_def parse_request_def init_transaction_def ext_new_st_def dispatch_event_def
        es_transport_get_udp_socket_def es_osip_wakeup_def ev_new_def ext_new_def ev_priority_set_def ev_add_def ev_active_def
        live_event_iff call_simps esip_trace_eval Let_def osip_cell.load_heap transport_cell.load_heap l read)
qed

lemma trace_text_wrote: "trace_text E (wrote s w) l f n = trace_text E w l f n"
  by (simp add: trace_text_def)

text \<open>What a datagram is on its way through the callback: the bytes that libosip2 is given are the datagram's.\<close>

lemma request_fire:
  assumes laws: "osip_list_laws E" "list_front_accepts E" "finds_live E" and lib: "all_succeed E" and ok: "server_ok g a c w"
    and s: "load as_osip (Some a) w = Some s" and x: "load as_transport (transportCtx s) w = Some x"
    and e: "load as_event (evudpsock x) w = Some ev"
    and d: "d = e_bytes E w (Libc (L_recvfrom (udp_socket x) 2048))" "d \<noteq> []" "length d < 2048"
      "0 \<le> e_int E w (Libc (L_recvfrom (udp_socket x) 2048))"
    and read: "\<And>v. e_parse E v (Osip (O_parse d (word_of_nat (length d)))) = Some (k, m)"
    and k: "(k, kind) \<in> {(RCV_REQINVITE, IST), (RCV_REQUEST, NIST)}"
  shows "\<exists>w'. run_fire E (Fire_event (the (evudpsock x)) EV_READ) w = Some w' \<and>
    load as_osip (Some a) w' = Some (s\<lparr>pendingEv := (brk w + 3) # pendingEv s\<rparr>) \<and>
    load as_event (Some (brk w + 3)) w' = Some (wake_event a s) \<and>
    load as_tr (Some (brk w + 2)) w' = Some kind \<and> load as_sip (Some (brk w)) w' = Some m \<and> brk w' = brk w + 4 \<and>
    load as_transport (transportCtx s) w' = Some x \<and>
    hist w' = wake_calls a s (brk w + 3) @ dispatch_calls a (brk w + 1) (brk w + 2) (out_fd x) @
      [Osip (O_tr_init kind (osip s) (Some (brk w))), Osip (O_parse d (word_of_nat (length d))), Libc (L_recvfrom (udp_socket x) 2048)] @ hist w"
proof -
  note osip = server_okD(1) [OF ok]
  from ok s x obtain p e' where p: "transportCtx s = Some p" "heap w p = Some (C_transport x)" "evudpsock x = Some e'"
    "heap w e' = Some (C_event (transport_event p x))"
    by (auto simp: server_ok_def transport_listens_def osip_cell.load_iff transport_cell.load_iff)
  from osip s x p(1,2) have t: "t_magic x = ES_TRANSPORT_MAGIC" "callbacks x = osip_callbacks a"
    by (auto simp: osip_ok_def osip_live_def osip_cell.load_iff)
  have cb: "msg_recv_cb (callbacks x) = Some F_es_transport_msg_cb" "user_data (callbacks x) = Some a"
    "event_cb (callbacks x) = Some F_es_transport_event_cb" by (simp_all add: t osip_callbacks_def)
  let ?fd = "udp_socket x" and ?len = "word_of_nat (length d) :: u32" and ?buf = "received E d w"
  have len: "unat ?len = length d" using d(3) by (simp add: unat_of_nat take_bit_nat_eq_self)
  have buf: "unat ?len \<le> length ?buf" "take (unat ?len) ?buf = d" using d(3) by (simp_all add: len)
  define v where "v = wrote ((if ?len < 3 then trace_text E (after_recv E ?fd w) ESIP_LOG_WARNING ''_es_transport_msg_cb'' 405 else []) @
        trace_text E (after_recv E ?fd w) ESIP_LOG_DEBUG ''_es_transport_msg_cb'' 408) (after_recv E ?fd w)"
  have v: "heap v = heap w" "brk v = brk w" "hist v = Libc (L_recvfrom ?fd 2048) # hist w" by (simp_all add: v_def)
  have okv: "osip_ok a v" using osip by (simp add: v_def after_recv_def Let_def)
  have sv: "load as_osip (Some a) v = Some s" and xv: "load as_transport (transportCtx s) v = Some x"
    using s x by (simp_all add: osip_cell.load_iff transport_cell.load_iff v)
  have readv: "e_parse E u (Osip (O_parse (take (unat ?len) ?buf) ?len)) = Some (k, m)" for u unfolding buf(2) by (rule read)
  have "k \<in> {RCV_REQINVITE, RCV_REQUEST}" using k by auto
  from parse_accepts [OF lib okv buf(1) readv this] obtain u where u: "es_osip_parse_msg E (Some a) ?buf ?len v = Some (ES_OK, u)" by blast
  note eff = parse_request_effects [OF laws okv sv xv buf(1) readv k u, unfolded buf(2) v]
  have msg: "call_transport_msg E F_es_transport_msg_cb (Some p) ?buf ?len (Some a) (after_recv E ?fd w) = Some u"
    using u unfolding v_def
    by (cases "?len < 3") (simp_all add: call_transport_msg_def es_transport_msg_cb_def esip_trace_eval trace_text_wrote)
  from es_osip_parse_msg_grows [OF laws(1,3) okv buf(1)] u have "grows a v u" by auto
  moreover have "p \<noteq> a" using p(2) s by (auto simp: osip_cell.load_iff)
  ultimately have load: "load as_transport (Some p) u = Some x"
    using p(2) v by (simp add: grows_def transport_cell.load_heap)
  have er: "EV_READ AND EV_READ \<noteq> 0" by (simp add: EV_READ_def)
  note run = es_transport_ev_run [OF p(2) t(1) er d(1,3,4), of "call_transport_msg E" "call_transport_event E",
      unfolded cb option.case if_not_P [OF d(2)] msg bind.bind_lunit load]
  have "run_fire E (Fire_event e' EV_READ) w = transport_readable E ?fd EV_READ (Some p) w"
    by (simp add: run_fire_def event_cell.load_heap [OF p(4)])
  then show ?thesis using eff load unfolding p(1,3) transport_readable_def run option.sel
    by (simp add: call_transport_event_def es_transport_event_cb_def esip_trace_eval)
qed

section \<open>A run in which nothing happens\<close>

lemma started_loads:
  assumes "started w n fd lfd v"
  shows "load as_app (Some n) v = Some (app_of n (Some (Some (n + 4))) (Some (Some (n + 7))))"
    and "load as_osip (Some (n + 4)) v = Some (new_osip (n + 4) (Some (n + 2)) (n + 5) (n + 6))"
    and "load as_transport (Some (n + 5)) v = Some (new_transport (n + 4) (Some (n + 2)) fd\<lparr>evudpsock := Some (n + 10)\<rparr>)"
    and "load as_cli (Some (n + 7)) v = Some (new_cli (Some (n + 2)) (n + 7))"
    and "load as_listener (Some (n + 9)) v = Some (new_listener (n + 7) lfd)"
  using assms
  by (simp_all add: started_def inited_heap_def app_cell.load_heap osip_cell.load_heap transport_cell.load_heap cli_cell.load_heap
      listener_cell.load_heap)

lemma started_blocks:
  "server_blocks n (n + 4) (n + 7) (app_of n (Some (Some (n + 4))) (Some (Some (n + 7)))) (new_osip (n + 4) (Some (n + 2)) (n + 5) (n + 6))
     (new_transport (n + 4) (Some (n + 2)) fd\<lparr>evudpsock := Some (n + 10)\<rparr>) (new_cli (Some (n + 2)) (n + 7)) = {n ..< n + 11}"
proof -
  have "{n ..< n + 11} = {n, n + 1, n + 2, n + 3, n + 4, n + 5, n + 6, n + 7, n + 8, n + 9, n + 10}"
    by (rule set_eqI) (simp, presburger)
  moreover have "{n, n + 1, n + 2, n + 3, n + 4, n + 6, n + 5, n + 10} \<union> set [] \<union> {n + 7, n + 8, n + 9} = ..."
    by (simp add: insert_commute)
  moreover have "n + 7 + 1 = n + 8" "n + 7 + 2 = n + 9" by simp_all
  moreover have "evudpsock (new_transport (n + 4) (Some (n + 2)) fd\<lparr>evudpsock := Some (n + 10)\<rparr>) = Some (n + 10)" by simp
  ultimately show ?thesis
    by (simp only: server_blocks_def new_osip_def new_cli_def app_of_simps es_osip_s.simps es_cli_s.simps es_transport_s.simps option.sel)
qed

lemma started_outside:
  assumes "heap_ok w" and "started w (brk w) fd lfd v"
  shows "(\<lambda>y. if y \<in> {brk w ..< brk w + 11} then None else heap v y) = heap w"
proof
  fix y
  show "(if y \<in> {brk w ..< brk w + 11} then None else heap v y) = heap w y"
    using assms by (cases "y < brk w") (auto simp: started_def inited_heap_def heap_ok_def)
qed

lemma main_loop_idle:
  assumes laws: "osip_list_laws E" and idle: "\<And>u b. e_callbacks E u (Lev (Ev_base_dispatch b)) = 0"
    and w: "heap_ok w" and v: "started w (brk w) fd lfd v" and run: "main_loop E (brk w) v = Some (EXIT_SUCCESS, w')"
  shows "heap w' = heap w \<and> fds w' = fds v - {fd, lfd}"
proof -
  let ?n = "brk w" and ?v = "wrote (trace_text E v ESIP_LOG_DEBUG ''main'' 190) v"
  let ?u = "did (Lev (Ev_base_dispatch (Some (?n + 2)))) ?v"
  have u: "started w ?n fd lfd ?u" using v by (simp add: started_def)
  have b: "heap ?v (?n + 2) = Some C_ev_base" "heap ?v ?n = Some (C_app (app_of ?n (Some (Some (?n + 4))) (Some (Some (?n + 7)))))"
    using v by (simp_all add: started_def inited_heap_def)
  have ok: "server_ok ?n (?n + 4) (?n + 7) ?u" by (rule started_server [OF w refl u])
  then have "server_ok ?n (?n + 4) (?n + 7) (wrote z ?u)" for z by (simp only: server_ok_steps)
  then obtain w1 where err: "main_ERROR_EXIT E ?n (wrote (trace_text E ?u ESIP_LOG_EMERG ''main'' 192) ?u) = Some (EXIT_FAILURE, w1)"
    using server_ERROR_EXIT by blast
  have tr: "esip_trace E ESIP_LOG_DEBUG ''main'' 190 v = Some ?v" by (simp add: esip_trace_eval)
  have "main_stop E ?n ?u = Some (EXIT_SUCCESS, w')"
    using run err b(1) by (simp add: main_loop_def tr app_get_run [OF b(2)] base_dispatch_run idle esip_trace_eval split: if_splits
        del: ESIP_LOG_DEBUG_def)
  note finish = this
  obtain w2 x s t k l where stop: "main_stop E ?n ?u = Some (EXIT_SUCCESS, w2)" "fds w2 = fds ?u - {udp_socket t, ls_fd l}"
      "heap w2 = (\<lambda>y. if y \<in> server_blocks ?n (?n + 4) (?n + 7) x s t k then None else heap ?u y)"
    and loads: "load as_app (Some ?n) ?u = Some x" "load as_osip (Some (?n + 4)) ?u = Some s" "load as_transport (transportCtx s) ?u = Some t"
      "load as_cli (Some (?n + 7)) ?u = Some k" "load as_listener (listener k) ?u = Some l"
    using main_stop_run [OF laws ok] by (elim exE conjE) (rule that)
  note l = started_loads [OF u]
  have x: "x = app_of ?n (Some (Some (?n + 4))) (Some (Some (?n + 7)))" using loads(1) unfolding l(1) by simp
  have s: "s = new_osip (?n + 4) (Some (?n + 2)) (?n + 5) (?n + 6)" using loads(2) unfolding l(2) by simp
  have k: "k = new_cli (Some (?n + 2)) (?n + 7)" using loads(4) unfolding l(4) by simp
  have "transportCtx s = Some (?n + 5)" "listener k = Some (?n + 9)" by (simp_all add: s k new_osip_def new_cli_def)
  then have t: "t = new_transport (?n + 4) (Some (?n + 2)) fd\<lparr>evudpsock := Some (?n + 10)\<rparr>" and lis: "l = new_listener (?n + 7) lfd"
    using loads(3,5) l(3,5) by simp_all
  have fd: "udp_socket t = fd" "ls_fd l = lfd" by (simp_all add: t lis new_transport_def new_listener_def)
  have "w2 = w'" using finish unfolding stop(1) by simp
  with stop(3) have "heap w' = (\<lambda>y. if y \<in> {?n ..< ?n + 11} then None else heap ?u y)" unfolding x s t k started_blocks by blast
  moreover have "fds w' = fds v - {fd, lfd}" using stop(2) \<open>w2 = w'\<close> by (simp add: fd)
  ultimately have "heap w' = (\<lambda>y. if y \<in> {?n ..< ?n + 11} then None else heap ?u y) \<and> fds w' = fds v - {fd, lfd}" by blast
  with started_outside [OF w u] show ?thesis by metis
qed

section \<open>Runs without options\<close>

text \<open>Runs without options: the initialisation fails, or the loop is entered.\<close>

lemma main_entry:
  assumes "base_available E" and "heap_ok w" and opt: "first_option (tl argv) = None"
  shows "failed E (brk w) (esip_main E argv w) \<or>
    (\<exists>fd lfd v. started w (brk w) fd lfd v \<and> esip_main E argv w = main_loop E (brk w) v)"
proof -
  have "esip_main E argv w = main_base E (brk w) (new_cell (C_app uninitialised) w)"
    using opt by (simp add: esip_main_run Let_def)
  with main_stages [OF assms(1,2)] show ?thesis by simp
qed

lemma main_run_outcomes:
  assumes "base_available E" and "heap_ok w" and "first_option (tl argv) = None"
  shows "(\<exists>w'. esip_main E argv w = Some (EXIT_FAILURE, w') \<and> \<not> all_succeed E \<and> (\<forall>y \<in> {brk w ..< brk w + 4}. heap w' y = None)) \<or>
    (\<exists>v. server_ok (brk w) (brk w + 4) (brk w + 7) v \<and> esip_main E argv w = main_loop E (brk w) v)"
proof -
  have "{brk w ..< brk w + 4} = {brk w, brk w + 1, brk w + 2, brk w + 3}" by auto
  with main_entry [OF assms] started_server [OF assms(2) refl] show ?thesis unfolding failed_def by metis
qed

lemma main_run_returns:
  assumes "base_available E" and "heap_ok w" and "osip_lib E (brk w + 4)" and "finds_live E" and "quiet_after E N"
    and "valid_fires E (brk w) (brk w + 4) (brk w + 7)"
  shows "\<exists>r w'. esip_main E argv w = Some (r, w') \<and> r \<in> {EXIT_SUCCESS, EXIT_FAILURE} \<and>
    (first_option (tl argv) = None \<longrightarrow> all_succeed E \<longrightarrow> r = EXIT_SUCCESS)"
proof (cases "first_option (tl argv)")
  case None
  note dispatch = all_succeedD(7)
  from main_run_outcomes [OF assms(1,2) None] show ?thesis
  proof (elim disjE exE conjE)
    fix v assume v: "server_ok (brk w) (brk w + 4) (brk w + 7) v" "esip_main E argv w = main_loop E (brk w) v"
    from main_loop_run [OF assms(3-6) v(1)] v(2) dispatch show ?thesis by auto
  qed auto
next
  case (Some c)
  then show ?thesis by (auto simp: esip_main_run Let_def esip_trace_eval)
qed

lemma main_run_idle:
  assumes "base_available E" and "heap_ok w" and "osip_list_laws E" and "first_option (tl argv) = None"
    and "\<And>u b. e_callbacks E u (Lev (Ev_base_dispatch b)) = 0" and run: "esip_main E argv w = Some (EXIT_SUCCESS, w')"
  shows "heap w' = heap w \<and> (\<exists>fd sfd lfd. fds w' = insert sfd (fds w) - {fd, lfd})"
proof -
  from main_entry [OF assms(1,2,4)] run obtain fd lfd v where v: "started w (brk w) fd lfd v" "main_loop E (brk w) v = Some (EXIT_SUCCESS, w')"
    by (auto simp: failed_def)
  from v(1) obtain sfd where "fds v = insert lfd (insert sfd (insert fd (fds w)))" by (auto simp: started_def)
  then have "fds v - {fd, lfd} = insert sfd (fds w) - {fd, lfd}" by auto
  with main_loop_idle [OF assms(3,5,2) v] show ?thesis by auto
qed

text \<open>Without callbacks nothing has to be known of them.\<close>

lemma main_run_quiet:
  assumes "base_available E" and "all_succeed E" and "heap_ok w" and "osip_lib E (brk w + 4)" and "first_option (tl argv) = None"
    and idle: "\<And>u b. e_callbacks E u (Lev (Ev_base_dispatch b)) = 0"
  shows "\<exists>w'. esip_main E argv w = Some (EXIT_SUCCESS, w')"
proof -
  from main_run_outcomes [OF assms(1,3,5)] assms(2) obtain v where
    v: "server_ok (brk w) (brk w + 4) (brk w + 7) v" "esip_main E argv w = main_loop E (brk w) v" by auto
  let ?v = "wrote (trace_text E v ESIP_LOG_DEBUG ''main'' 190) v"
  from v(1) obtain x b where x: "heap v (brk w) = Some (C_app x)" "a_base x = Some (Some b)" "heap v b = Some C_ev_base"
    by (auto simp: server_ok_def app_ready_def)
  then have h: "heap ?v (brk w) = Some (C_app x)" "heap ?v b = Some C_ev_base" by simp_all
  have "server_ok (brk w) (brk w + 4) (brk w + 7) (did (Lev (Ev_base_dispatch (Some b))) ?v)" using v(1) by simp
  from main_stop_run [OF osip_lib_lists [OF assms(4)] this] obtain w' where
    "main_stop E (brk w) (did (Lev (Ev_base_dispatch (Some b))) ?v) = Some (EXIT_SUCCESS, w')" by blast
  moreover have "esip_trace E ESIP_LOG_DEBUG ''main'' 190 v = Some ?v" by (simp add: esip_trace_eval)
  ultimately show ?thesis unfolding v(2)
    by (simp add: main_loop_def app_get_run [OF h(1)] x(2) base_dispatch_run [OF h(2)] idle all_succeedD(7) [OF assms(2)] del: ESIP_LOG_DEBUG_def)
qed
end
