(* ===== verification/Es_Udpclient.thy ===== *)
theory Es_Udpclient
  imports Esip_Prelude
begin

text \<open>
  The test client, \<^verbatim>\<open>src/tst/udpclient.c\<close>: it sends the lines of its standard input as datagrams.
  The C library is modelled as far as the program uses it. The name service and the socket
  are outside. Byte arrays end with the zero that \<^verbatim>\<open>getline\<close> puts behind what it has read.
\<close>

section \<open>The C library\<close>

text \<open>\<^verbatim>\<open>getline\<close>: the bytes up to the first newline and the newline, or up to the end of the input.
  At the end of the input there is none.\<close>

fun line_of :: "byte list \<Rightarrow> byte list \<times> byte list" where
  "line_of [] = ([], [])"
| "line_of (b # bs) = (if b = 10 then ([b], bs) else (let (l, r) = line_of bs in (b # l, r)))"

definition getline :: "byte list \<Rightarrow> (byte list \<times> byte list) option" where
  "getline bs = (if bs = [] then None else Some (line_of bs))"

definition lower_byte :: "byte \<Rightarrow> byte" where
  "lower_byte b = (if 65 \<le> b \<and> b \<le> 90 then b + 32 else b)"

text \<open>\<^verbatim>\<open>strncasecmp\<close> on arrays; reading past the end of one is undefined.\<close>

fun strncasecmp :: "byte list \<Rightarrow> byte list \<Rightarrow> nat \<Rightarrow> int option" where
  "strncasecmp xs ys 0 = Some 0"
| "strncasecmp (x # xs) (y # ys) (Suc n) =
     (if lower_byte x \<noteq> lower_byte y then Some (uint (lower_byte x) - uint (lower_byte y))
      else if x = 0 then Some 0 else strncasecmp xs ys n)"
| "strncasecmp _ _ (Suc n) = None"

text \<open>\<^verbatim>\<open>atoi\<close>: white space, a sign, digits. A value that is no \<^verbatim>\<open>int\<close> is undefined.\<close>

definition is_space :: "char \<Rightarrow> bool" where
  "is_space c \<longleftrightarrow> c = CHR '' '' \<or> (9 \<le> (of_char c :: nat) \<and> (of_char c :: nat) \<le> 13)"

definition is_digit :: "char \<Rightarrow> bool" where
  "is_digit c \<longleftrightarrow> 48 \<le> (of_char c :: nat) \<and> (of_char c :: nat) \<le> 57"

definition signed_val :: "string \<Rightarrow> int" where
  "signed_val s = (case s of
       CHR ''-'' # t \<Rightarrow> - int (dec_val (takeWhile is_digit t))
     | CHR ''+'' # t \<Rightarrow> int (dec_val (takeWhile is_digit t))
     | _ \<Rightarrow> int (dec_val (takeWhile is_digit s)))"

definition atoi :: "string \<Rightarrow> int option" where
  "atoi s = (let v = signed_val (dropWhile is_space s)
     in if - (2 ^ 31) \<le> v \<and> v < 2 ^ 31 then Some v else None)"

text \<open>What \<^verbatim>\<open>%s\<close> prints of an array, and the text of an address.\<close>

definition c_string :: "byte list \<Rightarrow> string" where
  "c_string bs = map (\<lambda>b. char_of (unat b)) (takeWhile (\<lambda>b. b \<noteq> 0) bs)"

type_synonym ip_addr = "byte \<times> byte \<times> byte \<times> byte"

definition inet_ntoa :: "ip_addr \<Rightarrow> string" where
  "inet_ntoa ip = (let (a, b, c, d) = ip
     in dec_nat (unat a) @ ''.'' @ dec_nat (unat b) @ ''.'' @ dec_nat (unat c) @ ''.'' @ dec_nat (unat d))"

section \<open>The program\<close>

record dest =                    \<comment> \<open>\<^verbatim>\<open>struct sockaddr_in server_addr\<close>\<close>
  d_port :: "byte \<times> byte"
  d_addr :: ip_addr

record client =
  input :: "byte list"                         \<comment> \<open>what is left of the standard input\<close>
  send_data :: "byte list option"              \<comment> \<open>the block \<^verbatim>\<open>send_data\<close> points to\<close>
  sent :: "(int \<times> byte list \<times> dest) list"      \<comment> \<open>the datagrams, in order\<close>
  text_out :: "string list"                    \<comment> \<open>\<^verbatim>\<open>stdout\<close> and \<^verbatim>\<open>stderr\<close>\<close>

definition tell :: "string \<Rightarrow> client \<Rightarrow> client" where
  "tell s c = c\<lparr>text_out := text_out c @ [s]\<rparr>"

definition newline :: string where "newline = [CHR 0x0A]"

definition client_help :: "client \<Rightarrow> client" where
  "client_help c = tell (''client <ip_to_use> <port_to_use>'' @ newline) (tell (''UDP client for test purpose'' @ newline) c)"

definition quit_word :: "byte list" where "quit_word = [113, 0]"

definition prompt :: string where "prompt = ''Type Something (q or Q to quit):''"

partial_function (option) client_loop :: "int \<Rightarrow> dest \<Rightarrow> client \<Rightarrow> client option" where
  "client_loop sock to c =
     (let c = tell prompt c
      in case getline (input c) of
           None \<Rightarrow> Some c
         | Some (line, rest) \<Rightarrow>
             (let len = length line - 1; buf = (line @ [0])[len := 0]; c = c\<lparr>input := rest, send_data := Some buf\<rparr>
              in do {
                r \<leftarrow> strncasecmp buf quit_word len;
                if r = 0 then Some c
                else
                  (let c = tell (''sending '' @ c_string buf @ '' size '' @ dec_nat (unat (word_of_nat len :: u32))) c;
                       c = c\<lparr>sent := sent c @ [(sock, take len buf, to)]\<rparr>
                   in client_loop sock to (c\<lparr>send_data := None\<rparr>)) }))"

definition client_main :: "(string \<Rightarrow> ip_addr option) \<Rightarrow> int \<Rightarrow> string list \<Rightarrow> client \<Rightarrow> (int \<times> client) option" where
  "client_main resolve sock argv c =
     (if length argv < 3 then Some (1, client_help c)
      else if sock = - 1 then Some (1, tell ''socket'' c)
      else do {
        port \<leftarrow> atoi (argv ! 2);
        addr \<leftarrow> resolve (argv ! 1);
        let to = \<lparr>d_port = htons (word_of_int port), d_addr = addr\<rparr>;
        let c = tell (''Sending to '' @ inet_ntoa (d_addr to) @ '':'' @ dec_nat (unat (ntohs (d_port to))) @ newline) c;
        c \<leftarrow> client_loop sock to (c\<lparr>send_data := None\<rparr>);
        Some (0, c) })"

section \<open>What it sends\<close>

text \<open>The lines of the input, and when a line ends the program: it is empty, or its text before a zero is
  one letter q.\<close>

lemma line_of_length: "line_of bs = (l, r) \<Longrightarrow> length l + length r = length bs"
  by (induction bs arbitrary: l r) (auto split: if_splits prod.splits)

lemma line_of_nonempty: "line_of bs = (l, r) \<Longrightarrow> bs \<noteq> [] \<Longrightarrow> l \<noteq> []"
  by (cases bs) (auto split: if_splits prod.splits)

lemma line_of_shorter: "bs \<noteq> [] \<Longrightarrow> length (snd (line_of bs)) < length bs"
  using line_of_length [of bs, OF prod.collapse [symmetric]] line_of_nonempty [of bs, OF prod.collapse [symmetric]]
  by (cases "fst (line_of bs)") simp_all

function input_lines :: "byte list \<Rightarrow> byte list list" where
  "input_lines bs = (if bs = [] then [] else fst (line_of bs) # input_lines (snd (line_of bs)))"
  by auto
termination
  by (relation "measure length") (simp_all add: line_of_shorter)

declare input_lines.simps [simp del]

lemma input_lines_concat: "concat (input_lines bs) = bs"
proof (induction bs rule: input_lines.induct)
  case (1 bs)
  have "fst (line_of bs) @ snd (line_of bs) = bs"
    by (induction bs) (auto split: prod.splits)
  with 1 show ?case by (simp add: input_lines.simps [of bs])
qed

definition quits :: "byte list \<Rightarrow> bool" where
  "quits l \<longleftrightarrow> l = [] \<or> (hd l \<in> {113, 81} \<and> (length l = 1 \<or> l ! 1 = 0))"

lemma plus_32_iff: "x + 32 = y \<longleftrightarrow> x = y - 32" for x y :: byte
  by (simp only: eq_diff_eq)

lemma lower_byte_q: "lower_byte x = lower_byte 113 \<longleftrightarrow> x = 113 \<or> x = 81"
  by (auto simp: lower_byte_def plus_32_iff)

lemma lower_byte_0: "lower_byte x = lower_byte 0 \<longleftrightarrow> x = 0"
  by (auto simp: lower_byte_def plus_32_iff)

lemma uint_eq: "uint x = uint y \<longleftrightarrow> x = y" for x y :: byte
  by (simp add: word_uint_eq_iff)

lemma quit_compare:
  "\<exists>r. strncasecmp (l @ [0, 0]) quit_word (length l) = Some r \<and> (r = 0 \<longleftrightarrow> quits l)"
proof (cases l)
  case (Cons x m)
  then show ?thesis
    using lower_byte_q [of x] lower_byte_0
    by (cases m) (auto simp: quits_def quit_word_def lower_byte_0 uint_eq)
qed (simp add: quits_def)

text \<open>The buffer that is sent: the line without its last byte, whatever that byte is.\<close>

lemma chopped: "l \<noteq> [] \<Longrightarrow> (l @ [0])[length l - Suc 0 := 0] = butlast l @ [0, 0]"
  by (cases l rule: rev_cases) simp_all

text \<open>The state after a line that is sent.\<close>

definition served :: "int \<Rightarrow> dest \<Rightarrow> client \<Rightarrow> client" where
  "served sock to c = (let (l, r) = line_of (input c)
     in (tell (''sending '' @ c_string (butlast l @ [0, 0]) @ '' size '' @ dec_nat (unat (word_of_nat (length l - 1) :: u32)))
          (tell prompt c))\<lparr>input := r, send_data := None, sent := sent c @ [(sock, butlast l, to)]\<rparr>)"

lemma served_simps [simp]:
  "input (served sock to c) = snd (line_of (input c))"
  "sent (served sock to c) = sent c @ [(sock, butlast (fst (line_of (input c))), to)]"
  by (simp_all add: served_def split_beta)

lemma client_loop_step:
  "client_loop sock to c = (case input_lines (input c) of
     [] \<Rightarrow> Some (tell prompt c)
   | l # ls \<Rightarrow> if quits (butlast l)
       then Some (tell prompt c\<lparr>input := snd (line_of (input c)), send_data := Some (butlast l @ [0, 0])\<rparr>)
       else client_loop sock to (served sock to c))"
proof (cases "input c = []")
  case True
  then show ?thesis by (subst client_loop.simps) (simp add: getline_def input_lines.simps tell_def)
next
  case False
  obtain l r where l: "line_of (input c) = (l, r)" by fastforce
  with False have ne: "l \<noteq> []" by (blast dest: line_of_nonempty)
  from quit_compare [of "butlast l"] obtain x where x: "strncasecmp (butlast l @ [0, 0]) quit_word (length l - 1) = Some x" "x = 0 \<longleftrightarrow> quits (butlast l)"
    by auto
  have "take (length l - 1) (butlast l @ [0, 0]) = butlast l" by simp
  with False l ne x show ?thesis
    by (subst client_loop.simps)
      (simp add: getline_def input_lines.simps [of "input c"] served_def tell_def chopped Let_def,
       intro impI arg_cong [where f = "client_loop sock to"] client.equality, simp_all)
qed

lemma client_loop_result:
  "\<exists>c'. client_loop sock to c = Some c' \<and>
     sent c' = sent c @ map (\<lambda>l. (sock, butlast l, to)) (takeWhile (\<lambda>l. \<not> quits (butlast l)) (input_lines (input c)))"
proof (induction "input c" arbitrary: c rule: input_lines.induct)
  case 1
  show ?case
  proof (cases "input c = []")
    case True
    then show ?thesis by (subst client_loop_step) (simp add: input_lines.simps tell_def)
  next
    case False
    from 1 [OF False, of "served sock to c"] False show ?thesis
      by (subst client_loop_step) (simp add: input_lines.simps [of "input c"] tell_def)
  qed
qed

lemma bind_Some: "Option.bind m (\<lambda>x. Some (f x)) = map_option f m"
  by (cases m) simp_all

text \<open>C38. The client sends, in order, one datagram for every line of its input up to the first that ends the
  program or the end of the input, and then returns. A datagram is the line without its last byte,
  which is the newline but for a last line without one; an empty line ends the program like a q. The port is
  the number modulo 65536.\<close>

theorem client_sends:
  assumes "3 \<le> length argv" and "sock \<noteq> - 1" and "atoi (argv ! 2) = Some port" and "resolve (argv ! 1) = Some ip"
  shows "\<exists>c'. client_main resolve sock argv c = Some (0, c') \<and>
    sent c' = sent c @ map (\<lambda>l. (sock, butlast l, \<lparr>d_port = htons (word_of_int port), d_addr = ip\<rparr>))
      (takeWhile (\<lambda>l. \<not> quits (butlast l)) (input_lines (input c))) \<and>
    concat (input_lines (input c)) = input c"
proof -
  let ?to = "\<lparr>d_port = htons (word_of_int port), d_addr = ip\<rparr>"
  let ?c = "(tell (''Sending to '' @ inet_ntoa ip @ '':'' @ dec_nat (unat (word_of_int port :: u16)) @ newline) c)\<lparr>send_data := None\<rparr>"
  have "client_main resolve sock argv c = map_option (Pair 0) (client_loop sock ?to ?c)"
    using assms by (simp add: client_main_def bind_Some)
  moreover have "sent ?c = sent c" "input ?c = input c" by (simp_all add: tell_def)
  ultimately show ?thesis using client_loop_result [of sock ?to ?c] by (auto simp: input_lines_concat)
qed

text \<open>Without two arguments, or a socket, the client fails and sends nothing; with a host that the name
  service does not know its behaviour is undefined.\<close>

theorem client_refuses:
  "(length argv < 3 \<longrightarrow> client_main resolve sock argv c = Some (1, client_help c)) \<and>
   (3 \<le> length argv \<longrightarrow> sock = - 1 \<longrightarrow> client_main resolve sock argv c = Some (1, tell ''socket'' c)) \<and>
   (3 \<le> length argv \<longrightarrow> sock \<noteq> - 1 \<longrightarrow> resolve (argv ! 1) = None \<longrightarrow> client_main resolve sock argv c = None)"
  by (cases "atoi (argv ! 2)") (simp_all add: client_main_def)

definition demo_client :: "byte list \<Rightarrow> client" where
  "demo_client bs = \<lparr>input = bs, send_data = None, sent = [], text_out = []\<rparr>"

theorem client_sends_witness:
  "\<exists>c'. client_main (\<lambda>h. Some (127, 0, 0, 1)) 3 [''client'', ''localhost'', ''5060''] (demo_client [65, 66, 10, 67, 68]) = Some (0, c') \<and>
     map (fst \<circ> snd) (sent c') = [[65, 66], [67]]"
proof -
  have "atoi ''5060'' = Some 5060"
    by (simp add: atoi_def signed_val_def is_space_def is_digit_def dec_val_def digit_val_def)
  with client_sends [of "[''client'', ''localhost'', ''5060'']" 3 5060 "\<lambda>h. Some (127, 0, 0, 1)" "(127, 0, 0, 1)" "demo_client [65, 66, 10, 67, 68]"]
  show ?thesis by (auto simp: demo_client_def input_lines.simps quits_def)
qed

theorem client_refuses_witness:
  "client_main (\<lambda>h. None) 3 [''client'', ''nowhere'', ''5060''] (demo_client []) = None"
  using client_refuses [of "[''client'', ''nowhere'', ''5060'']" "\<lambda>h. None" 3] by simp

end
