(* ===== verification/Es_Clitest.thy ===== *)
theory Es_Clitest
  imports Es_Udpclient
begin

text \<open>
  The test server of the command line, \<^verbatim>\<open>src/tst/clitest.c\<close>: its commands and callbacks, and \<^verbatim>\<open>main\<close>
  with the loop that forks for every connection. libcli and the system are outside: their calls are
  data in a history, the latest first, and a function answers each call from the history before it.
  The parts for Windows are not compiled.
\<close>

section \<open>Calls and state\<close>

datatype cli_status = CLI_OK | CLI_ERROR | CLI_QUIT
datatype privilege = PRIVILEGE_UNPRIVILEGED | PRIVILEGE_PRIVILEGED
datatype cli_mode = MODE_EXEC | MODE_CONFIG | MODE_INT int

definition CLITEST_PORT :: int where "CLITEST_PORT = 8000"
definition MODE_CONFIG_INT :: cli_mode where "MODE_CONFIG_INT = MODE_INT 10"

datatype command = Cmd_test | Cmd_set | Cmd_config_int | Cmd_config_int_exit | Cmd_show_regular
  | Cmd_debug_regular | Cmd_context

datatype tcall =
    T_signal_ignore | T_cli_init | T_set_banner string | T_set_hostname string | T_telnet int
  | T_regular | T_regular_interval int | T_idle_timeout int
  | T_register "int option" string "command option" privilege cli_mode "string option"
  | T_set_context | T_set_auth | T_set_enable | T_fopen string string | T_print_callback bool | T_file | T_fclose
  | T_print string | T_configmode cli_mode "string option" | T_reprompt
  | T_socket | T_reuseaddr int | T_bind int "byte \<times> byte" | T_listen int int | T_accept int | T_fork
  | T_getpeername int | T_close int | T_loop int | T_done | T_perror string | T_printf string

type_synonym thist = "tcall list"

record tenv =
  t_int :: "thist \<Rightarrow> tcall \<Rightarrow> int"
  t_peer :: "thist \<Rightarrow> ip_addr"          \<comment> \<open>the address that \<^verbatim>\<open>getpeername\<close> stores\<close>

record my_context = ctx_value :: int ctx_message :: string

record clitest =
  regular_count :: u32
  debug_regular :: u32
  tm_sec :: int                         \<comment> \<open>\<^verbatim>\<open>cli->timeout_tm\<close>\<close>
  tm_usec :: int
  user_ctx :: "my_context option"       \<comment> \<open>what \<^verbatim>\<open>cli_get_context\<close> returns\<close>
  t_hist :: thist

definition t_call :: "tcall \<Rightarrow> clitest \<Rightarrow> clitest" where
  "t_call k s = s\<lparr>t_hist := k # t_hist s\<rparr>"

definition t_ask :: "tenv \<Rightarrow> tcall \<Rightarrow> clitest \<Rightarrow> int \<times> clitest" where
  "t_ask E k s = (t_int E (t_hist s) k, t_call k s)"

definition cli_print :: "string \<Rightarrow> clitest \<Rightarrow> clitest" where
  "cli_print line s = t_call (T_print line) s"

section \<open>The C library\<close>

definition lower_char :: "char \<Rightarrow> char" where
  "lower_char c = (let n = of_char c :: nat in if 65 \<le> n \<and> n \<le> 90 then char_of (n + 32) else c)"

definition same_caseless :: "string \<Rightarrow> string \<Rightarrow> bool" where   \<comment> \<open>\<^verbatim>\<open>strcasecmp\<close> is 0\<close>
  "same_caseless s t \<longleftrightarrow> map lower_char s = map lower_char t"

text \<open>\<^verbatim>\<open>sscanf\<close> with \<^verbatim>\<open>%u\<close>: white space, a sign, digits. Without digits nothing is stored; a negative number
  wraps around; a number that does not fit is undefined.\<close>

definition digits_of :: "string \<Rightarrow> string" where
  "digits_of s = takeWhile is_digit (case s of [] \<Rightarrow> [] | c # t \<Rightarrow> if c = CHR ''-'' \<or> c = CHR ''+'' then t else s)"

definition sscanf_u :: "string \<Rightarrow> u32 \<Rightarrow> u32 option" where
  "sscanf_u s old = (let t = dropWhile is_space s; d = digits_of t; v = dec_val d
     in if d = [] then Some old
        else if 2 ^ 32 \<le> v then None
        else Some (if hd t = CHR ''-'' then - word_of_nat v else word_of_nat v))"

section \<open>Commands\<close>

type_synonym cmd_run = "(cli_status \<times> clitest) option"

definition cmd_test :: "string \<Rightarrow> string list \<Rightarrow> clitest \<Rightarrow> cmd_run" where
  "cmd_test command argv s =
     (let s = cli_print (''called cmd_test with \"'' @ command @ ''\"'') s;
          s = cli_print (dec_nat (length argv) @ '' arguments:'') s
      in Some (CLI_OK, fold (\<lambda>a. cli_print (''        '' @ a)) argv s))"

definition cmd_set :: "string list \<Rightarrow> clitest \<Rightarrow> cmd_run" where
  "cmd_set argv s =
     (if length argv < 2 \<or> argv ! 0 = ''?'' then Some (CLI_OK, cli_print ''Specify a variable to set'' s)
      else if argv ! 1 = ''?'' then Some (CLI_OK, cli_print ''Specify a value'' s)
      else if argv ! 0 = ''regular_interval'' then do {
        sec \<leftarrow> sscanf_u (argv ! 1) 0;
        if sec < 1 then Some (CLI_OK, cli_print ''Specify a regular callback interval in seconds'' s)
        else
          (let s = s\<lparr>tm_sec := uint sec, tm_usec := 0\<rparr>
           in Some (CLI_OK, cli_print (''Regular callback interval is now '' @ dec_int (sint sec) @ '' seconds'') s)) }
      else Some (CLI_OK, cli_print (''Setting \"'' @ argv ! 0 @ ''\" to \"'' @ argv ! 1 @ ''\"'') s))"

definition cmd_config_int :: "string list \<Rightarrow> clitest \<Rightarrow> cmd_run" where
  "cmd_config_int argv s =
     (if length argv < 1 then Some (CLI_OK, cli_print ''Specify an interface to configure'' s)
      else
        (let s = (if argv ! 0 = ''?'' then cli_print ''  test0/0'' s
                  else if same_caseless (argv ! 0) ''test0/0'' then t_call (T_configmode MODE_CONFIG_INT (Some ''test'')) s
                  else cli_print (''Unknown interface '' @ argv ! 0) s)
         in Some (CLI_OK, s)))"

definition cmd_config_int_exit :: "clitest \<Rightarrow> cmd_run" where
  "cmd_config_int_exit s = Some (CLI_OK, t_call (T_configmode MODE_CONFIG None) s)"

definition cmd_show_regular :: "clitest \<Rightarrow> cmd_run" where
  "cmd_show_regular s = Some (CLI_OK, cli_print (''cli_regular() has run '' @ dec_nat (unat (regular_count s)) @ '' times'') s)"

definition cmd_debug_regular :: "clitest \<Rightarrow> cmd_run" where
  "cmd_debug_regular s =
     (let s = s\<lparr>debug_regular := (if debug_regular s = 0 then 1 else 0)\<rparr>
      in Some (CLI_OK, cli_print (''cli_regular() debugging is '' @ (if debug_regular s \<noteq> 0 then ''enabled'' else ''disabled'')) s))"

definition cmd_context :: "clitest \<Rightarrow> cmd_run" where
  "cmd_context s = do {
     c \<leftarrow> user_ctx s;
     Some (CLI_OK, cli_print (''User context has a value of '' @ dec_int (ctx_value c) @ '' and message saying '' @ ctx_message c) s) }"

definition check_auth :: "string \<Rightarrow> string \<Rightarrow> cli_status" where
  "check_auth username password =
     (if \<not> same_caseless username ''fred'' then CLI_ERROR
      else if \<not> same_caseless password ''nerk'' then CLI_ERROR
      else CLI_OK)"

definition regular_callback :: "clitest \<Rightarrow> cmd_run" where
  "regular_callback s =
     (let s = s\<lparr>regular_count := regular_count s + 1\<rparr>;
          s = (if debug_regular s \<noteq> 0
               then t_call T_reprompt (cli_print (''Regular callback - '' @ dec_nat (unat (regular_count s)) @ '' times so far'') s)
               else s)
      in Some (CLI_OK, s))"

definition check_enable :: "string \<Rightarrow> int" where
  "check_enable password = (if same_caseless password ''topsecret'' then 1 else 0)"

definition idle_timeout :: "clitest \<Rightarrow> cmd_run" where
  "idle_timeout s = Some (CLI_QUIT, cli_print ''Custom idle timeout'' s)"

definition pc :: "string \<Rightarrow> clitest \<Rightarrow> clitest" where
  "pc line s = t_call (T_printf (line @ newline)) s"

section \<open>The server\<close>

text \<open>The context of libcli with its banner, callbacks and commands, then the commands of the file.\<close>

definition clitest_setup :: "tenv \<Rightarrow> clitest \<Rightarrow> clitest" where
  "clitest_setup E s =
     (let s = t_call T_signal_ignore s;
          s = t_call T_cli_init s;
          s = t_call (T_set_banner ''libcli test environment'') s;
          s = t_call (T_set_hostname ''router'') s;
          s = t_call (T_telnet 1) s;
          s = t_call T_regular s;
          s = t_call (T_regular_interval 5) s;
          s = t_call (T_idle_timeout 60) s;
          s = t_call (T_register None ''test'' (Some Cmd_test) PRIVILEGE_UNPRIVILEGED MODE_EXEC None) s;
          s = t_call (T_register None ''simple'' None PRIVILEGE_UNPRIVILEGED MODE_EXEC None) s;
          s = t_call (T_register None ''simon'' None PRIVILEGE_UNPRIVILEGED MODE_EXEC None) s;
          s = t_call (T_register None ''set'' (Some Cmd_set) PRIVILEGE_PRIVILEGED MODE_EXEC None) s;
          (c, s) = t_ask E (T_register None ''show'' None PRIVILEGE_UNPRIVILEGED MODE_EXEC None) s;
          s = t_call (T_register (Some c) ''regular'' (Some Cmd_show_regular) PRIVILEGE_UNPRIVILEGED MODE_EXEC
                (Some ''Show the how many times cli_regular has run'')) s;
          s = t_call (T_register (Some c) ''counters'' (Some Cmd_test) PRIVILEGE_UNPRIVILEGED MODE_EXEC
                (Some ''Show the counters that the system uses'')) s;
          s = t_call (T_register (Some c) ''junk'' (Some Cmd_test) PRIVILEGE_UNPRIVILEGED MODE_EXEC None) s;
          s = t_call (T_register None ''interface'' (Some Cmd_config_int) PRIVILEGE_PRIVILEGED MODE_CONFIG
                (Some ''Configure an interface'')) s;
          s = t_call (T_register None ''exit'' (Some Cmd_config_int_exit) PRIVILEGE_PRIVILEGED MODE_CONFIG_INT
                (Some ''Exit from interface configuration'')) s;
          s = t_call (T_register None ''address'' (Some Cmd_test) PRIVILEGE_PRIVILEGED MODE_CONFIG_INT (Some ''Set IP address'')) s;
          (c, s) = t_ask E (T_register None ''debug'' None PRIVILEGE_UNPRIVILEGED MODE_EXEC None) s;
          s = t_call (T_register (Some c) ''regular'' (Some Cmd_debug_regular) PRIVILEGE_UNPRIVILEGED MODE_EXEC
                (Some ''Enable cli_regular() callback debugging'')) s;
          s = (t_call T_set_context s)\<lparr>user_ctx := Some \<lparr>ctx_value = 5, ctx_message = ''I contain user data!''\<rparr>\<rparr>;
          s = t_call (T_register None ''context'' (Some Cmd_context) PRIVILEGE_UNPRIVILEGED MODE_EXEC
                (Some ''Test a user-specified context'')) s;
          s = t_call T_set_auth s;
          s = t_call T_set_enable s;
          (fh, s) = t_ask E (T_fopen ''clitest.txt'' ''r'') s
      in if fh \<noteq> 0
         then t_call T_fclose (t_call (T_print_callback False) (t_call T_file (t_call (T_print_callback True) s)))
         else s)"

text \<open>The loop of the parent, and the child of a connection, which ends with it. A negative descriptor is
  not 0, so a failed \<^verbatim>\<open>accept\<close> is a connection like any other.\<close>

partial_function (option) accept_loop :: "tenv \<Rightarrow> int \<Rightarrow> clitest \<Rightarrow> (int \<times> clitest) option" where
  "accept_loop E sock s =
     (let (x, s) = t_ask E (T_accept sock) s
      in if x = 0 then Some (0, t_call T_done s)
         else
           (let (pid, s) = t_ask E T_fork s
            in if pid < 0 then Some (1, t_call (T_perror ''fork'') s)
               else if pid > 0 then
                 (let (r, s') = t_ask E (T_getpeername x) s;
                      s' = (if r \<ge> 0 then t_call (T_printf ('' * accepted connection from '' @ inet_ntoa (t_peer E (t_hist s)) @ newline)) s'
                            else s')
                  in accept_loop E sock (t_call (T_close x) s'))
               else Some (0, t_call (T_loop x) (t_call (T_close sock) s))))"

definition clitest_main :: "tenv \<Rightarrow> clitest \<Rightarrow> (int \<times> clitest) option" where
  "clitest_main E s =
     (let (sock, s) = t_ask E T_socket (clitest_setup E s)
      in if sock < 0 then Some (1, t_call (T_perror ''socket'') s)
         else
           (let s = t_call (T_reuseaddr sock) s;
                (r, s) = t_ask E (T_bind sock (htons (word_of_int CLITEST_PORT))) s
            in if r < 0 then Some (1, t_call (T_perror ''bind'') s)
               else
                 (let (r, s) = t_ask E (T_listen sock 50) s
                  in if r < 0 then Some (1, t_call (T_perror ''listen'') s)
                     else accept_loop E sock (t_call (T_printf (''Listening on port '' @ dec_int CLITEST_PORT @ newline)) s))))"

section \<open>The interval of the regular callback\<close>

lemma is_digit_digit: "n < 10 \<Longrightarrow> is_digit (digit n)"
  by (simp add: is_digit_def digit_def)

lemma dec_nat_digits: "c \<in> set (dec_nat n) \<Longrightarrow> is_digit c"
  by (induction n rule: dec_nat.induct) (subst (asm) (2) dec_nat.simps, auto simp: is_digit_digit split: if_splits)

lemma digit_not_space: "is_digit c \<Longrightarrow> \<not> is_space c \<and> c \<noteq> CHR ''-'' \<and> c \<noteq> CHR ''+''"
  by (auto simp: is_digit_def is_space_def)

lemma digits_of_dec_nat:
  "dropWhile is_space (dec_nat n) = dec_nat n" "digits_of (dec_nat n) = dec_nat n" "hd (dec_nat n) \<noteq> CHR ''-''"
  "dropWhile is_space (CHR ''-'' # dec_nat n) = CHR ''-'' # dec_nat n" "digits_of (CHR ''-'' # dec_nat n) = dec_nat n"
proof -
  obtain c t where c: "dec_nat n = c # t" by (metis dec_nat_nonempty neq_Nil_conv)
  with dec_nat_digits [of _ n] have "is_digit c" "\<And>d. d \<in> set (dec_nat n) \<Longrightarrow> is_digit d" by auto
  with digit_not_space [of c] c
  show "dropWhile is_space (dec_nat n) = dec_nat n" "digits_of (dec_nat n) = dec_nat n" "hd (dec_nat n) \<noteq> CHR ''-''"
    "dropWhile is_space (CHR ''-'' # dec_nat n) = CHR ''-'' # dec_nat n" "digits_of (CHR ''-'' # dec_nat n) = dec_nat n"
    by (auto simp: digits_of_def is_space_def takeWhile_eq_all_conv)
qed

lemma sscanf_dec:
  "sscanf_u (dec_nat n) old = (if 2 ^ 32 \<le> n then None else Some (word_of_nat n))"
  "sscanf_u (CHR ''-'' # dec_nat n) old = (if 2 ^ 32 \<le> n then None else Some (- word_of_nat n))"
  using digits_of_dec_nat [of n] by (simp_all add: sscanf_u_def Let_def dec_val_dec_nat)

lemma dec_nat_not_question: "dec_nat n \<noteq> ''?''"
  using dec_nat_digits [of "CHR ''?''" n] by (auto simp: is_digit_def)

text \<open>The interval of the regular callback is the given number, when that is a positive 32-bit number. A negative
  number is taken modulo 2 to the 32: the command accepts it, sets an interval of over a
  century for -1, and shows -1. From 2 to the 31 on it shows a negative number; 0 is refused.\<close>

theorem set_interval:
  assumes "0 < n" and "n < 2 ^ 32"
  shows "\<exists>u v. cmd_set [''regular_interval'', dec_nat n] s = Some (CLI_OK, u) \<and> tm_sec u = int n \<and> tm_usec u = 0 \<and>
     t_hist u = T_print (''Regular callback interval is now '' @
       dec_int (if n < 2 ^ 31 then int n else int n - 2 ^ 32) @ '' seconds'') # t_hist s \<and>
     cmd_set [''regular_interval'', CHR ''-'' # dec_nat n] s = Some (CLI_OK, v) \<and> tm_sec v = 2 ^ 32 - int n \<and>
     (\<exists>w. cmd_set [''regular_interval'', ''0''] s = Some (CLI_OK, w) \<and> tm_sec w = tm_sec s)"
proof -
  let ?n = "word_of_nat n :: u32"
  have un: "unat ?n = n" using assms(2) by (simp add: unat_of_nat take_bit_nat_eq_self)
  then have n: "uint ?n = int n" by (metis uint_nat)
  have ne: "?n \<noteq> 0" using un assms(1) by auto
  have "uint (- ?n) = 2 ^ 32 - int n" using uint_word_ariths(4) [of ?n] n assms by (simp add: zmod_zminus1_eq_if)
  moreover have "\<not> ?n < 1" "\<not> - ?n < 1" using ne by (simp_all add: word_less_1)
  moreover have "sint ?n = (if n < 2 ^ 31 then int n else int n - 2 ^ 32)"
  proof -
    have "sint ?n = (uint ?n + 2 ^ 31) mod 2 ^ 32 - 2 ^ 31"
      unfolding sint_uint by (simp add: signed_take_bit_eq_take_bit_shift take_bit_eq_mod)
    moreover have "(int n + 2 ^ 31) mod 2 ^ 32 = (if n < 2 ^ 31 then int n + 2 ^ 31 else int n - 2 ^ 31)"
      using assms(2) mod_add_self2 [of "int n - 2 ^ 31" "2 ^ 32"] by (auto simp: add.commute)
    ultimately show ?thesis by (simp add: n)
  qed
  moreover have "sscanf_u ''0'' 0 = Some 0" by (simp add: sscanf_u_def digits_of_def is_space_def is_digit_def dec_val_def digit_val_def)
  ultimately show ?thesis
    using n sscanf_dec [of n 0] assms dec_nat_not_question [of n] by (simp add: cmd_set_def cli_print_def t_call_def)
qed

section \<open>The loop that forks\<close>

text \<open>What the parent does for a connection, if it goes on, and a number of such rounds.\<close>

definition parent_round :: "tenv \<Rightarrow> int \<Rightarrow> clitest \<Rightarrow> clitest option" where
  "parent_round E sock s =
     (let (x, s) = t_ask E (T_accept sock) s; (pid, s) = t_ask E T_fork s; (r, s') = t_ask E (T_getpeername x) s
      in if x = 0 \<or> pid \<le> 0 then None
         else Some (t_call (T_close x) (if r \<ge> 0
            then t_call (T_printf ('' * accepted connection from '' @ inet_ntoa (t_peer E (t_hist s)) @ newline)) s' else s')))"

primrec rounds :: "tenv \<Rightarrow> int \<Rightarrow> nat \<Rightarrow> clitest \<Rightarrow> clitest option" where
  "rounds E sock 0 s = Some s"
| "rounds E sock (Suc n) s = Option.bind (parent_round E sock s) (rounds E sock n)"

text \<open>The last time round: the end, a failed \<^verbatim>\<open>fork\<close>, or the child.\<close>

definition last_round :: "tenv \<Rightarrow> int \<Rightarrow> clitest \<Rightarrow> int \<times> clitest" where
  "last_round E sock s =
     (let (x, s) = t_ask E (T_accept sock) s
      in if x = 0 then (0, t_call T_done s)
         else let (pid, s) = t_ask E T_fork s
           in if pid < 0 then (1, t_call (T_perror ''fork'') s) else (0, t_call (T_loop x) (t_call (T_close sock) s)))"

lemma accept_loop_body:
  "(let (x, s) = t_ask E (T_accept sock) s
      in if x = 0 then Some (0, t_call T_done s)
         else
           (let (pid, s) = t_ask E T_fork s
            in if pid < 0 then Some (1, t_call (T_perror ''fork'') s)
               else if pid > 0 then
                 (let (r, s') = t_ask E (T_getpeername x) s;
                      s' = (if r \<ge> 0 then t_call (T_printf ('' * accepted connection from '' @ inet_ntoa (t_peer E (t_hist s)) @ newline)) s'
                            else s')
                  in f E sock (t_call (T_close x) s'))
               else Some (0, t_call (T_loop x) (t_call (T_close sock) s)))) =
   (case parent_round E sock s of None \<Rightarrow> Some (last_round E sock s) | Some u \<Rightarrow> f E sock u)"
  by (auto simp: parent_round_def last_round_def Let_def split_beta)

lemma accept_loop_step:
  "accept_loop E sock s = (case parent_round E sock s of None \<Rightarrow> Some (last_round E sock s) | Some u \<Rightarrow> accept_loop E sock u)"
  by (subst accept_loop.simps) (rule accept_loop_body)

lemma accept_loop_rounds: "rounds E sock n s = Some u \<Longrightarrow> accept_loop E sock s = accept_loop E sock u"
proof (induction n arbitrary: s)
  case (Suc n)
  then obtain v where "parent_round E sock s = Some v" "accept_loop E sock v = accept_loop E sock u" by (auto elim!: bind_SomeE)
  then show ?case by (subst accept_loop_step) simp
qed simp

lemma accept_loop_ends:
  assumes run: "accept_loop E sock s = Some r"
  shows "\<exists>n u. rounds E sock n s = Some u \<and> parent_round E sock u = None \<and> r = last_round E sock u"
proof (rule accept_loop.raw_induct [where P = "\<lambda>E sock s r. \<exists>n u. rounds E sock n s = Some u \<and> parent_round E sock u = None \<and> r = last_round E sock u",
    OF _ run], goal_cases)
  case (1 f E sock s r)
  note body = 1(2) [unfolded accept_loop_body]
  show ?case
  proof (cases "parent_round E sock s")
    case None
    with body show ?thesis by (intro exI [of _ 0] exI [of _ s]) simp
  next
    case (Some v)
    with body have "f E sock v = Some r" by simp
    from 1(1) [OF this] obtain n u where "rounds E sock n v = Some u \<and> parent_round E sock u = None \<and> r = last_round E sock u" by blast
    with Some show ?thesis by (intro exI [of _ "Suc n"] exI [of _ u]) simp
  qed
qed

definition forks :: "clitest \<Rightarrow> nat" where
  "forks s = length (filter (\<lambda>k. k = T_fork) (t_hist s))"

definition closes :: "clitest \<Rightarrow> nat" where
  "closes s = length (filter (\<lambda>k. case k of T_close x \<Rightarrow> True | _ \<Rightarrow> False) (t_hist s))"

lemma parent_round_counts: "parent_round E sock s = Some u \<Longrightarrow> forks u = Suc (forks s) \<and> closes u = Suc (closes s)"
  by (auto simp: parent_round_def t_ask_def t_call_def Let_def forks_def closes_def split: if_splits)

lemma rounds_counts: "rounds E sock n s = Some u \<Longrightarrow> forks u = forks s + n \<and> closes u = closes s + n"
  by (induction n arbitrary: s) (auto elim!: bind_SomeE dest!: parent_round_counts)

lemma rounds_all:
  assumes "\<And>s. parent_round E sock s \<noteq> None"
  shows "\<exists>u. rounds E sock n s = Some u"
proof (induction n arbitrary: s)
  case (Suc n)
  from assms [of s] obtain v where "parent_round E sock s = Some v" by auto
  with Suc [of v] show ?case by simp
qed simp

text \<open>A run of the accept loop ends exactly when, after some number of connections whose descriptors the
  parent has closed again, \<^verbatim>\<open>accept\<close> answers 0, \<^verbatim>\<open>fork\<close> fails, or the process is the child, which serves
  its connection and ends.\<close>

theorem accept_loop_runs:
  "accept_loop E sock s = Some r \<longleftrightarrow>
     (\<exists>n u. rounds E sock n s = Some u \<and> forks u = forks s + n \<and> closes u = closes s + n \<and>
        parent_round E sock u = None \<and> r = last_round E sock u)"
proof
  assume "accept_loop E sock s = Some r"
  from accept_loop_ends [OF this] show "\<exists>n u. rounds E sock n s = Some u \<and> forks u = forks s + n \<and> closes u = closes s + n \<and>
        parent_round E sock u = None \<and> r = last_round E sock u"
    using rounds_counts by blast
next
  assume "\<exists>n u. rounds E sock n s = Some u \<and> forks u = forks s + n \<and> closes u = closes s + n \<and>
        parent_round E sock u = None \<and> r = last_round E sock u"
  then obtain n u where u: "rounds E sock n s = Some u" "parent_round E sock u = None" "r = last_round E sock u" by blast
  from accept_loop_rounds [OF u(1)] u(2,3) show "accept_loop E sock s = Some r" by (simp add: accept_loop_step [of E sock u])
qed

text \<open>C39. When \<^verbatim>\<open>accept\<close> keeps failing, its answer -1 is taken for a connection: the server never returns and
  makes one child process after the other, as long as \<^verbatim>\<open>fork\<close> succeeds.\<close>

theorem accept_failure_forks:
  assumes "\<And>h. t_int E h (T_accept sock) = - 1" and "\<And>h. 0 < t_int E h T_fork"
  shows "accept_loop E sock s = None \<and> (\<forall>n. \<exists>u. rounds E sock n s = Some u \<and> forks u = forks s + n)"
proof -
  have round: "parent_round E sock u \<noteq> None" for u
    using assms by (simp add: parent_round_def t_ask_def Let_def not_le)
  have "accept_loop E sock s = None"
  proof (rule ccontr)
    assume "accept_loop E sock s \<noteq> None"
    then obtain r where "accept_loop E sock s = Some r" by blast
    from accept_loop_ends [OF this] round show False by blast
  qed
  with rounds_all [OF round] rounds_counts show ?thesis by blast
qed

text \<open>A state and environments for the witnesses.\<close>

definition demo_clitest :: clitest where
  "demo_clitest = \<lparr>regular_count = 0, debug_regular = 0, tm_sec = 5, tm_usec = 0, user_ctx = None, t_hist = []\<rparr>"

theorem set_interval_witness:
  "\<exists>v. cmd_set [''regular_interval'', CHR ''-'' # dec_nat 1] demo_clitest = Some (CLI_OK, v) \<and> tm_sec v = 4294967295"
  using set_interval [of 1 demo_clitest] by auto

theorem accept_failure_forks_witness:
  "accept_loop \<lparr>t_int = (\<lambda>h k. case k of T_accept x \<Rightarrow> - 1 | _ \<Rightarrow> 7), t_peer = (\<lambda>h. (127, 0, 0, 1))\<rparr> 3 demo_clitest = None"
  using accept_failure_forks [of "\<lparr>t_int = (\<lambda>h k. case k of T_accept x \<Rightarrow> - 1 | _ \<Rightarrow> 7), t_peer = (\<lambda>h. (127, 0, 0, 1))\<rparr>" 3]
  by simp

end
