(* ===== verification/Es_Answer.thy ===== *)
theory Es_Answer
  imports Es_Osip_Loop
begin

text \<open>
  What the SIP stack answers: the whole sequence of calls of a response, the answers that the
  message callback of libosip2 gives, and the messages it does not answer. The calls stand in
  the order of the history, the latest first.
\<close>

section \<open>A response\<close>

definition clones_succeed :: "env \<Rightarrow> bool" where
  "clones_succeed E \<longleftrightarrow> (\<forall>v h q. e_int E v (Omsg (M_hdr_clone h q)) = 0) \<and> (\<forall>v. e_int E v (Omsg M_init) = 0)"

lemma clones_succeedD:
  assumes "clones_succeed E"
  shows "hdr_clone E h q w = Some ((0, Some (brk w)), new_cell (C_hdr h) (did (Omsg (M_hdr_clone h q)) w))"
    and "ext_new_st E (Omsg M_init) x w = Some ((0, Some (brk w)), new_cell x (did (Omsg M_init) w))"
  using assms by (simp_all add: clones_succeed_def hdr_clone_def ext_new_st_def)

text \<open>The calls for the tag of the To header: one is there, or a random one is made.\<close>

definition tag_calls :: "cptr \<Rightarrow> call list \<Rightarrow> bool" where
  "tag_calls to cs \<longleftrightarrow> cs = [Omsg (M_to_get_tag to)] \<or>
     (\<exists>n :: u32. cs = [Omsg (M_to_set_tag to (dec_int (sint n))), Omsg M_random, Omsg (M_to_get_tag to)])"

definition name_calls :: "cptr \<Rightarrow> call list" where
  "name_calls p = [Omsg (M_set_server p (PACKAGE_STRING @ '' Server'')), Omsg (M_set_subject p (''Testing with '' @ PACKAGE_STRING)),
     Omsg (M_set_organization p PACKAGE_STRING), Omsg (M_set_user_agent p PACKAGE)]"

definition via_calls :: "ptr list \<Rightarrow> call list" where
  "via_calls vs = rev (map (\<lambda>v. Omsg (M_hdr_clone Hdr_via (Some v))) vs)"

definition start_calls :: "env \<Rightarrow> ptr \<Rightarrow> int \<Rightarrow> osip_message_s \<Rightarrow> call list" where
  "start_calls E b code rq = [Omsg (M_hdr_clone Hdr_to (m_to rq)), Omsg (M_hdr_clone Hdr_from (m_from rq)),
     Omsg (M_set_reason (Some b) (e_reason E code)), Omsg (M_set_status (Some b) code),
     Omsg (M_set_max_forwards (Some b) ''70''), Omsg (M_set_version (Some b) ''SIP/2.0''), Omsg M_init]"

text \<open>All calls of a response at \<open>b\<close>, with those for the tag.\<close>

definition response_calls :: "env \<Rightarrow> ptr \<Rightarrow> int \<Rightarrow> osip_message_s \<Rightarrow> call list \<Rightarrow> call list" where
  "response_calls E b code rq ts = name_calls (Some b) @ via_calls (m_vias rq) @
     [Omsg (M_hdr_clone Hdr_call_id (m_call_id rq)), Omsg (M_hdr_clone Hdr_cseq (m_cseq rq))] @ ts @ start_calls E b code rq"

text \<open>And the message that they make.\<close>

definition response_at :: "ptr \<Rightarrow> nat \<Rightarrow> osip_message_s" where
  "response_at b n = \<lparr>m_from = Some (b + 1), m_to = Some (b + 2), m_cseq = Some (b + 3), m_call_id = Some (b + 4),
     m_vias = [b + 5 ..< b + 5 + n]\<rparr>"

lemma set_to_tag_succeeds:
  "\<exists>ts. set_to_tag E (Some h) w = Some (w\<lparr>hist := ts @ hist w\<rparr>) \<and> tag_calls (Some h) ts"
proof (cases "e_ptr E w (Omsg (M_to_get_tag (Some h)))")
  case None
  then show ?thesis
    by (intro exI [of _ "[Omsg (M_to_set_tag (Some h) (dec_int (sint (word_of_int
          (e_int E (did (Omsg (M_to_get_tag (Some h))) w) (Omsg M_random)) :: u32)))), Omsg M_random, Omsg (M_to_get_tag (Some h))]"])
      (simp add: set_to_tag_def call_simps ext_ptr_def tag_calls_def did_def Let_def, rule exI, rule refl)
next
  case (Some t)
  then show ?thesis
    by (intro exI [of _ "[Omsg (M_to_get_tag (Some h))]"]) (simp add: set_to_tag_def ext_ptr_def tag_calls_def did_def)
qed

lemma l_add_end:
  assumes "osip_list_laws E" and "list_accepts E"
  shows "snd (l_add E w xs (Some a) (- 1)) = xs @ [a]"
  using osip_list_lawsD(6) [OF assms(1), of w xs a] assms(2) by (simp add: list_accepts_def not_less [symmetric])

lemma copy_vias_succeeds:
  assumes laws: "osip_list_laws E" "list_accepts E" "clones_succeed E"
  shows "i \<le> length (m_vias rq) \<Longrightarrow> heap v r = Some (C_sip rq) \<Longrightarrow> heap v b = Some (C_sip m) \<Longrightarrow> r \<noteq> b \<Longrightarrow> r < brk v \<Longrightarrow> b < brk v \<Longrightarrow>
    \<exists>v'. copy_vias E (Some r) (int i) b v = Some (True, v') \<and> hist v' = via_calls (drop i (m_vias rq)) @ hist v \<and>
      brk v' = brk v + (length (m_vias rq) - i) \<and>
      heap v' b = Some (C_sip (m\<lparr>m_vias := m_vias m @ [brk v ..< brk v'] \<rparr>)) \<and> (\<forall>y < brk v. y \<noteq> b \<longrightarrow> heap v' y = heap v y)"
proof (induction "length (m_vias rq) - i" arbitrary: i m v)
  case 0
  then show ?case
    by (subst copy_vias.simps)
      (simp add: sip_cell.load_heap [OF 0(3)] osip_list_lawsD(2) [OF laws(1)] via_calls_def)
next
  case (Suc n)
  then have i: "i < length (m_vias rq)" by simp
  let ?q = "m_vias rq ! i" and ?m = "m\<lparr>m_vias := m_vias m @ [brk v]\<rparr>"
  let ?v1 = "new_cell (C_hdr Hdr_via) (did (Omsg (M_hdr_clone Hdr_via (Some ?q))) v)"
  let ?v2 = "put b (C_sip ?m) ?v1"
  have get: "l_get E (m_vias rq) (int i) = Some ?q" "\<not> l_eol E (m_vias rq) (int i)"
    using i by (simp_all add: osip_list_lawsD(2,3) [OF laws(1)])
  have "heap ?v1 b = Some (C_sip m)" using Suc.prems(3,6) by simp
  then have step: "copy_vias E (Some r) (int i) b v = copy_vias E (Some r) (int (Suc i)) b ?v2"
    using Suc.prems(2)
    by (subst copy_vias.simps)
      (simp add: sip_cell.load_heap get clones_succeedD(1) [OF laws(3)] l_add_end [OF laws(1,2)] add.commute Let_def)
  have n: "n = length (m_vias rq) - Suc i" "Suc i \<le> length (m_vias rq)" using Suc.hyps(2) i by linarith+
  have h2: "heap ?v2 r = Some (C_sip rq)" "heap ?v2 b = Some (C_sip ?m)" "r < brk ?v2" "b < brk ?v2"
    using Suc.prems(2,4-6) by auto
  from Suc.hyps(1) [OF n h2(1,2) Suc.prems(4) h2(3,4)] obtain v' where
    v': "copy_vias E (Some r) (int (Suc i)) b ?v2 = Some (True, v')" "hist v' = via_calls (drop (Suc i) (m_vias rq)) @ hist ?v2"
      "brk v' = brk ?v2 + (length (m_vias rq) - Suc i)"
      "heap v' b = Some (C_sip (?m\<lparr>m_vias := m_vias ?m @ [brk ?v2 ..< brk v']\<rparr>))" "\<forall>y < brk ?v2. y \<noteq> b \<longrightarrow> heap v' y = heap ?v2 y"
    by blast
  have "drop i (m_vias rq) = ?q # drop (Suc i) (m_vias rq)" using i by (simp add: Cons_nth_drop_Suc)
  then have "hist v' = via_calls (drop i (m_vias rq)) @ hist v" using v'(2) by (simp add: via_calls_def)
  moreover have "[brk v ..< brk v'] = brk v # [Suc (brk v) ..< brk v']" using v'(3) by (simp add: upt_conv_Cons)
  ultimately show ?case using v' step i by simp
qed

text \<open>The whole construction. \<open>w\<close> has a complete request at \<open>r\<close>.\<close>

lemma response_run:
  assumes laws: "osip_list_laws E" "list_accepts E" "clones_succeed E" and ok: "heap_ok w"
    and r: "heap w r = Some (C_sip rq)" "m_to rq \<noteq> None" "m_from rq \<noteq> None" and code: "0 < code"
  shows "\<exists>w' ts. es_msg_initResponse E code (Some r) w = Some ((ES_OK, Some (brk w)), w') \<and> tag_calls (Some (brk w + 2)) ts \<and>
    hist w' = response_calls E (brk w) code rq ts @ hist w \<and> load as_sip (Some (brk w)) w' = Some (response_at (brk w) (length (m_vias rq))) \<and>
    brk w' = brk w + 5 + length (m_vias rq) \<and> (\<forall>y < brk w. heap w' y = heap w y)"
proof -
  let ?b = "brk w"
  have lt: "r < ?b" by (rule heap_ok_live [OF ok r(1)])
  define v where "v = new_cell (C_hdr Hdr_to) (did (Omsg (M_hdr_clone Hdr_to (m_to rq))) (put ?b (C_sip (empty_message\<lparr>m_from := Some (Suc ?b)\<rparr>))
     (new_cell (C_hdr Hdr_from) (did (Omsg (M_hdr_clone Hdr_from (m_from rq))) (did (Omsg (M_set_reason (Some ?b) (e_reason E code)))
       (did (Omsg (M_set_status (Some ?b) code)) (did (Omsg (M_set_max_forwards (Some ?b) ''70'')) (did (Omsg (M_set_version (Some ?b) ''SIP/2.0''))
         (new_cell (C_sip empty_message) (did (Omsg M_init) w))))))))))"
  define m where "m = empty_message\<lparr>m_from := Some (Suc ?b), m_to := Some (Suc (Suc ?b))\<rparr>"
  have v: "hist v = start_calls E ?b code rq @ hist w" "brk v = Suc (Suc (Suc ?b))" "heap v r = Some (C_sip rq)"
    using lt r by (simp_all add: v_def start_calls_def)
  let ?v = "put ?b (C_sip m) v"
  from set_to_tag_succeeds [of E "Suc (Suc ?b)" ?v] obtain ts where
    ts: "set_to_tag E (Some (Suc (Suc ?b))) ?v = Some (?v\<lparr>hist := ts @ hist ?v\<rparr>)" "tag_calls (Some (Suc (Suc ?b))) ts" by blast
  define u where "u = ?v\<lparr>hist := ts @ hist ?v\<rparr>"
  define u2 where "u2 = put ?b (C_sip (m\<lparr>m_cseq := Some (brk u), m_call_id := Some (Suc (brk u))\<rparr>))
     (new_cell (C_hdr Hdr_call_id) (did (Omsg (M_hdr_clone Hdr_call_id (m_call_id rq)))
       (put ?b (C_sip (m\<lparr>m_cseq := Some (brk u)\<rparr>)) (new_cell (C_hdr Hdr_cseq) (did (Omsg (M_hdr_clone Hdr_cseq (m_cseq rq))) u)))))"
  have u: "hist u = ts @ start_calls E ?b code rq @ hist w" "brk u = ?b + 3" "heap u r = Some (C_sip rq)"
    using v lt by (simp_all add: u_def)
  have u2: "heap u2 r = Some (C_sip rq)" "heap u2 ?b = Some (C_sip (m\<lparr>m_cseq := Some (?b + 3), m_call_id := Some (?b + 4)\<rparr>))"
    "brk u2 = ?b + 5" "hist u2 = [Omsg (M_hdr_clone Hdr_call_id (m_call_id rq)), Omsg (M_hdr_clone Hdr_cseq (m_cseq rq))] @ hist u"
    using u lt by (auto simp: u2_def)
  from copy_vias_succeeds [OF laws, of 0 rq u2 r ?b] u2 lt obtain v' where
    v': "copy_vias E (Some r) 0 ?b u2 = Some (True, v')" "hist v' = via_calls (m_vias rq) @ hist u2" "brk v' = ?b + 5 + length (m_vias rq)"
      "heap v' ?b = Some (C_sip (m\<lparr>m_cseq := Some (?b + 3), m_call_id := Some (?b + 4), m_vias := [?b + 5 ..< brk v']\<rparr>))"
      "\<forall>y < brk u2. y \<noteq> ?b \<longrightarrow> heap v' y = heap u2 y"
    by (auto simp: m_def empty_message_def)
  have "set_status E p code x = Some (did (Omsg (M_set_reason p (e_reason E code))) (did (Omsg (M_set_status p code)) x))" for p x
    using code by (simp add: set_status_def call_simps)
  note eval = clones_succeedD [OF laws(3)] sip_cell.load_heap this call_simps
  have "response_headers E code (Some r) rq ?b (new_cell (C_sip empty_message) (did (Omsg M_init) w)) =
      do { w \<leftarrow> set_names (Some ?b) v'; Some ((ES_OK, Some ?b), w) }"
    using ts(1) v'(1) [unfolded u2_def u_def, simplified]
    by (simp add: response_headers_def eval Let_def flip: v_def m_def)
  then have "es_msg_initResponse E code (Some r) w = do { w \<leftarrow> set_names (Some ?b) v'; Some ((ES_OK, Some ?b), w) }"
    using r by (cases "m_to rq"; cases "m_from rq") (simp_all add: es_msg_initResponse_def eval)
  moreover obtain w' where w': "set_names (Some ?b) v' = Some w'" "hist w' = name_calls (Some ?b) @ hist v'" "heap w' = heap v'" "brk w' = brk v'"
    by (simp add: set_names_def call_simps name_calls_def)
  moreover have "load as_sip (Some ?b) w' = Some (response_at ?b (length (m_vias rq)))"
    using w'(3) v'(3,4) by (simp add: sip_cell.load_heap response_at_def m_def empty_message_def)
  moreover have "heap w' y = heap w y" if "y < ?b" for y
    using that w'(3) v'(5) by (simp add: u2(3)) (simp add: u2_def u_def v_def)
  ultimately show ?thesis using ts(2) v'(2,3) u2(4) u(1)
    by (intro exI [of _ w'] exI [of _ ts]) (simp add: response_calls_def)
qed

text \<open>C22. When no call fails, a response to a complete request is made by exactly these calls, in this
  order: the message, its status line, From, To, the tag of To (one is asked for, and made from a
  random number when there is none), CSeq and Call-ID, the Via headers from the first to the last,
  and the four names. The response has the copies, the Via headers in the order of the request; no
  block that was there before changes.\<close>

theorem response_sequence:
  assumes "osip_list_laws E" and "list_accepts E" and "clones_succeed E" and "heap_ok w"
    and "load as_sip (Some r) w = Some rq" and "m_to rq \<noteq> None" and "m_from rq \<noteq> None" and "0 < code"
  shows "\<exists>w' ts. es_msg_initResponse E code (Some r) w = Some ((ES_OK, Some (brk w)), w') \<and> tag_calls (Some (brk w + 2)) ts \<and>
    hist w' = response_calls E (brk w) code rq ts @ hist w \<and> load as_sip (Some (brk w)) w' = Some (response_at (brk w) (length (m_vias rq))) \<and>
    (\<forall>y. heap w y \<noteq> None \<longrightarrow> heap w' y = heap w y)"
proof -
  have "y < brk w" if "heap w y \<noteq> None" for y using heap_ok_live [OF assms(4), of y] that by auto
  with response_run [OF assms(1-4) _ assms(6-8)] assms(5) show ?thesis by (fastforce simp: sip_cell.load_iff)
qed

section \<open>An answer\<close>

text \<open>The calls with which the loop is woken succeed.\<close>

definition wakes :: "env \<Rightarrow> bool" where
  "wakes E \<longleftrightarrow> (\<forall>v b x. e_ok E v (Lev (Ev_new b (- 1) EV_READ F_es_osip_loop x))) \<and> (\<forall>v p. e_int E v (Lev (Ev_add p)) = 0)"

lemma wakeup_succeeds:
  assumes laws: "osip_list_laws E" "list_front_accepts E" "wakes E" and ok: "heap_ok w" and a: "heap w a = Some (C_osip s)"
  shows "\<exists>w'. es_osip_wakeup E (Some a) w = Some (ES_OK, w') \<and> hist w' = wake_calls a s (brk w) @ hist w \<and> brk w' = Suc (brk w) \<and>
    heap w' = (heap w)(brk w \<mapsto> C_event (wake_event a s), a \<mapsto> C_osip (s\<lparr>pendingEv := brk w # pendingEv s\<rparr>))"
proof -
  from es_osip_wakeup_defined [OF ok a, of E] obtain st w' where run: "es_osip_wakeup E (Some a) w = Some (st, w')" by auto
  moreover have "st = ES_OK"
    using run laws(3) heap_ok_live [OF ok a]
    by (auto simp: es_osip_wakeup_def esip_trace_eval osip_cell.load_heap [OF a] ev_new_def ext_new_def ev_priority_set_def
      ev_add_def ev_active_def call_simps Let_def live_event_iff bind_if wakes_def split: if_splits)
  ultimately show ?thesis
    using es_osip_wakeup_result [OF laws(1) ok a run] laws(2)
    by (auto simp: woken_def front_refused_def list_front_accepts_def not_less [symmetric])
qed

text \<open>What the answer relies on: every call of libosip2 and of libevent succeeds.\<close>

definition answering :: "env \<Rightarrow> bool" where
  "answering E \<longleftrightarrow> osip_list_laws E \<and> list_accepts E \<and> list_front_accepts E \<and> clones_succeed E \<and> wakes E \<and>
     (\<forall>v q. e_ok E v (Osip (O_new_outgoing q)))"

text \<open>The calls of an answer whose response is made at \<open>b\<close>: the response, its event, the wake-up.\<close>

definition answer_event :: "ptr \<Rightarrow> osip_message_s \<Rightarrow> ptr" where
  "answer_event b rq = b + 5 + length (m_vias rq)"

definition answer_calls :: "env \<Rightarrow> ptr \<Rightarrow> es_osip_s \<Rightarrow> cptr \<Rightarrow> ptr \<Rightarrow> osip_message_s \<Rightarrow> call list \<Rightarrow> call list" where
  "answer_calls E a s tr b rq ts = wake_calls a s (Suc (answer_event b rq)) @
     [Osip (O_tr_add_event tr (Some (answer_event b rq))), Osip (O_new_outgoing (Some b))] @ response_calls E b SIP_OK rq ts"

text \<open>And what they leave: the response, the event with it, and the context with one wake-up more.\<close>

definition answered :: "ptr \<Rightarrow> es_osip_s \<Rightarrow> ptr \<Rightarrow> osip_message_s \<Rightarrow> world \<Rightarrow> bool" where
  "answered a s b rq w' \<longleftrightarrow> load as_sip (Some b) w' = Some (response_at b (length (m_vias rq))) \<and>
     load as_evt (Some (answer_event b rq)) w' = Some \<lparr>evt_type = EVT_OTHER, evt_sip = Some b\<rparr> \<and>
     load as_event (Some (Suc (answer_event b rq))) w' = Some (wake_event a s) \<and>
     load as_osip (Some a) w' = Some (s\<lparr>pendingEv := Suc (answer_event b rq) # pendingEv s\<rparr>)"

lemma respond_answers:
  assumes E: "answering E" and ok: "heap_ok w" and a: "heap w a = Some (C_osip s)"
    and r: "heap w r = Some (C_sip rq)" "m_to rq \<noteq> None" "m_from rq \<noteq> None"
  shows "\<exists>w' ts. do { (resp, w) \<leftarrow> make_response E line (Some r) w; if resp = None then Some w else queue_response E a tr resp w } = Some w' \<and>
    tag_calls (Some (brk w + 2)) ts \<and> hist w' = answer_calls E a s tr (brk w) rq ts @ hist w \<and> answered a s (brk w) rq w'"
proof -
  from E have laws: "osip_list_laws E" "list_accepts E" "clones_succeed E" and wk: "list_front_accepts E" "wakes E"
    and new: "\<And>v q. e_ok E v (Osip (O_new_outgoing q))" by (auto simp: answering_def)
  let ?b = "brk w" and ?e = "answer_event (brk w) rq"
  have lt: "a < ?b" by (rule heap_ok_live [OF ok a])
  from response_run [OF laws ok r, of SIP_OK] obtain v ts where
    run: "es_msg_initResponse E SIP_OK (Some r) w = Some ((ES_OK, Some ?b), v)" and ts: "tag_calls (Some (?b + 2)) ts" and
    v: "hist v = response_calls E ?b SIP_OK rq ts @ hist w" "load as_sip (Some ?b) v = Some (response_at ?b (length (m_vias rq)))"
      "brk v = ?e" "\<forall>y < ?b. heap v y = heap w y"
    by (auto simp: SIP_OK_def answer_event_def)
  let ?u = "did (Osip (O_tr_add_event tr (Some ?e))) (new_cell (C_evt \<lparr>evt_type = EVT_OTHER, evt_sip = Some ?b\<rparr>) (did (Osip (O_new_outgoing (Some ?b))) v))"
  have "keeps w v" by (rule es_msg_initResponse_keeps [OF laws(1) ok r run])
  with ok have okv: "heap_ok v" by (simp add: keeps_def)
  then have oku: "heap_ok ?u" by (simp add: heap_ok_keep)
  have be: "?b < ?e" by (simp add: answer_event_def)
  have u: "heap ?u a = Some (C_osip s)" "brk ?u = Suc ?e" using v(3,4) a lt be by simp_all
  from wakeup_succeeds [OF laws(1) wk oku u(1)] obtain w' where
    w': "es_osip_wakeup E (Some a) ?u = Some (ES_OK, w')" "hist w' = wake_calls a s (Suc ?e) @ hist ?u"
      "heap w' = (heap ?u)(Suc ?e \<mapsto> C_event (wake_event a s), a \<mapsto> C_osip (s\<lparr>pendingEv := Suc ?e # pendingEv s\<rparr>))"
    unfolding u(2) by blast
  have "queue_response E a tr (Some ?b) v = Some w'"
    using w'(1) v(3) by (simp add: queue_response_def ext_new_def new call_simps)
  with run have "do { (resp, w) \<leftarrow> make_response E line (Some r) w; if resp = None then Some w else queue_response E a tr resp w } = Some w'"
    by (simp add: make_response_def)
  moreover have "hist w' = answer_calls E a s tr ?b rq ts @ hist w"
    using v(1) by (simp add: w'(2) answer_calls_def)
  moreover have "answered a s ?b rq w'"
    using v(2,3) lt be by (auto simp: answered_def w'(3) sip_cell.load_iff evt_cell.load_iff event_cell.load_iff osip_cell.load_iff)
  ultimately show ?thesis using ts by blast
qed

text \<open>C5. An INVITE, a REGISTER and a BYE are answered: when the calls succeed, the message callback
  makes these calls and no others, in this order. It asks the transaction for its context; for a BYE
  it asks the dialogs, from the first one on, whether the request is theirs; it makes one response
  200 with the headers of the request (To with a tag, all Via headers, CSeq and Call-ID), hands it to
  the transaction as an event, and wakes the loop by a new event in front of the queue. The dialogs
  of the context stay as they were: a BYE does not remove its own.\<close>

theorem message_cb_answers:
  assumes E: "answering E" and ok: "osip_ok a w" and s: "load as_osip (Some a) w = Some s"
    and inst: "\<And>v. e_ptr E v (Osip (O_tr_get_instance tr)) = Some a"
    and r: "load as_sip (Some r) w = Some rq" "m_to rq \<noteq> None" "m_from rq \<noteq> None"
    and ty: "ty \<in> {OSIP_IST_INVITE_RECEIVED, OSIP_NIST_REGISTER_RECEIVED, OSIP_NIST_BYE_RECEIVED}"
  shows "\<exists>w' ts asked. es_internal_message_cb E ty tr (Some r) w = Some w' \<and> answered a s (brk w) rq w' \<and>
    tag_calls (Some (brk w + 2)) ts \<and> prefix asked (osipDialog s) \<and> (ty \<noteq> OSIP_NIST_BYE_RECEIVED \<longrightarrow> asked = []) \<and>
    hist w' = answer_calls E a s tr (brk w) rq ts @ match_calls (Some r) asked @ Osip (O_tr_get_instance tr) # hist w"
proof -
  from s r(1) have a: "heap w a = Some (C_osip s)" and hr: "heap w r = Some (C_sip rq)"
    by (simp_all add: osip_cell.load_iff sip_cell.load_iff)
  from ok a have h: "heap_ok w" and m: "o_magic s = ES_OSIP_MAGIC" and d: "\<forall>d \<in> set (osipDialog s). heap w d \<noteq> None"
    by (auto elim!: osip_okD simp: osip_live_def)
  let ?v = "did (Osip (O_tr_get_instance tr)) (wrote (trace_text E w 7 ''_es_internal_message_cb'' 580) w)"
  note eval = es_internal_message_cb_def esip_trace_eval ext_ptr_def inst osip_cell.load_heap [OF a] m
  have answer: "\<exists>w' ts. do { (resp, w) \<leftarrow> make_response E line (Some r) u; if resp = None then Some w else queue_response E a tr resp w } = Some w' \<and>
      tag_calls (Some (brk w + 2)) ts \<and> hist w' = answer_calls E a s tr (brk w) rq ts @ hist u \<and> answered a s (brk w) rq w'"
    if "only_calls w u" for u line
    using respond_answers [OF E, of u a s r rq line tr] that h a hr r(2,3) by (simp add: only_calls_def heap_ok_def)
  show ?thesis
  proof (cases "ty = OSIP_NIST_BYE_RECEIVED")
    case True
    have laws: "osip_list_laws E" using E by (simp add: answering_def)
    from find_dialog_searched [OF laws, of ?v a s 0 _ "''_es_internal_message_cb''" 658 "Some r"] a d obtain dlg u where
      run: "find_dialog E ''_es_internal_message_cb'' 658 (Some a) (Some r) 0 ?v = Some (dlg, u)" and
      sr: "searched E (Some r) (osipDialog s) ?v dlg u" by auto
    from sr have only: "only_calls w (wrote z u)" for z by (simp add: searched_def only_calls_def)
    from sr obtain asked where asked: "hist u = match_calls (Some r) asked @ hist ?v" "prefix asked (osipDialog s)"
      by (rule searched_asked)
    from answer [OF only [of "trace_text E u 6 ''_es_internal_message_cb'' 663"], of 665] obtain w' ts where
      "do { (resp, w) \<leftarrow> make_response E 665 (Some r) (wrote (trace_text E u 6 ''_es_internal_message_cb'' 663) u);
        if resp = None then Some w else queue_response E a tr resp w } = Some w'"
      "tag_calls (Some (brk w + 2)) ts" "hist w' = answer_calls E a s tr (brk w) rq ts @ hist u" "answered a s (brk w) rq w'" by auto
    then show ?thesis using True run asked
      by (intro exI [of _ w'] exI [of _ ts] exI [of _ asked]) (simp add: eval)
  next
    case False
    have "only_calls w (wrote z ?v)" for z by (simp add: only_calls_def)
    from answer [OF this] have "\<exists>w' ts. es_internal_message_cb E ty tr (Some r) w = Some w' \<and> tag_calls (Some (brk w + 2)) ts \<and>
        hist w' = answer_calls E a s tr (brk w) rq ts @ hist ?v \<and> answered a s (brk w) rq w'"
      using ty False by (auto simp: eval)
    then obtain w' ts where "es_internal_message_cb E ty tr (Some r) w = Some w'" "tag_calls (Some (brk w + 2)) ts"
        "hist w' = answer_calls E a s tr (brk w) rq ts @ hist ?v" "answered a s (brk w) rq w'" by blast
    then show ?thesis
      by (intro exI [of _ w'] exI [of _ ts] exI [of _ "[]"]) (simp add: match_calls_def)
  qed
qed

section \<open>The other messages\<close>

text \<open>Every other message but the 2xx of an INVITE is only logged: the callback asks the
  transaction for its context and leaves everything as it was. So a request that is neither an
  INVITE, a REGISTER nor a BYE, such as OPTIONS or CANCEL, is accepted by the parser, gets a
  transaction, and is never answered.\<close>

theorem message_cb_silent:
  assumes ok: "osip_ok a w" and inst: "\<And>v. e_ptr E v (Osip (O_tr_get_instance tr)) = Some a"
    and ty: "ty \<notin> {OSIP_IST_INVITE_RECEIVED, OSIP_NIST_REGISTER_RECEIVED, OSIP_NIST_BYE_RECEIVED, OSIP_IST_STATUS_2XX_SENT}"
  shows "\<exists>w'. es_internal_message_cb E ty tr msg w = Some w' \<and> hist w' = Osip (O_tr_get_instance tr) # hist w \<and>
    heap w' = heap w \<and> brk w' = brk w \<and> fds w' = fds w"
proof -
  from ok obtain s where a: "heap w a = Some (C_osip s)" and m: "o_magic s = ES_OSIP_MAGIC"
    by (auto elim!: osip_okD simp: osip_live_def)
  show ?thesis using ty
    by (cases ty) (simp_all add: es_internal_message_cb_def esip_trace_eval ext_ptr_def inst osip_cell.load_heap [OF a] m)
qed

text \<open>C18. A 2xx response to an INVITE makes one dialog from the request of the transaction, gives it
  the context and the route set, and puts it in front of the dialogs; a failing
  \<^verbatim>\<open>osip_dialog_init_as_uas\<close> changes nothing.\<close>

theorem message_cb_dialog:
  assumes laws: "osip_list_laws E" "list_front_accepts E" and ok: "osip_ok a w" and s: "load as_osip (Some a) w = Some s"
    and inst: "\<And>v. e_ptr E v (Osip (O_tr_get_instance (Some t))) = Some a" and orig: "\<And>v. e_orig E v t = q"
    and r: "load as_sip msg w = Some rq" and t: "load as_tr (Some t) w = Some k"
    and resp: "\<And>v. e_test E v (T_response_for msg ''INVITE'')" "\<And>v. \<not> e_test E v (T_code msg 100)"
    and code: "\<And>v. e_int E v (Osip (O_dialog_init_as_uas q msg)) = c"
  shows "\<exists>w'. es_internal_message_cb E OSIP_IST_STATUS_2XX_SENT (Some t) msg w = Some w' \<and>
    (if c = OSIP_SUCCESS
     then heap w' = (heap w)(brk w \<mapsto> C_dialog, a \<mapsto> C_osip (s\<lparr>osipDialog := brk w # osipDialog s\<rparr>)) \<and>
       hist w' = [Osip (O_dialog_update_route (Some (brk w)) q), Osip (O_dialog_set_instance (Some (brk w)) (Some a)),
         Osip (O_dialog_init_as_uas q msg), Osip (O_tr_get_instance (Some t))] @ hist w
     else heap w' = heap w \<and> hist w' = [Osip (O_dialog_init_as_uas q msg), Osip (O_tr_get_instance (Some t))] @ hist w)"
proof -
  from s t have a: "heap w a = Some (C_osip s)" and k: "heap w t = Some (C_tr k)"
    by (simp_all add: osip_cell.load_iff tr_cell.load_iff)
  from r obtain b where b: "msg = Some b" "heap w b = Some (C_sip rq)" by (cases msg) (simp_all add: sip_cell.load_iff)
  from ok a have h: "heap_ok w" and m: "o_magic s = ES_OSIP_MAGIC" by (auto elim!: osip_okD simp: osip_live_def)
  have lt: "a < brk w" by (rule heap_ok_live [OF h a])
  have front: "snd (l_add E v xs (Some x) 0) = x # xs" for v xs x
    using front_cases [OF laws(1), of v xs x] laws(2) by (auto simp: front_refused_def list_front_accepts_def not_less [symmetric])
  note eval = es_internal_message_cb_def dialog_established_def esip_trace_eval ext_ptr_def inst osip_cell.load_heap [OF a] m orig
    tr_cell.load_heap [OF k] sip_cell.load_heap [OF b(2)] b(1) resp [unfolded b(1)] code [unfolded b(1)] ext_new_st_def call_simps front Let_def
  show ?thesis using a lt by (cases "c = OSIP_SUCCESS") (simp_all add: eval osip_cell.load_heap)
qed

section \<open>Witnesses\<close>

definition answering_env :: env where
  "answering_env = plain_env\<lparr>e_ptr := (\<lambda>w c. case c of Osip (O_tr_get_instance tr) \<Rightarrow> Some 100 | _ \<Rightarrow> None),
     e_test := (\<lambda>w t. case t of T_code p n \<Rightarrow> False | _ \<Rightarrow> True)\<rparr>"

lemma answering_env_lists: "osip_list_laws answering_env" "list_front_accepts answering_env"
  using plain_env_lists plain_env_front
  by (simp_all add: answering_env_def osip_list_laws_def list_front_accepts_def)

lemma answering_env_answers: "answering answering_env"
  using plain_env_accepts answering_env_lists
  by (simp add: answering_def clones_succeed_def wakes_def list_accepts_def)
     (simp add: answering_env_def plain_int_def)

lemma demo_invited_loads:
  "load as_osip (Some 100) demo_invited = Some (new_osip 100 (Some 9) 101 102\<lparr>pendingEv := [103]\<rparr>)"
  "load as_sip (Some 105) demo_invited = Some demo_request_sip" "load as_tr (Some 104) demo_invited = Some IST"
  by (simp_all add: demo_invited_def osip_cell.load_iff sip_cell.load_iff tr_cell.load_iff)

theorem response_sequence_witness:
  "\<exists>w'. es_msg_initResponse answering_env 200 (Some 105) demo_invited = Some ((ES_OK, Some 106), w') \<and>
     load as_sip (Some 106) w' = Some (response_at 106 0)"
proof -
  have "clones_succeed answering_env" "list_accepts answering_env" "heap_ok demo_invited"
    using answering_env_answers demo_invited_ok by (simp_all add: answering_def osip_ok_def)
  from response_sequence [OF answering_env_lists(1) this(2,1,3) demo_invited_loads(2), of 200] show ?thesis
    by (auto simp: demo_request_sip_def demo_invited_def)
qed

theorem message_cb_answers_witness:
  "\<exists>w'. es_internal_message_cb answering_env OSIP_IST_INVITE_RECEIVED (Some 104) (Some 105) demo_invited = Some w' \<and>
     answered 100 (new_osip 100 (Some 9) 101 102\<lparr>pendingEv := [103]\<rparr>) 106 demo_request_sip w'"
proof -
  have "e_ptr answering_env v (Osip (O_tr_get_instance tr)) = Some 100" for v tr by (simp add: answering_env_def)
  from message_cb_answers [OF answering_env_answers demo_invited_ok demo_invited_loads(1) this demo_invited_loads(2),
      of OSIP_IST_INVITE_RECEIVED] show ?thesis
    by (auto simp: demo_request_sip_def demo_invited_def)
qed

theorem message_cb_silent_witness:
  "\<exists>w'. es_internal_message_cb answering_env OSIP_NIST_UNKNOWN_REQUEST_RECEIVED (Some 104) (Some 105) demo_invited = Some w' \<and>
     heap w' = heap demo_invited"
proof -
  have "e_ptr answering_env v (Osip (O_tr_get_instance tr)) = Some 100" for v tr by (simp add: answering_env_def)
  from message_cb_silent [OF demo_invited_ok this, of OSIP_NIST_UNKNOWN_REQUEST_RECEIVED "Some 104" "Some 105"] show ?thesis by auto
qed

theorem message_cb_dialog_witness:
  "\<exists>w'. es_internal_message_cb answering_env OSIP_IST_STATUS_2XX_SENT (Some 104) (Some 105) demo_invited = Some w' \<and>
     heap w' 106 = Some C_dialog"
proof -
  have *: "e_ptr answering_env v (Osip (O_tr_get_instance tr)) = Some 100" "e_orig answering_env v 104 = None"
    "e_test answering_env v (T_response_for msg ''INVITE'')" "\<not> e_test answering_env v (T_code msg 100)"
    "e_int answering_env v (Osip (O_dialog_init_as_uas None msg)) = OSIP_SUCCESS" for v tr msg
    by (simp_all add: answering_env_def plain_env_def plain_int_def OSIP_SUCCESS_def)
  from message_cb_dialog [OF answering_env_lists demo_invited_ok demo_invited_loads(1) *(1,2) demo_invited_loads(2,3) *(3-5)]
  show ?thesis by (auto simp: demo_invited_def)
qed

end
