(* ===== verification/Es_Answer_Loop.thy ===== *)
theory Es_Answer_Loop
  imports Es_Answer
begin

text \<open>
  The answer to an INVITE through the event loop: the event that the parser has queued makes
  libosip2 hand the request to the message callback, whose answer queues the next event, and the
  same call of the loop serves that one too, so that the response leaves in a datagram.
\<close>

section \<open>Executions\<close>

abbreviation exec_call :: "cptr \<Rightarrow> phase \<Rightarrow> call" where
  "exec_call st ph \<equiv> Osip (O_execute ph st)"

definition exec_calls :: "cptr \<Rightarrow> phase list \<Rightarrow> call list" where
  "exec_calls st phs = rev (map (exec_call st) phs)"

text \<open>An execution in which libosip2 does not call back. \<open>cs\<close> are the calls made.\<close>

definition executed :: "call list \<Rightarrow> world \<Rightarrow> world \<Rightarrow> bool" where
  "executed cs v v' \<longleftrightarrow> keeps v v' \<and> hist v' = cs @ hist v \<and> brk v' = brk v"

lemma executed_trans: "executed cs u v \<Longrightarrow> executed cs' v w \<Longrightarrow> executed (cs' @ cs) u w"
  unfolding executed_def by (auto intro: keeps_trans)

lemma execute_uncalled:
  assumes "\<And>z. e_callbacks E (wrote z v) (exec_call st ph) = 0"
  shows "\<exists>v'. execute_queue E ph line st v = Some v' \<and> executed [exec_call st ph] v v'"
    and "\<exists>v'. execute_timers E ph line st v = Some v' \<and> executed [exec_call st ph] v v'"
proof -
  have "\<exists>r v'. osip_execute E ph st (wrote z v) = Some (r, v') \<and> executed [exec_call st ph] v v'" for z
    using assms [of z] lib_release_keeps [of "did (exec_call st ph) (wrote z v)" E]
    by (auto simp: osip_execute_def executed_def lib_release_def Let_def)
  note run = this [of "trace_text E v 7 ''_es_osip_loop'' line"]
  then show "\<exists>v'. execute_queue E ph line st v = Some v' \<and> executed [exec_call st ph] v v'"
    by (auto simp: execute_queue_def esip_trace_eval executed_def)
  from run show "\<exists>v'. execute_timers E ph line st v = Some v' \<and> executed [exec_call st ph] v v'"
    by (auto simp: execute_timers_def esip_trace_eval)
qed

text \<open>libosip2 calls back twice, each time when it executes the INVITE server transactions: with a message,
  \<open>cb\<close>, and then with \<open>cb2\<close>. It does not release the message at \<open>r\<close> before that.\<close>

definition calls_back_twice :: "env \<Rightarrow> callback \<Rightarrow> callback \<Rightarrow> ptr \<Rightarrow> bool" where
  "calls_back_twice E cb cb2 r \<longleftrightarrow> (\<forall>v. e_callback E v = (if Enter_cb cb \<in> set (hist v) then cb2 else cb)) \<and> (\<forall>v. \<not> e_freed E v r) \<and>
     (\<forall>v ph st. e_callbacks E v (exec_call st ph) = (if ph = Ist \<and> Enter_cb cb2 \<notin> set (hist v) then 1 else 0))"

lemma executed_context: "executed cs v v' \<Longrightarrow> heap_ok v \<Longrightarrow> heap v a = Some (C_osip s) \<Longrightarrow> heap_ok v' \<and> heap v' a = Some (C_osip s)"
  by (simp add: executed_def keeps_def)

text \<open>One of the executions of an iteration, before whatever follows.\<close>

lemma execute_bind_silent:
  assumes once: "calls_back_twice E cb cb2 r" and ok: "heap_ok v" and a: "heap v a = Some (C_osip s)" and "ph \<noteq> Ist"
    and rest: "\<And>v'. executed [exec_call (osip s) ph] v v' \<Longrightarrow> heap_ok v' \<Longrightarrow> heap v' a = Some (C_osip s) \<Longrightarrow>
      \<exists>w'. f v' = Some w' \<and> executed cs v' w'"
  shows "\<exists>w'. Option.bind (load as_osip (Some a) v) (\<lambda>s. Option.bind (execute_queue E ph line (osip s) v) f) = Some w' \<and>
      executed (cs @ [exec_call (osip s) ph]) v w'"
    and "\<exists>w'. Option.bind (load as_osip (Some a) v) (\<lambda>s. Option.bind (execute_timers E ph line (osip s) v) f) = Some w' \<and>
      executed (cs @ [exec_call (osip s) ph]) v w'"
proof -
  have "e_callbacks E (wrote z v) (exec_call (osip s) ph) = 0" for z
    using once assms(4) by (auto simp: calls_back_twice_def)
  note run = execute_uncalled [where E = E and v = v and st = "osip s" and ph = ph and line = line, OF this]
  have *: "\<exists>w'. Option.bind m f = Some w' \<and> executed (cs @ [exec_call (osip s) ph]) v w'"
    if "\<exists>v'. m = Some v' \<and> executed [exec_call (osip s) ph] v v'" for m
    using that rest executed_context [OF _ ok a] executed_trans by (metis bind.bind_lunit)
  show "\<exists>w'. Option.bind (load as_osip (Some a) v) (\<lambda>s. Option.bind (execute_queue E ph line (osip s) v) f) = Some w' \<and>
      executed (cs @ [exec_call (osip s) ph]) v w'"
    unfolding osip_cell.load_heap [OF a] bind.bind_lunit by (rule * [OF run(1)])
  show "\<exists>w'. Option.bind (load as_osip (Some a) v) (\<lambda>s. Option.bind (execute_timers E ph line (osip s) v) f) = Some w' \<and>
      executed (cs @ [exec_call (osip s) ph]) v w'"
    unfolding osip_cell.load_heap [OF a] bind.bind_lunit by (rule * [OF run(2)])
qed

text \<open>The six executions behind that of the INVITE server transactions.\<close>

definition execute_later :: "env \<Rightarrow> cptr \<Rightarrow> world \<Rightarrow> world option" where
  "execute_later E p w = do {
     s \<leftarrow> load as_osip p w;
     w \<leftarrow> execute_queue E Nict 451 (osip s) w;
     s \<leftarrow> load as_osip p w;
     w \<leftarrow> execute_queue E Nist 457 (osip s) w;
     s \<leftarrow> load as_osip p w;
     w \<leftarrow> execute_timers E Timer_Ict 465 (osip s) w;
     s \<leftarrow> load as_osip p w;
     w \<leftarrow> execute_timers E Timer_Ist 469 (osip s) w;
     s \<leftarrow> load as_osip p w;
     w \<leftarrow> execute_timers E Timer_Nict 473 (osip s) w;
     s \<leftarrow> load as_osip p w;
     execute_timers E Timer_Nist 477 (osip s) w }"

definition later_phases :: "phase list" where
  "later_phases = [Nict, Nist, Timer_Ict, Timer_Ist, Timer_Nict, Timer_Nist]"

lemma execute_later_silent:
  assumes once: "calls_back_twice E cb cb2 r" and ok: "heap_ok v" and a: "heap v a = Some (C_osip s)"
  shows "\<exists>w'. execute_later E (Some a) v = Some w' \<and> executed (exec_calls (osip s) later_phases) v w'"
proof -
  note bind = execute_bind_silent [OF once]
  have last: "\<exists>w'. do { s \<leftarrow> load as_osip (Some a) u; execute_timers E Timer_Nist line (osip s) u } = Some w' \<and>
      executed [exec_call (osip s) Timer_Nist] u w'" if "heap_ok u" "heap u a = Some (C_osip s)" for u line
    using execute_uncalled(2) [of E u Timer_Nist "osip s" line] once by (simp add: osip_cell.load_heap [OF that(2)] calls_back_twice_def)
  have "\<exists>w'. execute_later E (Some a) v = Some w' \<and>
      executed ((((([exec_call (osip s) Timer_Nist] @ [exec_call (osip s) Timer_Nict]) @ [exec_call (osip s) Timer_Ist]) @
        [exec_call (osip s) Timer_Ict]) @ [exec_call (osip s) Nist]) @ [exec_call (osip s) Nict]) v w'"
    unfolding execute_later_def
    by (intro bind ok a last) simp_all
  then show ?thesis by (simp add: exec_calls_def later_phases_def)
qed

lemma execute_all_later:
  "execute_all E p w = do {
     s \<leftarrow> load as_osip p w;
     w \<leftarrow> execute_queue E Ict 439 (osip s) w;
     s \<leftarrow> load as_osip p w;
     w \<leftarrow> execute_queue E Ist 445 (osip s) w;
     execute_later E p w }"
  by (simp add: execute_all_def execute_later_def)

text \<open>The first of the eight executions, in which libosip2 does not call back.\<close>

lemma execute_ict:
  assumes once: "calls_back_twice E cb cb2 r" 
  shows "\<exists>v. execute_queue E Ict line st w = Some v \<and> executed [exec_call st Ict] w v \<and> heap v r = heap w r"
proof -
  have silent: "e_callbacks E (wrote z w) (exec_call st Ict) = 0" for z using once by (simp add: calls_back_twice_def)
  define u where "u = lib_release E (did (exec_call st Ict) (wrote (trace_text E w 7 ''_es_osip_loop'' line) w))"
  have "\<exists>v. execute_queue E Ict line st w = Some v \<and> only_calls u v \<and> hist v = hist u"
    using silent [of "trace_text E w 7 ''_es_osip_loop'' line"]
    by (simp add: execute_queue_def osip_execute_def esip_trace_eval Let_def flip: u_def)
  then obtain v where v: "execute_queue E Ict line st w = Some v" "only_calls u v" "hist v = hist u" by blast
  have "keeps w u" unfolding u_def by (rule keeps_trans [OF _ lib_release_keeps]) simp
  from keeps_trans [OF this only_calls_keeps [OF v(2)]] v once show ?thesis
    by (simp add: executed_def only_calls_def calls_back_twice_def) (simp add: u_def lib_release_def split: option.splits)
qed

section \<open>The iteration that answers\<close>

text \<open>The callback of an INVITE, with what it keeps.\<close>

lemma invite_cb:
  assumes E: "answering E" and ok: "osip_ok a w" and a: "heap w a = Some (C_osip s)"
    and inst: "\<And>v. e_ptr E v (Osip (O_tr_get_instance tr)) = Some a"
    and r: "heap w r = Some (C_sip rq)" "m_to rq \<noteq> None" "m_from rq \<noteq> None"
  shows "\<exists>w' ts. es_internal_message_cb E OSIP_IST_INVITE_RECEIVED tr (Some r) w = Some w' \<and> tag_calls (Some (brk w + 2)) ts \<and>
    hist w' = answer_calls E a s tr (brk w) rq ts @ Osip (O_tr_get_instance tr) # hist w \<and> answered a s (brk w) rq w' \<and> grows a w w'"
proof -
  from ok a have m: "o_magic s = ES_OSIP_MAGIC" and h: "heap_ok w" by (auto elim!: osip_okD simp: osip_live_def)
  from E have laws: "osip_list_laws E" and to: "\<And>v p. e_int E v (Omsg (M_hdr_clone Hdr_to p)) = 0"
    by (auto simp: answering_def clones_succeed_def)
  let ?u = "wrote (trace_text E (did (Osip (O_tr_get_instance tr)) (wrote (trace_text E w 7 ''_es_internal_message_cb'' 580) w)) 6
     ''_es_internal_message_cb'' 597) (did (Osip (O_tr_get_instance tr)) (wrote (trace_text E w 7 ''_es_internal_message_cb'' 580) w))"
  have u: "heap_ok ?u" "osip_ok a ?u" "heap ?u a = Some (C_osip s)" "heap ?u r = Some (C_sip rq)" using ok h a r by (simp_all add: heap_ok_keep)
  have "es_internal_message_cb E OSIP_IST_INVITE_RECEIVED tr (Some r) w =
      do { (resp, w) \<leftarrow> make_response E 599 (Some r) ?u; if resp = None then Some w else queue_response E a tr resp w }"
    by (simp add: es_internal_message_cb_def esip_trace_eval ext_ptr_def inst osip_cell.load_heap [OF a] m)
  with respond_answers [OF E u(1,3,4) r(2,3), of 599 tr] respond_grows [OF laws to u(2,4) r(2,3), of 599 tr] show ?thesis by auto
qed

lemma execute_ist_answers:
  assumes E: "answering E" and once: "calls_back_twice E (Cb_message OSIP_IST_INVITE_RECEIVED tr (Some r)) cb2 r"
    and ok: "osip_ok a v" and a: "heap v a = Some (C_osip s)" and inst: "\<And>v. e_ptr E v (Osip (O_tr_get_instance tr)) = Some a"
    and r: "heap v r = Some (C_sip rq)" "m_to rq \<noteq> None" "m_from rq \<noteq> None"
    and new: "Enter_cb (Cb_message OSIP_IST_INVITE_RECEIVED tr (Some r)) \<notin> set (hist v)" "Enter_cb cb2 \<notin> set (hist v)"
  shows "\<exists>v' ts. execute_queue E Ist line st v = Some v' \<and> grows a v v' \<and> tag_calls (Some (brk v + 2)) ts \<and>
    hist v' = answer_calls E a s tr (brk v) rq ts @ [Osip (O_tr_get_instance tr),
      Enter_cb (Cb_message OSIP_IST_INVITE_RECEIVED tr (Some r)), exec_call st Ist] @ hist v \<and>
    heap v' a = Some (C_osip (s\<lparr>pendingEv := Suc (answer_event (brk v) rq) # pendingEv s\<rparr>))"
proof -
  let ?cb = "Cb_message OSIP_IST_INVITE_RECEIVED tr (Some r)"
  let ?u = "did (Enter_cb ?cb) (did (exec_call st Ist) (wrote (trace_text E v 7 ''_es_osip_loop'' line) v))"
  have "osip_ok a ?u" "heap ?u a = Some (C_osip s)" "heap ?u r = Some (C_sip rq)" using ok a r by simp_all
  from invite_cb [OF E this(1,2) inst this(3) r(2,3)] obtain x ts where
    x: "es_internal_message_cb E OSIP_IST_INVITE_RECEIVED tr (Some r) ?u = Some x" "tag_calls (Some (brk ?u + 2)) ts"
      "hist x = answer_calls E a s tr (brk ?u) rq ts @ Osip (O_tr_get_instance tr) # hist ?u" "answered a s (brk ?u) rq x" "grows a ?u x" by blast
  from once new have cb: "e_callbacks E (wrote z v) (exec_call st Ist) = Suc 0" "e_callback E (did (exec_call st Ist) (wrote z v)) = ?cb" for z
    by (simp_all add: calls_back_twice_def)
  have "osip_execute E Ist st (wrote (trace_text E v 7 ''_es_osip_loop'' line) v) =
      Some (e_int E (wrote (trace_text E v 7 ''_es_osip_loop'' line) v) (exec_call st Ist), lib_release E x)"
    using x(1) by (simp add: osip_execute_def cb run_callback_def Let_def)
  then have "\<exists>v'. execute_queue E Ist line st v = Some v' \<and> only_calls (lib_release E x) v' \<and> hist v' = hist x"
    by (simp add: execute_queue_def esip_trace_eval only_calls_def) (simp add: lib_release_def)
  then obtain v' where v': "execute_queue E Ist line st v = Some v'" "only_calls (lib_release E x) v'" "hist v' = hist x" by blast
  have "grows a v x" using x(5) by simp
  from grows_keeps_trans [OF grows_keeps_trans [OF this lib_release_keeps] only_calls_keeps [OF v'(2)]] have g: "grows a v v'" .
  have "heap x a = Some (C_osip (s\<lparr>pendingEv := Suc (answer_event (brk v) rq) # pendingEv s\<rparr>))"
    using x(4) by (simp add: answered_def osip_cell.load_iff)
  then have "heap v' a = Some (C_osip (s\<lparr>pendingEv := Suc (answer_event (brk v) rq) # pendingEv s\<rparr>))"
    using v'(2) by (simp add: only_calls_def lib_release_def)
  with v'(1,3) g x(2,3) show ?thesis by auto
qed

text \<open>All eight executions, with the callback in the second one.\<close>

lemma execute_all_answers:
  assumes E: "answering E" and once: "calls_back_twice E (Cb_message OSIP_IST_INVITE_RECEIVED tr (Some r)) cb2 r"
    and ok: "osip_ok a w" and a: "heap w a = Some (C_osip s)" and inst: "\<And>v. e_ptr E v (Osip (O_tr_get_instance tr)) = Some a"
    and r: "heap w r = Some (C_sip rq)" "m_to rq \<noteq> None" "m_from rq \<noteq> None"
    and new: "Enter_cb (Cb_message OSIP_IST_INVITE_RECEIVED tr (Some r)) \<notin> set (hist w)" "Enter_cb cb2 \<notin> set (hist w)"
  shows "\<exists>w' ts. execute_all E (Some a) w = Some w' \<and> grows a w w' \<and> tag_calls (Some (brk w + 2)) ts \<and>
    hist w' = exec_calls (osip s) later_phases @ answer_calls E a s tr (brk w) rq ts @ [Osip (O_tr_get_instance tr),
      Enter_cb (Cb_message OSIP_IST_INVITE_RECEIVED tr (Some r))] @ exec_calls (osip s) [Ict, Ist] @ hist w \<and>
    heap w' a = Some (C_osip (s\<lparr>pendingEv := Suc (answer_event (brk w) rq) # pendingEv s\<rparr>))"
proof -
  have h: "heap_ok w" using ok by (simp add: osip_ok_def)
  from execute_ict [OF once] r(1) obtain v where v: "execute_queue E Ict 439 (osip s) w = Some v"
    "executed [exec_call (osip s) Ict] w v" "heap v r = Some (C_sip rq)" by metis
  then have kv: "keeps w v" by (simp add: executed_def)
  have okv: "osip_ok a v" by (rule grows_ok [OF grows_keeps [OF ok kv]])
  have av: "heap v a = Some (C_osip s)" using kv h a by (simp add: keeps_def)
  have hv: "hist v = exec_call (osip s) Ict # hist w" "brk v = brk w" using v(2) by (simp_all add: executed_def)
  from execute_ist_answers [OF E once okv av inst v(3) r(2,3), of 445 "osip s"] hv new obtain x ts where
    x: "execute_queue E Ist 445 (osip s) v = Some x" "grows a v x" "tag_calls (Some (brk w + 2)) ts"
      "hist x = answer_calls E a s tr (brk w) rq ts @ [Osip (O_tr_get_instance tr),
        Enter_cb (Cb_message OSIP_IST_INVITE_RECEIVED tr (Some r)), exec_call (osip s) Ist] @ hist v"
      "heap x a = Some (C_osip (s\<lparr>pendingEv := Suc (answer_event (brk w) rq) # pendingEv s\<rparr>))" by auto
  have hx: "heap_ok x" using grows_ok [OF x(2)] by (simp add: osip_ok_def)
  from execute_later_silent [OF once hx x(5)] obtain y where
    y: "execute_later E (Some a) x = Some y" "executed (exec_calls (osip s) later_phases) x y" by auto
  have "execute_all E (Some a) w = Some y"
    using v(1) x(1) y(1) by (simp add: execute_all_later osip_cell.load_heap av a)
  moreover from grows_trans [OF grows_keeps [OF ok kv] x(2)] grows_keeps_trans y(2) have "grows a w y" by (auto simp: executed_def)
  ultimately show ?thesis using x(3,4) hv(1) y(2) executed_context [OF y(2) hx x(5)]
    by (intro exI [of _ y] exI [of _ ts]) (simp add: executed_def exec_calls_def)
qed

text \<open>An iteration begins with the first event taken from the queue, and ends with its release.\<close>

lemma loop_iteration:
  assumes laws: "osip_list_laws E" and a: "heap w a = Some (C_osip s)" and p: "pendingEv s = ev # evs"
    and run: "execute_all E (Some a) (put a (C_osip (s\<lparr>pendingEv := evs\<rparr>)) (wrote (trace_text E w 7 ''_es_osip_loop'' 433) w)) = Some v"
    and ev: "heap v ev = Some (C_event e)"
  shows "osip_loop E a w = osip_loop E a (drop_cell ev (did (Lev (Ev_free (Some ev))) v))"
proof -
  have "osip_loop E a w = loop_body E a s ev evs w (osip_loop E a)"
    by (subst osip_loop.simps) (fold loop_unfold_def, rule loop_unfold_Cons [OF laws a p])
  with run ev show ?thesis by (simp add: loop_body_def ev_free_eval live_event_iff)
qed

lemma loop_iteration_ok:
  assumes ok: "osip_ok a w" and a: "heap w a = Some (C_osip s)" and p: "pendingEv s = [ev]"
    and g: "grows a (put a (C_osip (s\<lparr>pendingEv := []\<rparr>)) (wrote z w)) v"
  shows "\<exists>e. heap v ev = Some (C_event e) \<and> osip_ok a (drop_cell ev (did c v)) \<and> ev \<noteq> a"
proof -
  from ok a p obtain e where ev: "heap w ev = Some (C_event e)" and h: "heap_ok w"
    by (auto simp: osip_ok_def osip_live_def pending_ok_def)
  then have ne: "ev \<noteq> a" using a by auto
  with g ev have v: "heap v ev = Some (C_event e)" by (simp add: grows_def)
  from g obtain s' es where s': "heap v a = Some (C_osip s')" "pendingEv s' = es" "\<forall>x \<in> set es. brk w \<le> x"
    by (auto simp: grows_def)
  then have "ev \<notin> set (pendingEv s')" using heap_ok_live [OF h ev] by auto
  from osip_ok_free [of a "did c v" s' ev e] grows_ok [OF g] s'(1) v this ne show ?thesis by simp
qed

section \<open>The iteration that sends\<close>

text \<open>The calls of the send callback: the text of the message at \<open>buf\<close> leaves in one datagram.\<close>

definition send_calls :: "env \<Rightarrow> es_transport_s \<Rightarrow> cptr \<Rightarrow> cptr \<Rightarrow> string \<Rightarrow> int \<Rightarrow> byte list \<Rightarrow> ptr \<Rightarrow> call list" where
  "send_calls E x tr msg ip port d buf = [Libc (L_free (Some buf)),
     Libc (L_sendto (udp_socket x) d \<lparr>sin_family = AF_INET, sin_port = htons (word_of_int port), sin_addr = e_inet_addr E ip\<rparr>),
     Osip (O_message_to_str msg), Osip (O_tr_get_instance tr)]"

lemma send_cb_run:
  assumes ok: "osip_ok a w" and a: "heap w a = Some (C_osip s)" and x: "load as_transport (transportCtx s) w = Some x"
    and inst: "\<And>v. e_ptr E v (Osip (O_tr_get_instance tr)) = Some a"
    and str: "\<And>v. e_bytes E v (Osip (O_message_to_str msg)) = d" "\<And>v. e_int E v (Osip (O_message_to_str msg)) = OSIP_SUCCESS"
  shows "\<exists>w'. es_internal_send_msg_cb E tr msg (Some ip) port sock w = Some (OSIP_SUCCESS, w') \<and> keeps w w' \<and>
    hist w' = send_calls E x tr msg ip port d (brk w) @ hist w"
proof -
  from ok a x obtain p where s: "o_magic s = ES_OSIP_MAGIC" and
    p: "transportCtx s = Some p" "heap w p = Some (C_transport x)" "t_magic x = ES_TRANSPORT_MAGIC" and h: "heap_ok w"
    by (auto simp: osip_ok_def osip_live_def transport_cell.load_iff)
  have "p \<noteq> brk w" using heap_ok_live [OF h p(2)] by simp
  then show ?thesis using s p a h str(2)
    by (simp add: es_internal_send_msg_cb_def esip_trace_eval ext_ptr_def inst str message_to_str_def ext_new_st_def Let_def
      osip_cell.load_heap es_transport_send_def transport_cell.load_heap call_simps cfree_def send_calls_def)
      (auto simp: keeps_def heap_ok_def)
qed

text \<open>What the library knows of the message to be sent.\<close>

definition message_text :: "env \<Rightarrow> cptr \<Rightarrow> byte list \<Rightarrow> bool" where
  "message_text E msg d \<longleftrightarrow> (\<forall>v. e_bytes E v (Osip (O_message_to_str msg)) = d) \<and> (\<forall>v. e_int E v (Osip (O_message_to_str msg)) = OSIP_SUCCESS)"

lemma execute_all_sends:
  assumes once: "calls_back_twice E cb (Cb_send tr msg (Some ip) port sock) r" and ok: "osip_ok a w" and a: "heap w a = Some (C_osip s)"
    and x: "load as_transport (transportCtx s) w = Some x"
    and inst: "\<And>v. e_ptr E v (Osip (O_tr_get_instance tr)) = Some a" and str: "message_text E msg d"
    and old: "Enter_cb cb \<in> set (hist w)" "Enter_cb (Cb_send tr msg (Some ip) port sock) \<notin> set (hist w)"
  shows "\<exists>w' buf. execute_all E (Some a) w = Some w' \<and> keeps w w' \<and>
    hist w' = exec_calls (osip s) later_phases @ send_calls E x tr msg ip port d buf @
      [Enter_cb (Cb_send tr msg (Some ip) port sock)] @ exec_calls (osip s) [Ict, Ist] @ hist w"
proof -
  let ?cb = "Cb_send tr msg (Some ip) port sock" and ?st = "osip s"
  have h: "heap_ok w" using ok by (simp add: osip_ok_def)
  from execute_ict [OF once] obtain v where v: "execute_queue E Ict 439 ?st w = Some v" "executed [exec_call ?st Ict] w v" by blast
  then have kv: "keeps w v" and hv: "hist v = exec_call ?st Ict # hist w" by (simp_all add: executed_def)
  let ?z = "wrote (trace_text E v 7 ''_es_osip_loop'' 445) v"
  let ?u = "did (Enter_cb ?cb) (did (exec_call ?st Ist) ?z)"
  have av: "heap v a = Some (C_osip s)" using kv h a by (simp add: keeps_def)
  have "osip_ok a ?u" using grows_ok [OF grows_keeps [OF ok kv]] by simp
  moreover have "load as_transport (transportCtx s) ?u = Some x"
    using x kv h by (cases "transportCtx s") (simp_all add: keeps_def transport_cell.load_iff)
  ultimately obtain y where y: "es_internal_send_msg_cb E tr msg (Some ip) port sock ?u = Some (OSIP_SUCCESS, y)" "keeps ?u y"
      "hist y = send_calls E x tr msg ip port d (brk ?u) @ hist ?u"
    using send_cb_run [of a ?u s x E tr msg d ip port sock] av inst str unfolding message_text_def by auto
  have cb: "e_callbacks E ?z (exec_call ?st Ist) = Suc 0" "e_callback E (did (exec_call ?st Ist) ?z) = ?cb"
    using once old hv by (simp_all add: calls_back_twice_def)
  have "osip_execute E Ist ?st ?z = Some (e_int E ?z (exec_call ?st Ist), lib_release E y)"
    using y(1) by (simp add: osip_execute_def cb run_callback_def Let_def)
  then have "\<exists>q. execute_queue E Ist 445 ?st v = Some q \<and> only_calls (lib_release E y) q \<and> hist q = hist y"
    by (simp add: execute_queue_def esip_trace_eval only_calls_def) (simp add: lib_release_def)
  then obtain q where q: "execute_queue E Ist 445 ?st v = Some q" "only_calls (lib_release E y) q" "hist q = hist y" by blast
  have "keeps v y" using y(2) by simp
  from keeps_trans [OF keeps_trans [OF this lib_release_keeps] only_calls_keeps [OF q(2)]] have kq: "keeps v q" .
  from keeps_trans [OF kv kq] h a have "heap_ok q" "heap q a = Some (C_osip s)" by (simp_all add: keeps_def)
  from execute_later_silent [OF once this] obtain w' where
    w': "execute_later E (Some a) q = Some w'" "executed (exec_calls ?st later_phases) q w'" by blast
  then have "keeps q w'" by (simp add: executed_def)
  with keeps_trans [OF kv kq] have "keeps w w'" by (rule keeps_trans)
  moreover have "execute_all E (Some a) w = Some w'"
    using v(1) q(1) w'(1) by (simp add: execute_all_later osip_cell.load_heap av a)
  ultimately show ?thesis using w'(2) q(3) y(3) hv
    by (intro exI [of _ w'] exI [of _ "brk ?u"]) (simp add: executed_def exec_calls_def)
qed

lemma loop_sends:
  assumes laws: "osip_list_laws E" and once: "calls_back_twice E cb (Cb_send tr msg (Some ip) port sock) r"
    and ok: "osip_ok a w" and a: "heap w a = Some (C_osip s)" and p: "pendingEv s = [ev]"
    and x: "load as_transport (transportCtx s) w = Some x"
    and inst: "\<And>v. e_ptr E v (Osip (O_tr_get_instance tr)) = Some a" and str: "message_text E msg d"
    and old: "Enter_cb cb \<in> set (hist w)" "Enter_cb (Cb_send tr msg (Some ip) port sock) \<notin> set (hist w)"
  shows "\<exists>w' buf. osip_loop E a w = Some w' \<and> heap w' a = Some (C_osip (s\<lparr>pendingEv := []\<rparr>)) \<and>
    hist w' = Lev (Ev_free (Some ev)) # exec_calls (osip s) later_phases @ send_calls E x tr msg ip port d buf @
      [Enter_cb (Cb_send tr msg (Some ip) port sock)] @ exec_calls (osip s) [Ict, Ist] @ hist w"
proof -
  let ?w1 = "put a (C_osip (s\<lparr>pendingEv := []\<rparr>)) (wrote (trace_text E w 7 ''_es_osip_loop'' 433) w)"
  have "osip_ok a (wrote (trace_text E w 7 ''_es_osip_loop'' 433) w)" using ok by simp
  from osip_ok_take [OF this _ p] a have ok1: "osip_ok a ?w1" by simp
  then have h1: "heap_ok ?w1" by (simp add: osip_ok_def)
  have "load as_transport (transportCtx (s\<lparr>pendingEv := []\<rparr>)) ?w1 = Some x"
    using x a by (cases "transportCtx s") (auto simp: transport_cell.load_iff)
  from execute_all_sends [OF once ok1 _ this inst str] a old obtain v buf where
    v: "execute_all E (Some a) ?w1 = Some v" "keeps ?w1 v" "hist v = exec_calls (osip s) later_phases @ send_calls E x tr msg ip port d buf @
      [Enter_cb (Cb_send tr msg (Some ip) port sock)] @ exec_calls (osip s) [Ict, Ist] @ hist w" by auto
  from loop_iteration_ok [OF ok a p grows_keeps [OF ok1 v(2)]] obtain e where e: "heap v ev = Some (C_event e)" "ev \<noteq> a" by blast
  let ?w2 = "drop_cell ev (did (Lev (Ev_free (Some ev))) v)"
  have "heap v a = Some (C_osip (s\<lparr>pendingEv := []\<rparr>))" using v(2) h1 by (simp add: keeps_def)
  then have a2: "heap ?w2 a = Some (C_osip (s\<lparr>pendingEv := []\<rparr>))" using e(2) by simp
  have "osip_loop E a ?w2 = Some ?w2"
    by (subst osip_loop.simps) (fold loop_unfold_def, rule loop_unfold_Nil [OF laws a2], simp)
  with loop_iteration [OF laws a p v(1) e(1)] a2 v(3) show ?thesis
    by (intro exI [of _ ?w2] exI [of _ buf]) simp
qed

section \<open>The whole call of the loop\<close>

text \<open>The calls of the loop that answers an INVITE, the latest first: \<open>ts\<close> are those for the tag of the response,
  \<open>ss\<close> those of the send callback \<open>cb2\<close>.\<close>

definition invite_loop_calls ::
  "env \<Rightarrow> ptr \<Rightarrow> es_osip_s \<Rightarrow> ptr \<Rightarrow> cptr \<Rightarrow> ptr \<Rightarrow> ptr \<Rightarrow> osip_message_s \<Rightarrow> call list \<Rightarrow> callback \<Rightarrow> call list \<Rightarrow> call list" where
  "invite_loop_calls E a s ev tr r b rq ts cb2 ss =
     Lev (Ev_free (Some (Suc (answer_event b rq)))) # exec_calls (osip s) later_phases @ ss @ [Enter_cb cb2] @ exec_calls (osip s) [Ict, Ist] @
     Lev (Ev_free (Some ev)) # exec_calls (osip s) later_phases @ answer_calls E a s tr b rq ts @
     [Osip (O_tr_get_instance tr), Enter_cb (Cb_message OSIP_IST_INVITE_RECEIVED tr (Some r))] @ exec_calls (osip s) [Ict, Ist]"

text \<open>One call of the loop, with one event in the queue, answers an INVITE: libosip2, which is executed in the
  order of its queues, hands the request to the message callback; the callback makes the response,
  gives it to the transaction and queues a wake-up; the first event is freed, the wake-up is served
  by the same call, in which libosip2 has the response sent; it is freed, too, and the queue is
  empty. These are all the calls.\<close>

lemma loop_answers_invite:
  assumes E: "answering E" and once: "calls_back_twice E (Cb_message OSIP_IST_INVITE_RECEIVED tr (Some r)) (Cb_send tr (Some (brk w)) (Some ip) port sock) r"
    and ok: "osip_ok a w" and s: "load as_osip (Some a) w = Some s" and p: "pendingEv s = [ev]" and x: "load as_transport (transportCtx s) w = Some x"
    and inst: "\<And>v. e_ptr E v (Osip (O_tr_get_instance tr)) = Some a" and str: "message_text E (Some (brk w)) d"
    and r: "load as_sip (Some r) w = Some rq" "m_to rq \<noteq> None" "m_from rq \<noteq> None"
    and new: "Enter_cb (Cb_message OSIP_IST_INVITE_RECEIVED tr (Some r)) \<notin> set (hist w)"
      "Enter_cb (Cb_send tr (Some (brk w)) (Some ip) port sock) \<notin> set (hist w)"
  shows "\<exists>w' ts buf. es_osip_loop E fd what (Some a) w = Some w' \<and> tag_calls (Some (brk w + 2)) ts \<and>
    hist w' = invite_loop_calls E a s ev tr r (brk w) rq ts (Cb_send tr (Some (brk w)) (Some ip) port sock)
      (send_calls E x tr (Some (brk w)) ip port d buf) @ hist w \<and>
    load as_osip (Some a) w' = Some (s\<lparr>pendingEv := []\<rparr>)"
proof -
  let ?s1 = "s\<lparr>pendingEv := []\<rparr>" and ?e2 = "Suc (answer_event (brk w) rq)"
  let ?w1 = "put a (C_osip ?s1) (wrote (trace_text E w 7 ''_es_osip_loop'' 433) w)"
  from E have laws: "osip_list_laws E" by (simp add: answering_def)
  from s r(1) have a: "heap w a = Some (C_osip s)" and hr: "heap w r = Some (C_sip rq)"
    by (simp_all add: osip_cell.load_iff sip_cell.load_iff)
  have "osip_ok a (wrote (trace_text E w 7 ''_es_osip_loop'' 433) w)" using ok by simp
  from osip_ok_take [OF this _ p] a have ok1: "osip_ok a ?w1" by simp
  have w1: "heap ?w1 a = Some (C_osip ?s1)" "heap ?w1 r = Some (C_sip rq)" using hr a by auto
  from execute_all_answers [OF E once ok1 w1(1) inst w1(2) r(2,3)] new obtain y ts where
    y: "execute_all E (Some a) ?w1 = Some y" "grows a ?w1 y" "tag_calls (Some (brk w + 2)) ts"
      "hist y = exec_calls (osip s) later_phases @ answer_calls E a ?s1 tr (brk w) rq ts @ [Osip (O_tr_get_instance tr),
        Enter_cb (Cb_message OSIP_IST_INVITE_RECEIVED tr (Some r))] @ exec_calls (osip s) [Ict, Ist] @ hist w"
      "heap y a = Some (C_osip (?s1\<lparr>pendingEv := [?e2]\<rparr>))" by auto
  from loop_iteration_ok [OF ok a p y(2), of "Lev (Ev_free (Some ev))"] obtain e where
    e: "heap y ev = Some (C_event e)" "ev \<noteq> a" and ok2: "osip_ok a (drop_cell ev (did (Lev (Ev_free (Some ev))) y))" by blast
  let ?w2 = "drop_cell ev (did (Lev (Ev_free (Some ev))) y)"
  have a2: "heap ?w2 a = Some (C_osip (?s1\<lparr>pendingEv := [?e2]\<rparr>))" using e(2) y(5) by simp
  from x obtain q where q: "transportCtx s = Some q" "heap w q = Some (C_transport x)"
    by (cases "transportCtx s") (auto simp: transport_cell.load_iff)
  then have "q \<noteq> a" using a by auto
  with y(2) q(2) have yq: "heap y q = Some (C_transport x)" by (simp add: grows_def)
  have x2: "load as_transport (transportCtx (?s1\<lparr>pendingEv := [?e2]\<rparr>)) ?w2 = Some x"
    using q(1) yq e(1) by (auto simp: transport_cell.load_iff)
  have new2: "Enter_cb (Cb_send tr (Some (brk w)) (Some ip) port sock) \<notin> set (hist ?w2)"
    using new(2) y(3,4) by (auto simp: exec_calls_def answer_calls_def wake_calls_def response_calls_def name_calls_def via_calls_def
      start_calls_def tag_calls_def)
  have "Enter_cb (Cb_message OSIP_IST_INVITE_RECEIVED tr (Some r)) \<in> set (hist ?w2)" using y(4) by simp
  from loop_sends [OF laws once ok2 a2 _ x2 inst str this new2, of ?e2] y(4) obtain w' buf where
    w': "osip_loop E a ?w2 = Some w'" "heap w' a = Some (C_osip (?s1\<lparr>pendingEv := []\<rparr>))"
      "hist w' = Lev (Ev_free (Some ?e2)) # exec_calls (osip s) later_phases @ send_calls E x tr (Some (brk w)) ip port d buf @
      [Enter_cb (Cb_send tr (Some (brk w)) (Some ip) port sock)] @ exec_calls (osip s) [Ict, Ist] @ hist ?w2" by auto
  have "answer_calls E a ?s1 tr (brk w) rq ts = answer_calls E a s tr (brk w) rq ts"
    by (simp add: answer_calls_def wake_calls_def)
  then have "hist w' = invite_loop_calls E a s ev tr r (brk w) rq ts (Cb_send tr (Some (brk w)) (Some ip) port sock)
      (send_calls E x tr (Some (brk w)) ip port d buf) @ hist w"
    using w'(3) y(4) by (simp add: invite_loop_calls_def)
  moreover have "es_osip_loop E fd what (Some a) w = Some w'"
    using loop_iteration [OF laws a p y(1) e(1)] w'(1) by (simp add: es_osip_loop_def)
  ultimately show ?thesis using y(3) w'(2) by (auto simp: osip_cell.load_heap)
qed

end
