(* ===== verification/Es_Tests.thy ===== *)
theory Es_Tests
  imports Esip_Prelude
begin

text \<open>
  The unit tests of the libraries, \<^verbatim>\<open>src/tst/tst.c\<close>, \<^verbatim>\<open>tst_osip.c\<close> and \<^verbatim>\<open>tst_ev.c\<close>: the suites with
  their initialisations, tests and clean-ups, and \<^verbatim>\<open>main\<close>. libosip2, libevent and CUnit are outside:
  their calls are data in a history, the latest first, and a function answers each call from the
  history before it. How CUnit runs the registered suites is an argument of \<^verbatim>\<open>main\<close>.
\<close>

section \<open>Calls and state\<close>

text \<open>The objects that the tests get from the libraries, and have to give back.\<close>

datatype unit_object = Ob_message | Ob_text | Ob_osip | Ob_thread | Ob_base

datatype unit_call =
    U_parser_init | U_message_init | U_message_free cptr | U_message_parse cptr string nat | U_force_update cptr
  | U_message_to_str cptr | U_osip_init | U_osip_release cptr | U_osip_free cptr
  | U_thread_create int cptr | U_thread_join cptr | U_thread_exit | U_random
  | U_event_version | U_supported_methods | U_base_method cptr | U_base_new | U_base_free cptr
  | U_printf string | U_assert string bool bool | U_pass string
  | U_initialize_registry | U_register "string list" | U_set_mode_verbose | U_cleanup_registry | U_get_error

type_synonym unit_hist = "unit_call list"

record unit_env =
  u_int :: "unit_hist \<Rightarrow> unit_call \<Rightarrow> int"
  u_ok :: "unit_hist \<Rightarrow> unit_call \<Rightarrow> bool"                     \<comment> \<open>whether a call that returns a pointer returns a block\<close>
  u_string :: "unit_hist \<Rightarrow> unit_call \<Rightarrow> string"
  u_methods :: "unit_hist \<Rightarrow> string option list option"          \<comment> \<open>the array of \<^verbatim>\<open>event_get_supported_methods\<close>\<close>
  u_macro :: "string \<Rightarrow> string"                                 \<comment> \<open>the text of a macro of the compiler\<close>

record units =
  u_sip :: cptr                  \<comment> \<open>the static variables of \<^verbatim>\<open>tst_osip.c\<close>\<close>
  u_osip :: cptr
  u_ev :: cptr                   \<comment> \<open>that of \<^verbatim>\<open>tst_ev.c\<close>\<close>
  u_live :: "ptr \<rightharpoonup> unit_object"
  u_next :: ptr
  u_hist :: unit_hist

definition u_call :: "unit_call \<Rightarrow> units \<Rightarrow> units" where
  "u_call k s = s\<lparr>u_hist := k # u_hist s\<rparr>"

definition u_ask :: "unit_env \<Rightarrow> unit_call \<Rightarrow> units \<Rightarrow> int \<times> units" where
  "u_ask E k s = (u_int E (u_hist s) k, u_call k s)"

definition u_object :: "unit_object \<Rightarrow> cptr \<Rightarrow> units \<Rightarrow> bool" where
  "u_object x p s \<longleftrightarrow> (\<exists>a. p = Some a \<and> u_live s a = Some x)"

definition u_made :: "unit_object \<Rightarrow> units \<Rightarrow> units" where
  "u_made x s = s\<lparr>u_live := (u_live s)(u_next s \<mapsto> x), u_next := Suc (u_next s)\<rparr>"

definition u_new :: "unit_env \<Rightarrow> unit_call \<Rightarrow> unit_object \<Rightarrow> units \<Rightarrow> cptr \<times> units" where
  "u_new E k x s = (if u_ok E (u_hist s) k then (Some (u_next s), u_made x (u_call k s)) else (None, u_call k s))"

text \<open>A function that stores its new block through a pointer, and leaves the variable as it is when it fails.\<close>

definition u_new_at :: "unit_env \<Rightarrow> unit_call \<Rightarrow> unit_object \<Rightarrow> cptr \<Rightarrow> units \<Rightarrow> int \<times> cptr \<times> units" where
  "u_new_at E k x old s = (let r = u_int E (u_hist s) k
     in if r = 0 then (r, Some (u_next s), u_made x (u_call k s)) else (r, old, u_call k s))"

text \<open>Releasing a block; a null pointer is allowed by \<open>null\<close>.\<close>

definition u_release :: "bool \<Rightarrow> unit_object \<Rightarrow> unit_call \<Rightarrow> cptr \<Rightarrow> units \<Rightarrow> units option" where
  "u_release null x k p s = (case p of
       None \<Rightarrow> if null then Some (u_call k s) else None
     | Some a \<Rightarrow> if u_live s a = Some x then Some ((u_call k s)\<lparr>u_live := (u_live s)(a := None)\<rparr>) else None)"

text \<open>A test that meets a failing \<^verbatim>\<open>CU_ASSERT_FATAL\<close> is left at once.\<close>

datatype unit_end = Finished | Left

type_synonym unit_run = "(unit_end \<times> units) option"

definition assert_fatal :: "string \<Rightarrow> bool \<Rightarrow> units \<Rightarrow> (units \<Rightarrow> unit_run) \<Rightarrow> unit_run" where
  "assert_fatal test b s rest = (let s = u_call (U_assert test b True) s in if b then rest s else Some (Left, s))"

definition assert_that :: "string \<Rightarrow> bool \<Rightarrow> units \<Rightarrow> units" where
  "assert_that test b s = u_call (U_assert test b False) s"

section \<open>The suites of libosip2\<close>

definition rule_text :: string where "rule_text = ''==========================================================='' @ [CHR 0x0A]"

definition init_suite_osip_msg :: "unit_env \<Rightarrow> units \<Rightarrow> (int \<times> units) option" where
  "init_suite_osip_msg E s =
     (let s = u_call U_parser_init s;
          (r, p, s) = u_new_at E U_message_init Ob_message (u_sip s) s;
          s = s\<lparr>u_sip := p\<rparr>
      in Some (if u_sip s = None then 1 else 0, s))"

definition clean_suite_osip_msg :: "units \<Rightarrow> (int \<times> units) option" where
  "clean_suite_osip_msg s = do {
     s \<leftarrow> u_release True Ob_message (U_message_free (u_sip s)) (u_sip s) s;
     Some (0, s) }"

definition init_suite_osip :: "unit_env \<Rightarrow> units \<Rightarrow> (int \<times> units) option" where
  "init_suite_osip E s =
     (let s = u_call (U_printf ([CHR 0x0A, CHR 0x0A] @ rule_text)) s;
          s = u_call (U_printf ''OSip2.'') s;
          s = u_call (U_printf ([CHR 0x0A] @ rule_text)) s;
          (r, p, s) = u_new_at E U_osip_init Ob_osip (u_osip s) s;
          s = s\<lparr>u_osip := p\<rparr>
      in Some (if u_osip s = None then 1 else 0, s))"

definition clean_suite_osip :: "units \<Rightarrow> (int \<times> units) option" where
  "clean_suite_osip s = do {
     s \<leftarrow> u_release False Ob_osip (U_osip_release (u_osip s)) (u_osip s) s;
     Some (0, s) }"

definition unit_nop :: "units \<Rightarrow> unit_run" where
  "unit_nop s = Some (Finished, u_call (U_pass ''nothing'') s)"

definition test_osip_msg :: "units \<Rightarrow> unit_run" where
  "test_osip_msg s = assert_fatal ''test_osip_msg'' (u_sip s \<noteq> None) s (\<lambda>s. Some (Finished, s))"

definition crlf :: string where "crlf = [CHR 0x0D, CHR 0x0A]"

definition register_msg :: string where
  "register_msg = ''REGISTER sip:bell-tel.com SIP/2.0'' @ crlf @ ''Via: SIP/2.0/UDP saturn.bell-tel.com'' @ crlf @
     ''From: <sip:watson@bell-tel.com>;tag=19'' @ crlf @ ''To: sip:watson@bell-tel.com'' @ crlf @
     ''Call-ID: 70710@saturn.bell-tel.com'' @ crlf @ ''CSeq: 2 REGISTER'' @ crlf @ ''Expires: 0'' @ crlf @ ''Contact: *'' @ crlf @ crlf"

definition test_osip_msg_parse :: "unit_env \<Rightarrow> units \<Rightarrow> unit_run" where
  "test_osip_msg_parse E s =
     (if \<not> u_object Ob_message (u_sip s) s then None
      else
       (let (r, s) = u_ask E (U_message_parse (u_sip s) register_msg (length register_msg)) s
        in assert_fatal ''test_osip_msg_parse'' (r = 0) s (\<lambda>s.
          (let s = u_call (U_force_update (u_sip s)) s;
               (r, result, s) = u_new_at E (U_message_to_str (u_sip s)) Ob_text None s
           in assert_fatal ''test_osip_msg_parse'' (r \<noteq> - 1) s (\<lambda>s. do {
             let s = u_call (U_pass ''Message Parsed'') s;
             s \<leftarrow> u_release True Ob_text (U_osip_free result) result s;
             Some (Finished, s) })))))"

definition test_osip_init :: "units \<Rightarrow> unit_run" where
  "test_osip_init s = assert_fatal ''test_osip_init'' (u_osip s \<noteq> None) s (\<lambda>s. Some (Finished, s))"

partial_function (option) my_thread :: "cptr \<Rightarrow> units \<Rightarrow> units option" where
  "my_thread arg s = (if arg \<noteq> None then my_thread arg s else Some (u_call U_thread_exit s))"

definition test_osip_thread :: "unit_env \<Rightarrow> units \<Rightarrow> unit_run" where
  "test_osip_thread E s =
     (let (thread, s) = u_new E (U_thread_create 2000 None) Ob_thread s
      in assert_fatal ''test_osip_thread'' (thread \<noteq> None) s (\<lambda>s. do {
        let (r, s) = u_ask E (U_thread_join thread) s;
        let s = assert_that ''test_osip_thread'' (r = 0) s;
        let (n, s) = u_ask E U_random s;
        s \<leftarrow> u_release True Ob_thread (U_osip_free thread) thread s;
        Some (Finished, s) }))"

definition build_random :: "unit_env \<Rightarrow> units \<Rightarrow> u32 \<times> units" where
  "build_random E s = (let (n, s) = u_ask E U_random s in (word_of_int n, s))"

definition test_osip_random :: "unit_env \<Rightarrow> units \<Rightarrow> unit_run" where
  "test_osip_random E s =
     (let (random1, s) = build_random E s;
          (random2, s) = build_random E s;
          s = assert_that ''test_osip_random'' (random1 \<noteq> random2) s;
          (m, s) = build_random E s;
          (n, s) = build_random E s;
          s = assert_that ''test_osip_random'' (m \<noteq> n) s;
          (m, s) = build_random E s;
          s = assert_that ''test_osip_random'' (m \<noteq> random1) s;
          (m, s) = build_random E s;
          s = assert_that ''test_osip_random'' (m \<noteq> random2) s
      in Some (Finished, s))"

section \<open>The suite of libevent\<close>

definition tell_macro :: "nat \<Rightarrow> string \<Rightarrow> string \<Rightarrow> units \<Rightarrow> units" where
  "tell_macro n what text s = u_call (U_printf ([CHR 0x0A, CHR 0x09] @ dec_nat n @ '': '' @ what @ '': '' @ text)) s"

definition ev_test_nop :: "unit_env \<Rightarrow> units \<Rightarrow> unit_run" where
  "ev_test_nop E s =
     (let s = tell_macro 0 ''GCC Version'' (u_macro E ''__VERSION__'') s;
          s = tell_macro 1 ''date'' (u_macro E ''__DATE__'') s;
          s = tell_macro 2 ''time'' (u_macro E ''__TIME__'') s;
          s = tell_macro 3 ''base file'' (u_macro E ''__BASE_FILE__'') s;
          s = tell_macro 4 ''include level'' (dec_nat 0) s
      in Some (Finished, u_call (U_pass ''nothing'') s))"

text \<open>The loop over the array of names, which a null pointer ends; an array without one is read past its end.\<close>

fun tell_methods :: "nat \<Rightarrow> string option list \<Rightarrow> units \<Rightarrow> units option" where
  "tell_methods i [] s = None"
| "tell_methods i (None # ms) s = Some s"
| "tell_methods i (Some m # ms) s =
     (let s = (if 0 < i then u_call (U_printf '','') s else s) in tell_methods (Suc i) ms (u_call (U_printf m) s))"

definition test_supported_methods :: "unit_env \<Rightarrow> units \<Rightarrow> unit_run" where
  "test_supported_methods E s = do {
     let methods = u_methods E (u_hist s);
     let s = u_call (U_printf ''list:['') (u_call U_supported_methods s);
     ms \<leftarrow> methods;
     s \<leftarrow> tell_methods 0 ms s;
     let s = u_call (U_printf '']'') s;
     if u_object Ob_base (u_ev s) s
     then (let name = u_string E (u_hist s) (U_base_method (u_ev s)); s = u_call (U_base_method (u_ev s)) s
       in Some (Finished, u_call (U_printf ('',used:['' @ name @ '']... '')) s))
     else None }"

definition ev_init_suite :: "unit_env \<Rightarrow> units \<Rightarrow> (int \<times> units) option" where
  "ev_init_suite E s =
     (let s = u_call (U_printf ([CHR 0x0A, CHR 0x0A] @ rule_text)) s;
          v = u_string E (u_hist s) U_event_version;
          s = u_call (U_printf (''Libevent v'' @ v @ ''.'')) (u_call U_event_version s);
          s = u_call (U_printf ([CHR 0x0A] @ rule_text)) s;
          (p, s) = u_new E U_base_new Ob_base s;
          s = s\<lparr>u_ev := p\<rparr>
      in Some (if u_ev s = None then 1 else 0, s))"

definition ev_clean_suite :: "units \<Rightarrow> (int \<times> units) option" where
  "ev_clean_suite s = do {
     s \<leftarrow> u_release False Ob_base (U_base_free (u_ev s)) (u_ev s) s;
     Some (0, s\<lparr>u_ev := None\<rparr>) }"

section \<open>The registration\<close>

datatype unit_test = Test_osip_msg | Test_osip_msg_parse | Test_osip_init | Test_osip_thread | Test_osip_random
  | Test_osip_nop | Test_ev_methods | Test_ev_nop

datatype unit_suite = Suite_none | Suite_osip_msg | Suite_osip | Suite_ev   \<comment> \<open>whose initialisation and clean-up\<close>

definition all_msg_test :: "(string \<times> unit_test) list" where
  "all_msg_test = [(''Initializing msg'', Test_osip_msg), (''Parsing SIP msg'', Test_osip_msg_parse), (''Test10'', Test_osip_nop)]"

definition all_stk_test :: "(string \<times> unit_test) list" where
  "all_stk_test = [(''Initializing stack'', Test_osip_init), (''Create thread'', Test_osip_thread),
     (''Generate Random Number'', Test_osip_random), (''Test9'', Test_osip_nop)]"

definition all_tools_test :: "(string \<times> unit_test) list" where
  "all_tools_test = [(''Test1'', Test_osip_nop), (''Test9'', Test_osip_nop)]"

definition ev_all_tools_test :: "(string \<times> unit_test) list" where
  "ev_all_tools_test = [(''Supported methods'', Test_ev_methods), (''Test9'', Test_ev_nop)]"

definition osip_tests_suites :: "(string \<times> unit_suite \<times> (string \<times> unit_test) list) list" where
  "osip_tests_suites = [(''OSIP2 Tools Tests'', Suite_none, all_tools_test), (''OSIP2 Parser Tests'', Suite_osip_msg, all_msg_test),
     (''OSIP2 Tests'', Suite_osip, all_stk_test)]"

definition ev_tests_suites :: "(string \<times> unit_suite \<times> (string \<times> unit_test) list) list" where
  "ev_tests_suites = [(''LibEvent Tests'', Suite_ev, ev_all_tools_test)]"

text \<open>The functions behind the tables, as CUnit calls them.\<close>

definition call_test :: "unit_env \<Rightarrow> unit_test \<Rightarrow> units \<Rightarrow> unit_run" where
  "call_test E t s = (case t of
       Test_osip_msg \<Rightarrow> test_osip_msg s | Test_osip_msg_parse \<Rightarrow> test_osip_msg_parse E s | Test_osip_init \<Rightarrow> test_osip_init s
     | Test_osip_thread \<Rightarrow> test_osip_thread E s | Test_osip_random \<Rightarrow> test_osip_random E s | Test_osip_nop \<Rightarrow> unit_nop s
     | Test_ev_methods \<Rightarrow> test_supported_methods E s | Test_ev_nop \<Rightarrow> ev_test_nop E s)"

definition call_suite_init :: "unit_env \<Rightarrow> unit_suite \<Rightarrow> units \<Rightarrow> (int \<times> units) option" where
  "call_suite_init E u s = (case u of
       Suite_none \<Rightarrow> Some (0, s) | Suite_osip_msg \<Rightarrow> init_suite_osip_msg E s | Suite_osip \<Rightarrow> init_suite_osip E s | Suite_ev \<Rightarrow> ev_init_suite E s)"

definition call_suite_clean :: "unit_suite \<Rightarrow> units \<Rightarrow> (int \<times> units) option" where
  "call_suite_clean u s = (case u of
       Suite_none \<Rightarrow> Some (0, s) | Suite_osip_msg \<Rightarrow> clean_suite_osip_msg s | Suite_osip \<Rightarrow> clean_suite_osip s | Suite_ev \<Rightarrow> ev_clean_suite s)"

section \<open>The main function\<close>

definition CUE_SUCCESS :: int where "CUE_SUCCESS = 0"

text \<open>\<open>run\<close> is \<^verbatim>\<open>CU_basic_run_tests\<close>, which calls the registered functions.\<close>

definition unit_main :: "unit_env \<Rightarrow> (units \<Rightarrow> units option) \<Rightarrow> units \<Rightarrow> (int \<times> units) option" where
  "unit_main E run s =
     (let (r, s) = u_ask E U_initialize_registry s
      in if CUE_SUCCESS \<noteq> r then Some (u_ask E U_get_error s)
      else let (r, s) = u_ask E (U_register (map fst osip_tests_suites)) s
      in if CUE_SUCCESS \<noteq> r then Some (u_ask E U_get_error s)
      else let (r, s) = u_ask E (U_register (map fst ev_tests_suites)) s
      in if CUE_SUCCESS \<noteq> r then Some (u_ask E U_get_error s)
      else do {
        s \<leftarrow> run (u_call U_set_mode_verbose s);
        let s = u_call U_cleanup_registry s;
        Some (u_ask E U_get_error s) })"

section \<open>The tests give back what they take\<close>

definition u_heap_ok :: "units \<Rightarrow> bool" where
  "u_heap_ok s \<longleftrightarrow> (\<forall>a \<ge> u_next s. u_live s a = None)"

definition u_same :: "units \<Rightarrow> units \<Rightarrow> bool" where
  "u_same s s' \<longleftrightarrow> u_live s' = u_live s \<and> u_sip s' = u_sip s \<and> u_osip s' = u_osip s \<and> u_ev s' = u_ev s \<and> u_next s \<le> u_next s'"

lemma u_same_trans: "u_same s s' \<Longrightarrow> u_same s' s'' \<Longrightarrow> u_same s s''"
  by (auto simp: u_same_def)

lemma u_same_heap: "u_same s s' \<Longrightarrow> u_heap_ok s \<Longrightarrow> u_heap_ok s'"
  by (simp add: u_same_def u_heap_ok_def)

lemma u_call_sel [simp]:
  "u_live (u_call k s) = u_live s" "u_sip (u_call k s) = u_sip s" "u_osip (u_call k s) = u_osip s"
  "u_ev (u_call k s) = u_ev s" "u_next (u_call k s) = u_next s" "u_hist (u_call k s) = k # u_hist s"
  by (simp_all add: u_call_def)

lemma u_made_sel [simp]:
  "u_live (u_made x s) = (u_live s)(u_next s \<mapsto> x)" "u_sip (u_made x s) = u_sip s" "u_osip (u_made x s) = u_osip s"
  "u_ev (u_made x s) = u_ev s" "u_next (u_made x s) = Suc (u_next s)" "u_hist (u_made x s) = u_hist s"
  by (simp_all add: u_made_def)

lemma u_heap_next [simp]: "u_heap_ok s \<Longrightarrow> u_live s (u_next s) = None"
  by (simp add: u_heap_ok_def)

lemma u_heap_upd [simp]: "u_heap_ok s \<Longrightarrow> (u_live s)(u_next s := None) = u_live s"
  by (simp add: fun_eq_iff)

lemmas unit_eval = assert_fatal_def assert_that_def u_ask_def u_new_def u_new_at_def u_release_def u_object_def Let_def

text \<open>The array of names ends with a null pointer, as libevent documents it.\<close>

definition methods_end :: "unit_env \<Rightarrow> bool" where
  "methods_end E \<longleftrightarrow> (\<forall>h. \<exists>ms. u_methods E h = Some ms \<and> None \<in> set ms)"

lemma tell_methods_same: "None \<in> set ms \<Longrightarrow> \<exists>s'. tell_methods i ms s = Some s' \<and> u_same s s'"
proof (induction i ms s rule: tell_methods.induct)
  case (3 i m ms s)
  let ?s = "u_call (U_printf m) (if 0 < i then u_call (U_printf '','') s else s)"
  from 3 obtain s' where "tell_methods (Suc i) ms ?s = Some s'" "u_same ?s s'" by auto
  then show ?case by (auto simp: u_same_def)
qed (simp_all add: u_same_def)

text \<open>What a suite's initialisation has made is there while its tests run.\<close>

definition suite_var :: "unit_suite \<Rightarrow> units \<Rightarrow> cptr" where
  "suite_var u s = (case u of Suite_none \<Rightarrow> None | Suite_osip_msg \<Rightarrow> u_sip s | Suite_osip \<Rightarrow> u_osip s | Suite_ev \<Rightarrow> u_ev s)"

definition suite_object :: "unit_suite \<Rightarrow> unit_object" where
  "suite_object u = (case u of Suite_osip_msg \<Rightarrow> Ob_message | Suite_osip \<Rightarrow> Ob_osip | _ \<Rightarrow> Ob_base)"

definition suite_ready :: "unit_suite \<Rightarrow> units \<Rightarrow> bool" where
  "suite_ready u s \<longleftrightarrow> u = Suite_none \<or> u_object (suite_object u) (suite_var u s) s"

definition test_fits :: "unit_suite \<Rightarrow> unit_test \<Rightarrow> bool" where
  "test_fits u t \<longleftrightarrow> (t = Test_osip_msg_parse \<longrightarrow> u = Suite_osip_msg) \<and> (t = Test_ev_methods \<longrightarrow> u = Suite_ev)"

lemma msg_parse_verdict:
  assumes ok: "u_heap_ok s" and sip: "u_object Ob_message (u_sip s) s"
    and r: "r = u_int E (u_hist s) (U_message_parse (u_sip s) register_msg (length register_msg))"
    and h: "h = U_force_update (u_sip s) # U_assert ''test_osip_msg_parse'' True True
        # U_message_parse (u_sip s) register_msg (length register_msg) # u_hist s"
    and q: "q = u_int E h (U_message_to_str (u_sip s))"
  shows "\<exists>e s' cs. test_osip_msg_parse E s = Some (e, s') \<and> u_same s s' \<and> u_hist s' = cs @ u_hist s \<and>
    (e = Finished \<longleftrightarrow> r = 0 \<and> q \<noteq> - 1) \<and> (U_pass ''Message Parsed'' \<in> set cs \<longleftrightarrow> e = Finished)"
  using ok sip unfolding q h r
  by (auto simp: test_osip_msg_parse_def unit_eval u_same_def)

lemma call_test_same:
  assumes "u_heap_ok s" and "suite_ready u s" and "test_fits u t" and "methods_end E"
  shows "\<exists>e s'. call_test E t s = Some (e, s') \<and> u_same s s'"
proof (cases t)
  case Test_osip_msg_parse
  with assms(2,3) have "u_object Ob_message (u_sip s) s" by (simp add: suite_ready_def test_fits_def suite_var_def suite_object_def)
  from msg_parse_verdict [OF assms(1) this refl refl refl, of E] Test_osip_msg_parse show ?thesis by (auto simp: call_test_def)
next
  case Test_ev_methods
  with assms(2,3) have ev: "u_object Ob_base (u_ev s) s" by (simp add: suite_ready_def test_fits_def suite_var_def suite_object_def)
  from assms(4) obtain ms where ms: "u_methods E (u_hist s) = Some ms" "None \<in> set ms" unfolding methods_end_def by blast
  let ?s = "u_call (U_printf ''list:['') (u_call U_supported_methods s)"
  from tell_methods_same [OF ms(2), of 0 ?s] obtain v where v: "tell_methods 0 ms ?s = Some v" "u_same ?s v" by blast
  with ev have "u_object Ob_base (u_ev v) v" by (simp add: u_same_def u_object_def)
  with Test_ev_methods ms v show ?thesis by (auto simp: call_test_def test_supported_methods_def Let_def u_same_def u_object_def)
qed (use assms(1) in \<open>simp_all add: call_test_def test_osip_msg_def test_osip_init_def test_osip_thread_def test_osip_random_def unit_nop_def
  ev_test_nop_def tell_macro_def build_random_def unit_eval u_same_def\<close>)

section \<open>Whole suites\<close>

text \<open>How CUnit runs a suite, by its documentation: the initialisation; if it answers 0, the tests in their
  order, whether they fail or not, and the clean-up.\<close>

primrec run_unit_tests :: "unit_env \<Rightarrow> (string \<times> unit_test) list \<Rightarrow> units \<Rightarrow> units option" where
  "run_unit_tests E [] s = Some s"
| "run_unit_tests E (t # ts) s = do {
     (e, s) \<leftarrow> call_test E (snd t) s;
     run_unit_tests E ts s }"

definition run_unit_suite :: "unit_env \<Rightarrow> string \<times> unit_suite \<times> (string \<times> unit_test) list \<Rightarrow> units \<Rightarrow> units option" where
  "run_unit_suite E x s = do {
     (r, s) \<leftarrow> call_suite_init E (fst (snd x)) s;
     if r \<noteq> 0 then Some s
     else do {
       s \<leftarrow> run_unit_tests E (snd (snd x)) s;
       (r, s) \<leftarrow> call_suite_clean (fst (snd x)) s;
       Some s } }"

primrec run_unit_suites :: "unit_env \<Rightarrow> (string \<times> unit_suite \<times> (string \<times> unit_test) list) list \<Rightarrow> units \<Rightarrow> units option" where
  "run_unit_suites E [] s = Some s"
| "run_unit_suites E (x # xs) s = do {
     s \<leftarrow> run_unit_suite E x s;
     run_unit_suites E xs s }"

lemma run_unit_tests_same:
  assumes "methods_end E"
  shows "u_heap_ok s \<Longrightarrow> suite_ready u s \<Longrightarrow> \<forall>t \<in> set ts. test_fits u (snd t) \<Longrightarrow> \<exists>s'. run_unit_tests E ts s = Some s' \<and> u_same s s'"
proof (induction ts arbitrary: s)
  case Nil
  then show ?case by (simp add: u_same_def)
next
  case (Cons t ts)
  from call_test_same [OF Cons.prems(1,2) _ assms, of "snd t"] Cons.prems(3) obtain e v where
    v: "call_test E (snd t) s = Some (e, v)" "u_same s v" by auto
  then have "suite_ready u v" using Cons.prems(2) by (auto simp: suite_ready_def suite_var_def u_object_def u_same_def split: unit_suite.splits)
  with Cons.IH [OF u_same_heap [OF v(2) Cons.prems(1)]] Cons.prems(3) v show ?case by (fastforce dest: u_same_trans)
qed

text \<open>What the initialisation and the clean-up of a suite promise each other: the first makes one object and keeps
  it in a variable, or makes none and says so; the second gives back what is in the variable. \<open>frame\<close> is
  the rest of the static variables, which neither touches.\<close>

locale suite_pair =
  fixes init :: "unit_env \<Rightarrow> units \<Rightarrow> (int \<times> units) option"
    and clean :: "units \<Rightarrow> (int \<times> units) option"
    and var :: "units \<Rightarrow> cptr"
    and object :: unit_object
    and frame :: "units \<Rightarrow> 'f"
  assumes init_makes: "u_heap_ok s \<Longrightarrow> var s = None \<Longrightarrow> \<exists>r s'. init E s = Some (r, s') \<and> u_heap_ok s' \<and> frame s' = frame s \<and>
      u_next s \<le> u_next s' \<and> u_live s' = (if r = 0 then (u_live s)(u_next s \<mapsto> object) else u_live s) \<and> (r = 0 \<longrightarrow> var s' = Some (u_next s))"
    and clean_gives: "u_object object (var s) s \<Longrightarrow> \<exists>s'. clean s = Some (0, s') \<and> frame s' = frame s \<and> u_next s' = u_next s \<and>
      u_live s' = (u_live s)(the (var s) := None)"
    and same_var: "u_same s s' \<Longrightarrow> var s' = var s \<and> frame s' = frame s"
begin

lemma balanced:
  assumes ok: "u_heap_ok s" and var: "var s = None"
    and tests: "\<And>v. u_heap_ok v \<Longrightarrow> u_object object (var v) v \<Longrightarrow> \<exists>v'. tests v = Some v' \<and> u_same v v'"
  shows "\<exists>s'. do { (r, s) \<leftarrow> init E s; if r \<noteq> 0 then Some s else do { s \<leftarrow> tests s; (r, s) \<leftarrow> clean s; Some s } } = Some s' \<and>
    u_live s' = u_live s \<and> u_next s \<le> u_next s' \<and> frame s' = frame s"
proof -
  from init_makes [OF ok var, of E] obtain r v where v: "init E s = Some (r, v)" "u_heap_ok v" "frame v = frame s" "u_next s \<le> u_next v"
    "u_live v = (if r = 0 then (u_live s)(u_next s \<mapsto> object) else u_live s)" "r = 0 \<longrightarrow> var v = Some (u_next s)" by blast
  show ?thesis
  proof (cases "r = 0")
    case False
    with v show ?thesis by simp
  next
    case True
    with v have "u_object object (var v) v" by (simp add: u_object_def)
    from tests [OF v(2) this] obtain x where x: "tests v = Some x" "u_same v x" by blast
    with True v same_var [OF x(2)] have "u_object object (var x) x" by (simp add: u_object_def u_same_def)
    from clean_gives [OF this] obtain s' where "clean x = Some (0, s')" "frame s' = frame x" "u_next s' = u_next x"
      "u_live s' = (u_live x)(the (var x) := None)" by blast
    with True v x same_var [OF x(2)] ok show ?thesis by (simp add: u_same_def)
  qed
qed

end

lemmas suite_defs = unit_eval u_heap_ok_def u_same_def

interpretation msg_suite: suite_pair init_suite_osip_msg clean_suite_osip_msg u_sip Ob_message "\<lambda>s. (u_osip s, u_ev s)"
  by unfold_locales (auto simp: init_suite_osip_msg_def clean_suite_osip_msg_def suite_defs)

interpretation osip_suite: suite_pair init_suite_osip clean_suite_osip u_osip Ob_osip "\<lambda>s. (u_sip s, u_ev s)"
  by unfold_locales (auto simp: init_suite_osip_def clean_suite_osip_def suite_defs)

interpretation ev_suite: suite_pair ev_init_suite ev_clean_suite u_ev Ob_base "\<lambda>s. (u_sip s, u_osip s)"
  by unfold_locales (auto simp: ev_init_suite_def ev_clean_suite_def suite_defs)

text \<open>A suite leaves the objects as they were; only its own variable changes.\<close>

definition suite_done :: "unit_suite \<Rightarrow> units \<Rightarrow> units \<Rightarrow> bool" where
  "suite_done u s s' \<longleftrightarrow> u_live s' = u_live s \<and> u_next s \<le> u_next s' \<and> (\<forall>v. v \<noteq> u \<longrightarrow> suite_var v s' = suite_var v s)"

lemma call_suite_simps [simp]:
  "call_suite_init E Suite_osip_msg s = init_suite_osip_msg E s" "call_suite_clean Suite_osip_msg s = clean_suite_osip_msg s"
  "call_suite_init E Suite_osip s = init_suite_osip E s" "call_suite_clean Suite_osip s = clean_suite_osip s"
  "call_suite_init E Suite_ev s = ev_init_suite E s" "call_suite_clean Suite_ev s = ev_clean_suite s"
  by (simp_all add: call_suite_init_def call_suite_clean_def)

lemma run_unit_suite_done:
  assumes ok: "u_heap_ok s" and var: "suite_var u s = None" and fits: "\<forall>t \<in> set ts. test_fits u (snd t)" and "methods_end E"
  shows "\<exists>s'. run_unit_suite E (n, u, ts) s = Some s' \<and> suite_done u s s'"
proof -
  have tests: "\<exists>v'. run_unit_tests E ts v = Some v' \<and> u_same v v'" if "u_heap_ok v" "suite_ready u v" for v
    by (rule run_unit_tests_same [OF assms(4) that fits])
  show ?thesis
  proof (cases u)
    case Suite_none
    with tests [OF ok] show ?thesis
      by (auto simp: run_unit_suite_def call_suite_init_def call_suite_clean_def suite_done_def suite_ready_def u_same_def suite_var_def
          split: unit_suite.splits)
  next
    case Suite_osip_msg
    with msg_suite.balanced [OF ok, of "run_unit_tests E ts" E] tests var show ?thesis
      by (auto simp: run_unit_suite_def suite_done_def suite_ready_def suite_var_def suite_object_def split: unit_suite.splits cong: if_cong)
  next
    case Suite_osip
    with osip_suite.balanced [OF ok, of "run_unit_tests E ts" E] tests var show ?thesis
      by (auto simp: run_unit_suite_def suite_done_def suite_ready_def suite_var_def suite_object_def split: unit_suite.splits cong: if_cong)
  next
    case Suite_ev
    with ev_suite.balanced [OF ok, of "run_unit_tests E ts" E] tests var show ?thesis
      by (auto simp: run_unit_suite_def suite_done_def suite_ready_def suite_var_def suite_object_def split: unit_suite.splits cong: if_cong)
  qed
qed

lemma suite_done_next:
  assumes "suite_done u s s'" and "u_heap_ok s"
  shows "u_heap_ok s'" and "v \<noteq> u \<Longrightarrow> suite_var v s = None \<Longrightarrow> suite_var v s' = None"
  using assms by (auto simp: suite_done_def u_heap_ok_def)

lemma run_unit_suites_done:
  assumes "methods_end E"
  shows "u_heap_ok s \<Longrightarrow> distinct (map (fst \<circ> snd) xs) \<Longrightarrow> \<forall>x \<in> set xs. suite_var (fst (snd x)) s = None \<Longrightarrow>
    \<forall>x \<in> set xs. \<forall>t \<in> set (snd (snd x)). test_fits (fst (snd x)) (snd t) \<Longrightarrow>
    \<exists>s'. run_unit_suites E xs s = Some s' \<and> u_live s' = u_live s"
proof (induction xs arbitrary: s)
  case (Cons x xs)
  obtain n u ts where x: "x = (n, u, ts)" by (cases x)
  from run_unit_suite_done [OF Cons.prems(1) _ _ assms, of u ts n] Cons.prems(3,4) x obtain v where
    v: "run_unit_suite E x s = Some v" "suite_done u s v" by auto
  note next_ok = suite_done_next [OF v(2) Cons.prems(1)]
  have "\<forall>y \<in> set xs. suite_var (fst (snd y)) v = None"
  proof
    fix y assume y: "y \<in> set xs"
    with Cons.prems(2) x have "fst (snd y) \<noteq> u" by auto
    with y Cons.prems(3) show "suite_var (fst (snd y)) v = None" by (simp add: next_ok(2))
  qed
  with Cons.IH [OF next_ok(1)] Cons.prems(2,4) obtain s' where "run_unit_suites E xs v = Some s'" "u_live s' = u_live v" by auto
  with v show ?case by (simp add: suite_done_def)
qed simp

lemma unit_suites_fit:
  "distinct (map (fst \<circ> snd) (osip_tests_suites @ ev_tests_suites))"
  "\<forall>x \<in> set (osip_tests_suites @ ev_tests_suites). \<forall>t \<in> set (snd (snd x)). test_fits (fst (snd x)) (snd t)"
  by (simp_all add: osip_tests_suites_def ev_tests_suites_def all_tools_test_def all_msg_test_def all_stk_test_def ev_all_tools_test_def test_fits_def)

text \<open>CUnit runs the registered suites in their order.\<close>

definition runs_registered :: "unit_env \<Rightarrow> (units \<Rightarrow> units option) \<Rightarrow> bool" where
  "runs_registered E run \<longleftrightarrow> (\<forall>s. run s = run_unit_suites E (osip_tests_suites @ ev_tests_suites) s)"


text \<open>The thread of the tests ends only for a null argument, the one it gets; with any other it
  runs forever.\<close>

theorem my_thread_ends:
  "my_thread arg s \<noteq> None \<longleftrightarrow> arg = None"
proof
  assume "my_thread arg s \<noteq> None"
  then obtain s' where "my_thread arg s = Some s'" by auto
  then show "arg = None"
    by (rule my_thread.raw_induct [where P = "\<lambda>arg s s'. arg = None", rotated]) (auto split: if_splits)
qed (simp add: my_thread.simps)

text \<open>The test of the parser lets through every code of \<^verbatim>\<open>osip_message_to_str\<close> but -1: with -2 there is no text, and
  the test records that the message was parsed.\<close>

theorem parse_test_verdict:
  assumes "u_heap_ok s" and "u_object Ob_message (u_sip s) s"
    and "\<And>h. u_int E h (U_message_parse (u_sip s) register_msg (length register_msg)) = r" and "\<And>h. u_int E h (U_message_to_str (u_sip s)) = q"
  shows "\<exists>e s' cs. test_osip_msg_parse E s = Some (e, s') \<and> u_hist s' = cs @ u_hist s \<and> u_live s' = u_live s \<and>
    (e = Finished \<longleftrightarrow> r = 0 \<and> q \<noteq> - 1) \<and> (U_pass ''Message Parsed'' \<in> set cs \<longleftrightarrow> e = Finished)"
  using msg_parse_verdict [OF assms(1,2) refl refl refl, of E] unfolding assms(3,4) by (auto simp: u_same_def)

section \<open>Witnesses\<close>

definition unit_demo :: unit_env where
  "unit_demo = \<lparr>u_int = (\<lambda>h c. case c of U_message_to_str p \<Rightarrow> - 2 | _ \<Rightarrow> 0), u_ok = (\<lambda>h c. True), u_string = (\<lambda>h c. ''x''),
     u_methods = (\<lambda>h. Some [Some ''epoll'', Some ''poll'', None]), u_macro = (\<lambda>m. m)\<rparr>"

definition unit_boot :: units where
  "unit_boot = \<lparr>u_sip = None, u_osip = None, u_ev = None, u_live = Map.empty, u_next = 0, u_hist = []\<rparr>"


theorem parse_test_verdict_witness:
  "\<exists>s'. test_osip_msg_parse unit_demo (unit_boot\<lparr>u_sip := Some 0, u_live := [0 \<mapsto> Ob_message], u_next := 1\<rparr>) = Some (Finished, s')"
  using parse_test_verdict [of "unit_boot\<lparr>u_sip := Some 0, u_live := [0 \<mapsto> Ob_message], u_next := 1\<rparr>" unit_demo 0 "- 2"]
  by (auto simp: u_heap_ok_def u_object_def unit_demo_def unit_boot_def)

end
