(* ===== verification/Spec2Isabelle.thy ===== *)
theory Spec2Isabelle
  imports Es_Run Es_Clitest Es_Answer_Loop Es_Tests
begin

text \<open>
  Verification of esip, a small SIP server in C: a UDP transport and a SIP stack (libosip2) that run
  in the event loop of libevent, with a telnet command line (libcli) beside them.

  \<^bold>\<open>The program and the theories.\<close> \<^verbatim>\<open>main\<close> makes an event base, initialises the SIP stack and the command
  line interface, starts both and runs the loop until a signal ends it. Datagrams come in through the
  transport, whose callback hands them to the SIP stack; a parsed request becomes a transaction of
  libosip2, and a wake-up event on the queue \<^verbatim>\<open>pendingEv\<close> makes the loop execute the transactions,
  whose callbacks make and send the responses.

  \<^item> \<^verbatim>\<open>Esip_Prelude\<close>: machine types, the status codes of \<^verbatim>\<open>inc/eserror.h\<close>, and rules that evaluate runs and
    take them apart; a run is a result and a new state, or \<open>None\<close> for undefined behaviour.
  \<^item> \<^verbatim>\<open>Esip_State\<close>: the \<open>world\<close> (heap of typed cells, next free address, history of the calls that left the
    program, open descriptors, text on \<^verbatim>\<open>stderr\<close> and \<^verbatim>\<open>stdout\<close>, default log handler), the structs as
    records, the calls to libc, libevent, libosip2 and libcli as data, and the \<open>env\<close> that answers them.
    The locale \<open>cell_view\<close> states how one type of cell is read and written; it is interpreted for each.
  \<^item> \<^verbatim>\<open>Es_Log\<close>: \<^verbatim>\<open>eslog.c\<close> and \<^verbatim>\<open>inc/log.h\<close>.
  \<^item> \<^verbatim>\<open>Es_Transport\<close>: \<^verbatim>\<open>sip/estransport.c\<close>, with an abstract life cycle that the operations refine, and the
    locale \<open>handle_op\<close> of an operation that checks its handle by a magic number, interpreted for each
    such operation here, in \<^verbatim>\<open>Es_Osip\<close> and in \<^verbatim>\<open>Es_Cli\<close>.
  \<^item> \<^verbatim>\<open>Es_Msg\<close>: \<^verbatim>\<open>sip/esomsg.c\<close>.
  \<^item> \<^verbatim>\<open>Es_Osip\<close>: the definitions of \<^verbatim>\<open>sip/esosip.c\<close>; \<^verbatim>\<open>Es_Osip_Context\<close>: the life of its context and the
    wake-ups; \<^verbatim>\<open>Es_Osip_Parse\<close>: received packets; \<^verbatim>\<open>Es_Osip_Loop\<close>: the loop and the callbacks of libosip2;
    \<^verbatim>\<open>Es_Answer\<close>: the messages that are answered, and with which calls; \<^verbatim>\<open>Es_Answer_Loop\<close>: the answer to an
    INVITE through the loop, up to its datagram.
  \<^item> \<^verbatim>\<open>Es_Cli\<close>: \<^verbatim>\<open>cli/escli.c\<close>.
  \<^item> \<^verbatim>\<open>Es_Main\<close>: \<^verbatim>\<open>esip.c\<close>; \<^verbatim>\<open>Es_Server\<close>: the invariant of the running server, what the calls of libevent
    do to it, its reachable states and its orderly end; \<^verbatim>\<open>Es_Run\<close>: whole runs of \<^verbatim>\<open>main\<close>.
  \<^item> \<^verbatim>\<open>Es_Udpclient\<close>: \<^verbatim>\<open>tst/udpclient.c\<close>, \<^verbatim>\<open>Es_Clitest\<close>: \<^verbatim>\<open>tst/clitest.c\<close>, and \<^verbatim>\<open>Es_Tests\<close>: the unit tests
    \<^verbatim>\<open>tst/tst.c\<close>, \<^verbatim>\<open>tst_osip.c\<close> and \<^verbatim>\<open>tst_ev.c\<close>, the three test programs that are installed beside the
    server. They share no state with it and have states of their own.
  \<^item> \<^verbatim>\<open>Spec2Isabelle\<close>: the properties of the whole program.

  Every definition that models a function has the function's name, without a leading underscore. The
  branches are those of the source, the early returns and the failed calls included, and every trace
  is made where the source makes it, with its level, function and line. The long functions are cut at
  their blocks: \<^verbatim>\<open>main\<close> is \<open>esip_main\<close>, \<open>main_base\<close>, \<open>main_signal\<close>, \<open>main_init\<close>, \<open>main_start\<close>, \<open>main_loop\<close>,
  \<open>main_stop\<close> and the labels \<open>main_EXIT\<close> and \<open>main_ERROR_EXIT\<close>. A local variable whose address is taken,
  like \<^verbatim>\<open>ctx\<close> of \<^verbatim>\<open>main\<close>, is a cell of the heap that ends with the function.

  \<^bold>\<open>Undefined behaviour.\<close> Reading a null or freed pointer, a cell of the wrong type or a variable without a
  value, a second free, or an access outside an array has no result: the run is \<open>None\<close>. A theorem that a
  function returns thus also says that it does none of these. Some properties state when it does.

  \<^bold>\<open>What is outside.\<close> libc's sockets and allocation, libevent, libosip2 and libcli are parameters: the \<open>env\<close>
  answers each call from the state, whose history of calls lets equal calls differ. What a property
  relies on is a named hypothesis.
  \<^item> \<open>osip_list_laws\<close> states what is documented of \<^verbatim>\<open>osip_list_t\<close>; \<open>list_front_accepts\<close> and \<open>list_accepts\<close>
    that an insertion succeeds; \<open>osip_lib\<close> that the instance of a transaction is the stored context,
    the copy of a To header succeeds and callbacks get proper arguments.
  \<^item> \<open>finds_live\<close>: a transaction that libosip2 finds exists.
  \<^item> \<open>quiet_after E N\<close>: after \<open>N\<close> calls in all, libosip2 makes no more callbacks. Each round of the loop
    takes an event from the queue and only callbacks put new ones there; without such a bound on the
    work of libosip2 the loop of the source need not end. \<open>N\<close> is arbitrary.
  \<^item> \<open>fire_ok\<close> and \<open>valid_fires\<close>: libevent calls the function that was registered, with the argument that
    was registered, and a datagram leaves room for the terminating zero; \<open>transport_ev_overflow\<close> shows what
    happens without the last condition.
  \<^item> \<open>base_available\<close>: libevent can make its configuration, its base and the event of the signal;
    \<open>main_needs_libevent\<close> shows what happens without one of them. \<open>all_succeed\<close> and \<open>answering\<close>: no call fails.
  \<^item> \<open>calls_back_twice\<close>: when libosip2 executes the INVITE server transactions, it hands a request to the
    program once, and has a message sent in the next execution; \<open>message_text\<close>: it can make its text.
  \<^item> \<open>runs_registered\<close>: CUnit runs the suites in their order, the tests only after an initialisation that
    answers 0; \<open>methods_end\<close>: libevent's array of names ends with a null pointer.

  \<^bold>\<open>What is shown.\<close> For each part: what its operations do on every path and when they are undefined, that
  they keep the invariant of the context they work on (\<open>osip_ok\<close>, \<open>cli_live\<close>), what they leave behind when
  a call fails, and that its life cycle gives every block back or which block and descriptor it loses.
  For the loop and the recursive helpers: that they return. For the transport: that it refines the
  state machine of its life. For the server: that every reachable state has \<open>server_ok\<close>, that every
  further callback returns and keeps it, that no block changes its type, that the dialogs only grow, that
  from each of them the program ends in order and frees exactly its blocks, and that \<^verbatim>\<open>main\<close> returns. For
  an INVITE: all calls from its datagram to that of its answer, in order. For the unit tests: that they give
  back what they take, whatever fails. Where the code does not do what it means to do, the property
  states what it does. \<open>getopt_loop\<close>, \<open>copy_vias\<close>, \<open>osip_loop\<close>, \<open>find_dialog\<close>,
  \<open>client_loop\<close>, \<open>accept_loop\<close> and \<open>my_thread\<close> are partial functions, so that not
  returning is \<open>None\<close>; there is no fuel in the model. The loop of libevent is bounded by the number of
  callbacks that the \<open>env\<close> gives.

  \<^bold>\<open>What is not modelled.\<close> The text of a formatted trace (a parameter, by its place); the callback of libevent's
  own log inside libevent's functions; the commands a user types, which run inside libcli, so a thread
  of a connection is one step; the parts of \<^verbatim>\<open>escli.c\<close> that are not compiled; the compiler macros of
  \<^verbatim>\<open>estypes.h\<close>, which no function uses; how CUnit runs a suite, which is an argument of \<open>unit_main\<close>; and
  the build files. Every function that is compiled has its definition.
\<close>

section \<open>The command line\<close>

text \<open>C28. The first option character on the command line decides, whatever comes after it and whatever
  other arguments stand before it: \<^verbatim>\<open>h\<close> and \<^verbatim>\<open>v\<close> print their text and end the program with success,
  any other character prints the usage and makes the program fail, and without options the
  servers are set up. The options that the usage itself names, \<^verbatim>\<open>--h\<close> and \<^verbatim>\<open>--v\<close>, make the program fail:
  the character after the first dash is a dash.\<close>

theorem main_options:
  "esip_getopt E (Some n) argv w = Some (case first_option (tl argv) of
     None \<Rightarrow> (Returns ES_OK, w)
   | Some c \<Rightarrow> if c = CHR ''h'' then (Exits EXIT_SUCCESS, esip_usage w)
       else if c = CHR ''v'' then (Exits EXIT_SUCCESS, print_version w)
       else (Returns ES_ERROR_UNINITIALIZED, esip_usage (wrote [''invalid option -- '', [c]] w))) \<and>
   (\<exists>w'. esip_main E [prog, ''-h''] w = Some (EXIT_SUCCESS, w') \<and> sout w' = sout w @ [ESIP_USAGE_MSG_TEXT_STR]) \<and>
   (\<exists>w'. esip_main E [prog, ''--h''] w = Some (EXIT_FAILURE, w') \<and> sout w' = sout w @ [ESIP_USAGE_MSG_TEXT_STR]) \<and>
   (\<exists>w'. esip_main E [prog, ''--v''] w = Some (EXIT_FAILURE, w') \<and> sout w' = sout w @ [ESIP_USAGE_MSG_TEXT_STR])"
  by (simp add: esip_getopt_run esip_main_run is_option_def esip_trace_eval Let_def esip_usage_def)

section \<open>From the start of the program to its end\<close>

text \<open>C37. When libevent cannot make its configuration, its base or the event of the signal, the behaviour
  of \<^verbatim>\<open>main\<close> is undefined: it passes a null configuration on, or jumps to the end of the function,
  which frees the event of the signal, a variable that has no value yet or is null.\<close>

theorem main_needs_libevent:
  assumes "base_missing E" and "first_option (tl argv) = None"
  shows "esip_main E argv w = None"
  using assms(2) main_base_undefined [OF assms(1), where v = "new_cell (C_app uninitialised) w" and n = "brk w"]
  by (simp add: esip_main_run Let_def)

text \<open>C12. With these three objects, a run of \<^verbatim>\<open>main\<close> either ends with a failure, which happens only when a call
  of a library fails, and has then freed the base, its configuration and the event of the signal; or
  it enters the event loop with both servers running, in a state that has the server's invariant.\<close>

theorem main_outcomes:
  assumes "base_available E" and "heap_ok w" and "first_option (tl argv) = None"
  shows "(\<exists>w'. esip_main E argv w = Some (EXIT_FAILURE, w') \<and> \<not> all_succeed E \<and> (\<forall>y \<in> {brk w ..< brk w + 4}. heap w' y = None)) \<or>
    (\<exists>v. server_ok (brk w) (brk w + 4) (brk w + 7) v \<and> esip_main E argv w = main_loop E (brk w) v)"
  using main_run_outcomes [OF assms] .



section \<open>The running server\<close>



text \<open>C6. From every reachable state the orderly end of the program succeeds. It closes the socket of the
  transport and that of the listener and frees exactly the blocks of the server, the events
  still queued among them, and no other block.\<close>

theorem server_shutdown:
  assumes "osip_lib E a" and "finds_live E" and "server_ok g a c w" and "server_steps E g a c w fs v"
  shows "\<exists>w' x s t k l. main_stop E g v = Some (EXIT_SUCCESS, w') \<and>
    load as_app (Some g) v = Some x \<and> load as_osip (Some a) v = Some s \<and> load as_transport (transportCtx s) v = Some t \<and>
    load as_cli (Some c) v = Some k \<and> load as_listener (listener k) v = Some l \<and> fds w' = fds v - {udp_socket t, ls_fd l} \<and>
    heap w' = (\<lambda>y. if y \<in> server_blocks g a c x s t k then None else heap v y)"
  by (rule main_stop_run [OF osip_lib_lists [OF assms(1)] server_steps_ok [OF assms(1,2,4,3)]])

text \<open>C4. A datagram on the socket of the running server, from \<^verbatim>\<open>recvfrom\<close> through the transport and its
  callback to libosip2: exactly its bytes are parsed, a request makes one server transaction that
  gets the socket, the context and the event, and the loop of the SIP stack is woken, in this order
  and with no other call.\<close>

theorem server_request:
  assumes laws: "osip_list_laws E" "list_front_accepts E" "finds_live E" and lib: "all_succeed E" and ok: "server_ok g a c w"
    and s: "load as_osip (Some a) w = Some s" and x: "load as_transport (transportCtx s) w = Some x"
    and e: "load as_event (evudpsock x) w = Some ev"
    and d: "d = e_bytes E w (Libc (L_recvfrom (udp_socket x) 2048))" "d \<noteq> []" "length d < 2048"
      "0 \<le> e_int E w (Libc (L_recvfrom (udp_socket x) 2048))"
    and read: "\<And>v. e_parse E v (Osip (O_parse d (word_of_nat (length d)))) = Some (k, m)"
    and k: "(k, kind) \<in> {(RCV_REQINVITE, IST), (RCV_REQUEST, NIST)}"
  shows "\<exists>w'. run_fire E (Fire_event (the (evudpsock x)) EV_READ) w = Some w' \<and>
    load as_osip (Some a) w' = Some (s\<lparr>pendingEv := (brk w + 3) # pendingEv s\<rparr>) \<and>
    load as_event (Some (brk w + 3)) w' = Some (wake_event a s) \<and>
    load as_tr (Some (brk w + 2)) w' = Some kind \<and>
    hist w' = wake_calls a s (brk w + 3) @ dispatch_calls a (brk w + 1) (brk w + 2) (out_fd x) @
      [Osip (O_tr_init kind (osip s) (Some (brk w))), Osip (O_parse d (word_of_nat (length d))), Libc (L_recvfrom (udp_socket x) 2048)] @ hist w"
  using request_fire [OF assms] by blast

text \<open>The calls of the answer depend on the context only through its stack and its base.\<close>

lemma invite_loop_calls_pending:
  "invite_loop_calls E a (s\<lparr>pendingEv := q\<rparr>) ev tr r b rq ts cb2 ss = invite_loop_calls E a s ev tr r b rq ts cb2 ss"
  by (simp add: invite_loop_calls_def answer_calls_def wake_calls_def)


text \<open>C19. The dialogs of a running server only grow: whatever happens, the context keeps its stack, its
  transport and its base, every dialog it knew stays in the list, in the same order behind the new
  ones, and each of them is a live block. In particular no BYE ever ends a dialog.\<close>

theorem server_dialogs:
  assumes "osip_lib E a" and "finds_live E" and "server_ok g a c w" and "server_steps E g a c w fs v" and "load as_osip (Some a) w = Some s"
  shows "\<exists>s' ds. load as_osip (Some a) v = Some s' \<and> s' = s\<lparr>pendingEv := pendingEv s', osipDialog := ds @ osipDialog s\<rparr> \<and>
    (\<forall>d \<in> set (osipDialog s'). heap v d = Some C_dialog)"
  using server_steps_context [OF assms] by (auto simp: context_grows_def)

section \<open>Witnesses\<close>

text \<open>A server at address 100 that has just been started, and environments: one in which an interrupt
  ends the loop, one in which every datagram is an INVITE, and one without libevent's configuration.\<close>

definition demo_server :: world where
  "demo_server = boot\<lparr>heap := (inited_heap boot 100 3 5)
      (105 \<mapsto> C_transport (new_transport 104 (Some 102) 3\<lparr>evudpsock := Some 110\<rparr>),
       110 \<mapsto> C_event (transport_event 105 (new_transport 104 (Some 102) 3))),
     brk := 111, fds := {0, 1, 2, 3, 4, 5}\<rparr>"

lemma demo_server_started: "started boot (brk boot) 3 5 demo_server"
  by (auto simp: started_def demo_server_def)

lemma demo_server_ok: "server_ok 100 104 107 demo_server"
  using started_server [OF boot_heap_ok refl demo_server_started] by simp

definition calm_env :: env where
  "calm_env = plain_env\<lparr>e_fire := (\<lambda>w. case heap w 100 of
       Some (C_app x) \<Rightarrow> Fire_event (the (the (a_evsig x))) EV_SIGNAL | _ \<Rightarrow> Run_thread 0),
     e_callbacks := (\<lambda>w c. case c of Lev (Ev_base_dispatch b) \<Rightarrow> if calls w < 40 then 1 else 0 | _ \<Rightarrow> 0)\<rparr>"

lemma calm_env_lib: "osip_lib calm_env 104" "osip_list_laws calm_env" "finds_live calm_env" "quiet_after calm_env 40"
    "base_available calm_env" "all_succeed calm_env"
  using plain_env_lists
  by (auto simp: osip_lib_def osip_list_laws_def calm_env_def plain_int_def plain_env_def callback_args_def finds_live_def
      quiet_after_def base_available_def all_succeed_def split: call.splits ev_call.splits)

lemma calm_env_fires: "valid_fires calm_env 100 104 107"
  by (auto simp: valid_fires_def server_ok_def app_ready_def fire_ok_def calm_env_def)

lemma plain_env_lib: "osip_lib plain_env a" "finds_live plain_env" "quiet_after plain_env N" "base_available plain_env"
    "all_succeed plain_env"
  using plain_env_lists
  by (simp_all add: osip_lib_def plain_int_def callback_args_def finds_live_def quiet_after_def base_available_def all_succeed_def)
    (simp add: plain_env_def)

theorem main_needs_libevent_witness:
  "esip_main (plain_env\<lparr>e_ok := (\<lambda>w c. c \<noteq> Lev Ev_config_new)\<rparr>) [''esip''] boot = None"
  by (rule main_needs_libevent) (simp_all add: base_missing_def)

theorem main_outcomes_witness:
  "\<exists>v. server_ok 100 104 107 v \<and> esip_main calm_env [''esip''] boot = main_loop calm_env 100 v"
  using main_outcomes [OF calm_env_lib(5) boot_heap_ok, of "[''esip'']"] calm_env_lib(6) by simp



lemma demo_server_cells:
  "heap demo_server 103 = Some (C_event (signal_event (Some 102) 100))" "brk demo_server = 111"
  "load as_osip (Some 104) demo_server = Some (new_osip 104 (Some 102) 105 106)"
  "load as_transport (Some 105) demo_server = Some (new_transport 104 (Some 102) 3\<lparr>evudpsock := Some 110\<rparr>)"
  "load as_event (Some 110) demo_server = Some (transport_event 105 (new_transport 104 (Some 102) 3))"
  by (simp_all add: demo_server_def inited_heap_def osip_cell.load_heap transport_cell.load_heap event_cell.load_heap)

lemma demo_interrupt: "fire_ok calm_env 100 104 107 demo_server (Fire_event 103 EV_SIGNAL)"
    "\<not> is_loop_fire demo_server (Fire_event 103 EV_SIGNAL)"
  using demo_server_cells(1) by (simp_all add: fire_ok_def is_loop_fire_def)


lemma demo_interrupted: "\<exists>v. server_steps calm_env 100 104 107 demo_server [Fire_event 103 EV_SIGNAL] v"
  using server_step [OF server_start demo_interrupt(1)] server_steps_progress [OF calm_env_lib(1,3) demo_server_ok server_start demo_interrupt(1)]
    demo_interrupt(2) by fastforce


theorem server_shutdown_witness:
  "\<exists>v w'. server_steps calm_env 100 104 107 demo_server [Fire_event 103 EV_SIGNAL] v \<and>
     main_stop calm_env 100 v = Some (EXIT_SUCCESS, w') \<and> heap w' 100 = None"
proof -
  from demo_interrupted obtain v where v: "server_steps calm_env 100 104 107 demo_server [Fire_event 103 EV_SIGNAL] v" ..
  from server_shutdown [OF calm_env_lib(1,3) demo_server_ok v] v show ?thesis by (auto simp: server_blocks_def)
qed

definition invite_env :: env where
  "invite_env = reading_env RCV_REQINVITE\<lparr>e_bytes := (\<lambda>w c. [73, 78, 86])\<rparr>"

lemma invite_env_lib: "osip_list_laws invite_env" "list_front_accepts invite_env" "finds_live invite_env" "all_succeed invite_env"
    "e_parse invite_env w c = Some (RCV_REQINVITE, empty_message)" "e_bytes invite_env w c = [73, 78, 86]" "e_int invite_env = plain_int"
  using reading_env_laws [of RCV_REQINVITE]
  by (simp_all add: invite_env_def osip_list_laws_def list_front_accepts_def finds_live_def all_succeed_def plain_int_def)

theorem server_request_witness:
  "\<exists>w'. run_fire invite_env (Fire_event 110 EV_READ) demo_server = Some w' \<and> load as_tr (Some 113) w' = Some IST"
proof -
  let ?x = "new_transport 104 (Some 102) 3\<lparr>evudpsock := Some 110\<rparr>"
  have x: "load as_transport (transportCtx (new_osip 104 (Some 102) 105 106)) demo_server = Some ?x"
    using demo_server_cells(4) by (simp add: new_osip_def)
  have e: "load as_event (evudpsock ?x) demo_server = Some (transport_event 105 (new_transport 104 (Some 102) 3))"
    using demo_server_cells(5) by simp
  from server_request [OF invite_env_lib(1-4) demo_server_ok demo_server_cells(3) x e, of "[73, 78, 86]" RCV_REQINVITE empty_message IST]
  show ?thesis using demo_server_cells(2) by (auto simp: invite_env_lib plain_int_def)
qed

definition demo_invite :: osip_message_s where
  "demo_invite = \<lparr>m_from = Some 1, m_to = Some 2, m_cseq = Some 3, m_call_id = Some 4, m_vias = [5, 6]\<rparr>"

definition demo_cb :: callback where
  "demo_cb = Cb_message OSIP_IST_INVITE_RECEIVED (Some 113) (Some 111)"

definition demo_send :: callback where
  "demo_send = Cb_send (Some 113) (Some 115) (Some ''10.0.0.1'') 5060 0"

definition answered_env :: env where
  "answered_env = plain_env\<lparr>e_bytes := (\<lambda>w c. [73, 78, 86]),
     e_parse := (\<lambda>w c. Some (RCV_REQINVITE, demo_invite)),
     e_ptr := (\<lambda>w c. case c of Osip (O_tr_get_instance tr) \<Rightarrow> Some 104 | _ \<Rightarrow> None),
     e_callback := (\<lambda>w. if Enter_cb demo_cb \<in> set (hist w) then demo_send else demo_cb),
     e_callbacks := (\<lambda>w c. case c of Osip (O_execute ph st) \<Rightarrow> if ph = Ist \<and> Enter_cb demo_send \<notin> set (hist w) then 1 else 0 | _ \<Rightarrow> 0)\<rparr>"

lemma answered_env_lib: "answering answered_env" "all_succeed answered_env" "finds_live answered_env"
    "calls_back_twice answered_env demo_cb demo_send 111" "message_text answered_env (Some 115) [73, 78, 86]"
  using plain_env_lists plain_env_front plain_env_accepts
  by (simp_all add: answered_env_def answering_def osip_list_laws_def list_front_accepts_def list_accepts_def clones_succeed_def wakes_def
      all_succeed_def finds_live_def calls_back_twice_def message_text_def plain_int_def)


theorem server_dialogs_witness:
  "\<exists>v s'. server_steps calm_env 100 104 107 demo_server [Fire_event 103 EV_SIGNAL] v \<and>
     load as_osip (Some 104) v = Some s' \<and> osip s' = Some 106"
proof -
  from demo_interrupted obtain v where v: "server_steps calm_env 100 104 107 demo_server [Fire_event 103 EV_SIGNAL] v" ..
  from server_dialogs [OF calm_env_lib(1,3) demo_server_ok v demo_server_cells(3)] obtain s' ds where
    s': "load as_osip (Some 104) v = Some s'" "s' = new_osip 104 (Some 102) 105 106\<lparr>pendingEv := pendingEv s',
      osipDialog := ds @ osipDialog (new_osip 104 (Some 102) 105 106)\<rparr>" by blast
  have "osip s' = Some 106" using arg_cong [OF s'(2), of osip] by (simp add: new_osip_def)
  with v s'(1) show ?thesis by blast
qed

end
